(* ===== verification/Prelude.thy ===== *)
theory Prelude
  imports
    Main
    "HOL-Library.Word"
    "HOL-Library.Sublist"
begin

text \<open>
  Shared ground of the development: the names of the machine types, the named theorem
  collections, and generic lemmas on lists, options and folds that the component theories use.

  A Rust \<open>String\<close> or \<open>&str\<close> is represented by its UTF-8 byte sequence, and a byte is an
  Isabelle \<open>char\<close> (eight bits), so \<open>Vec<u8>\<close>, \<open>&[u8]\<close>, \<open>Bytes\<close> and \<open>String\<close> all are \<open>string\<close>.
\<close>

section \<open>Types\<close>

type_synonym u8 = "8 word"
type_synonym u16 = "16 word"
type_synonym u64 = "64 word"
type_synonym bytes = string

section \<open>Theorem collections\<close>

named_theorems unat_simps
  \<open>readings of the fixed-width operations as natural-number arithmetic\<close>

named_theorems str_simps
  \<open>characterisations of the string operations of the Rust standard library\<close>

named_theorems preserves
  \<open>which operation keeps which invariant\<close>

section \<open>Generic lemmas\<close>

lemma foldl_snoc_inv:
  assumes "P s" and "\<And>s x. P s \<Longrightarrow> P (f s x)"
  shows "P (foldl f s xs)"
  using assms(1) by (induction xs arbitrary: s) (simp_all add: assms(2))

lemma foldl_append_concat:
  "foldl (\<lambda>acc x. acc @ g x) acc xs = acc @ concat (map g xs)"
  by (induction xs arbitrary: acc) simp_all

lemma map_filter_append:
  "List.map_filter f (xs @ ys) = List.map_filter f xs @ List.map_filter f ys"
  by (simp add: List.map_filter_def)

lemma takeWhile_neq_append: "x \<notin> set a \<Longrightarrow> takeWhile (\<lambda>c. c \<noteq> x) (a @ x # r) = a"
  by (induction a) auto

lemma dropWhile_neq_append: "x \<notin> set a \<Longrightarrow> dropWhile (\<lambda>c. c \<noteq> x) (a @ x # r) = x # r"
  by (induction a) auto

lemma length_filter_mono:
  "\<forall>x \<in> set xs. P x \<longrightarrow> Q x \<Longrightarrow> length (filter P xs) \<le> length (filter Q xs)"
  by (induction xs) auto

lemma prefix_snoc_next:
  assumes "ys = xs @ x # zs"
  shows "prefix (xs @ [x]) ys"
  using assms by (simp add: prefix_def)

lemma subseq_snoc_right: "subseq xs ys \<Longrightarrow> subseq xs (ys @ zs)"
  by (metis append.right_neutral list_emb_append_mono list_emb_Nil)

lemma subseq_snoc_both: "subseq xs ys \<Longrightarrow> subseq (xs @ [a]) (ys @ [a])"
  by (intro list_emb_append_mono) auto

end
