(* ===== verification/Rust_Std.thy ===== *)
theory Rust_Std
  imports
    Prelude
    "HOL-Library.Char_ord"
    "HOL-Library.List_Lexorder"
    "HOL-Library.Option_ord"
    "HOL-Library.Product_Lexorder"
begin

text \<open>
  The parts of the Rust language and standard library the program uses: \<open>u64\<close> arithmetic with
  its checked and saturating variants, \<open>str\<close> and byte-slice operations, and decimal printing and
  parsing.
  The orders of \<open>String\<close>, \<open>Option\<close> and tuples are the library's lexicographic orders, which are
  the ones Rust derives (bytewise, \<open>None\<close> before \<open>Some\<close>, left component first).
\<close>

section \<open>Fixed-width integers\<close>

definition checked_add :: "u64 \<Rightarrow> u64 \<Rightarrow> u64 option" where
  "checked_add a b = (if unat a + unat b < 2 ^ 64 then Some (a + b) else None)"

definition checked_sub :: "u64 \<Rightarrow> u64 \<Rightarrow> u64 option" where
  "checked_sub a b = (if unat b \<le> unat a then Some (a - b) else None)"

definition saturating_add :: "u64 \<Rightarrow> u64 \<Rightarrow> u64" where
  "saturating_add a b = (if unat a + unat b < 2 ^ 64 then a + b else - 1)"

definition saturating_sub :: "u64 \<Rightarrow> u64 \<Rightarrow> u64" where
  "saturating_sub a b = (if unat b \<le> unat a then a - b else 0)"

lemma unat_add_u64:
  fixes a b :: u64
  shows "unat a + unat b < 2 ^ 64 \<Longrightarrow> unat (a + b) = unat a + unat b"
  by (simp add: unat_word_ariths)

lemma unat_sub_u64:
  fixes a b :: u64
  shows "unat b \<le> unat a \<Longrightarrow> unat (a - b) = unat a - unat b"
  by (simp add: unat_sub word_le_nat_alt)

lemma unat_u64_less: "unat (a :: u64) < 2 ^ 64"
  using unsigned_less [of a] by simp

lemma checked_add_None_iff [unat_simps]:
  "checked_add a b = None \<longleftrightarrow> 2 ^ 64 \<le> unat a + unat b"
  by (simp add: checked_add_def not_less)

lemma checked_add_Some_iff [unat_simps]:
  "checked_add a b = Some c \<longleftrightarrow> unat c = unat a + unat b"
  using unat_u64_less [of c]
  by (auto simp: checked_add_def unat_add_u64 intro: word_unat_eq_iff [THEN iffD2])

lemma checked_sub_None_iff [unat_simps]:
  "checked_sub a b = None \<longleftrightarrow> unat a < unat b"
  by (simp add: checked_sub_def not_le)

lemma checked_sub_Some_iff [unat_simps]:
  "checked_sub a b = Some c \<longleftrightarrow> unat a = unat c + unat b"
  by (auto simp: checked_sub_def unat_sub_u64 intro: word_unat_eq_iff [THEN iffD2])

lemma unat_max_u64: "unat (- 1 :: u64) = 2 ^ 64 - 1"
  by (simp add: unsigned_minus_1_eq_mask mask_eq_exp_minus_1)

lemma unat_saturating_add [unat_simps]:
  "unat (saturating_add a b) = min (unat a + unat b) (2 ^ 64 - 1)"
  by (auto simp: saturating_add_def unat_add_u64 unat_max_u64 min_def)

lemma unat_saturating_sub [unat_simps]:
  "unat (saturating_sub a b) = unat a - unat b"
  by (auto simp: saturating_sub_def unat_sub_u64)

lemma unat_Suc_u64:
  fixes n :: u64
  assumes "unat n + 1 < 2 ^ 64"
  shows "unat (n + 1) = unat n + 1"
  using assms unat_add_u64 [of n 1] by simp

section \<open>Strings and byte slices\<close>

text \<open>\<open>str::strip_prefix\<close>, \<open>str::starts_with\<close>, \<open><[u8]>::strip_suffix\<close>.\<close>

fun strip_prefix :: "string \<Rightarrow> string \<Rightarrow> string option" where
  "strip_prefix [] s = Some s"
| "strip_prefix (c # p) [] = None"
| "strip_prefix (c # p) (d # s) = (if c = d then strip_prefix p s else None)"

definition starts_with :: "string \<Rightarrow> string \<Rightarrow> bool" where
  "starts_with p s = (strip_prefix p s \<noteq> None)"

definition strip_suffix :: "string \<Rightarrow> string \<Rightarrow> string option" where
  "strip_suffix p s = map_option rev (strip_prefix (rev p) (rev s))"

lemma strip_prefix_Some_iff [str_simps]: "strip_prefix p s = Some r \<longleftrightarrow> s = p @ r"
  by (induction p s rule: strip_prefix.induct) auto

lemma strip_prefix_append [simp]: "strip_prefix p (p @ s) = Some s"
  by (simp add: strip_prefix_Some_iff)

lemma strip_prefix_None_iff [str_simps]: "strip_prefix p s = None \<longleftrightarrow> \<not> prefix p s"
  by (metis not_None_eq prefix_def strip_prefix_Some_iff)

lemma starts_with_iff [str_simps]: "starts_with p s \<longleftrightarrow> prefix p s"
  by (simp add: starts_with_def strip_prefix_None_iff)

lemma strip_suffix_Some_iff [str_simps]: "strip_suffix p s = Some r \<longleftrightarrow> s = r @ p"
  by (auto simp: strip_suffix_def strip_prefix_Some_iff) (metis rev_append rev_rev_ident)+

lemma strip_suffix_append [simp]: "strip_suffix p (s @ p) = Some s"
  by (simp add: strip_suffix_Some_iff)

text \<open>\<open>str::trim_start_matches\<close> and \<open>str::trim_end_matches\<close> for one ASCII character.\<close>

definition trim_start_matches :: "char \<Rightarrow> string \<Rightarrow> string" where
  "trim_start_matches c s = dropWhile (\<lambda>x. x = c) s"

definition trim_end_matches :: "char \<Rightarrow> string \<Rightarrow> string" where
  "trim_end_matches c s = rev (dropWhile (\<lambda>x. x = c) (rev s))"

lemma trim_end_matches_prefix: "prefix (trim_end_matches c s) s"
proof -
  have "suffix (dropWhile (\<lambda>x. x = c) (rev s)) (rev s)" by (rule suffix_dropWhile)
  then show ?thesis by (simp add: trim_end_matches_def suffix_to_prefix)
qed

lemma trim_end_matches_last: "trim_end_matches c s \<noteq> [] \<Longrightarrow> last (trim_end_matches c s) \<noteq> c"
  using hd_dropWhile [of "\<lambda>x. x = c" "rev s"] by (simp add: trim_end_matches_def last_rev del: dropWhile_eq_Nil_conv)

text \<open>\<open>str::split\<close> at one ASCII character: always at least one piece.\<close>

fun split_on :: "char \<Rightarrow> string \<Rightarrow> string list" where
  "split_on c [] = [[]]"
| "split_on c (x # xs) =
     (if x = c then [] # split_on c xs
      else case split_on c xs of [] \<Rightarrow> [[x]] | y # ys \<Rightarrow> (x # y) # ys)"

lemma split_on_nonempty [simp]: "split_on c s \<noteq> []"
  by (cases s) (auto split: list.splits)

lemma split_on_pieces: "p \<in> set (split_on c s) \<Longrightarrow> c \<notin> set p"
  by (induction s arbitrary: p) (fastforce split: if_splits list.splits)+

lemma split_on_none [simp]: "c \<notin> set s \<Longrightarrow> split_on c s = [s]"
  by (induction s) auto

lemma split_on_sep [simp]: "c \<notin> set a \<Longrightarrow> split_on c (a @ c # s) = a # split_on c s"
  by (induction a) auto

lemma split_on_append_sep: "split_on c (s @ c # t) = split_on c s @ split_on c t"
  by (induction s) (auto split: list.splits)

lemma length_split_on_last: "length (split_on c s) + length (last (split_on c s)) \<le> Suc (length s)"
proof (induction s)
  case (Cons x s)
  then show ?case
    by (cases "split_on c s"; cases "tl (split_on c s)") auto
qed simp

lemma set_split_on: "p \<in> set (split_on c s) \<Longrightarrow> set p \<subseteq> set s"
  by (induction s arbitrary: p) (fastforce split: if_splits list.splits)+

text \<open>\<open>str::to_ascii_lowercase\<close> and \<open>u8::is_ascii_whitespace\<close>.\<close>

definition ascii_lower :: "char \<Rightarrow> char" where
  "ascii_lower c = (let n = of_char c :: nat in
     if 65 \<le> n \<and> n \<le> 90 then char_of (n + 32) else c)"

definition to_ascii_lowercase :: "string \<Rightarrow> string" where
  "to_ascii_lowercase s = map ascii_lower s"

definition is_ascii_whitespace :: "char \<Rightarrow> bool" where
  "is_ascii_whitespace c \<longleftrightarrow> c \<in> {CHR 0x09, CHR 0x0A, CHR 0x0C, CHR 0x0D, CHR 0x20}"

lemma ascii_lower_idem: "ascii_lower (ascii_lower c) = ascii_lower c"
proof -
  have "(of_char (char_of (n + 32 :: nat)) :: nat) = n + 32" if "n \<le> 90" for n
    using that by (simp add: of_char_of)
  then show ?thesis by (simp add: ascii_lower_def Let_def)
qed

lemma to_ascii_lowercase_idem [simp]:
  "to_ascii_lowercase (to_ascii_lowercase s) = to_ascii_lowercase s"
  by (simp add: to_ascii_lowercase_def ascii_lower_idem)

text \<open>
  \<open>str::trim\<close> removes characters with the Unicode property White\_Space. On the UTF-8 bytes
  these are the following encodings. UTF-8 is self-synchronising, so an encoding that is a
  suffix of the bytes is the last character of the string.
\<close>

definition ws_encodings :: "string list" where
  "ws_encodings =
     [[CHR 0x09], [CHR 0x0A], [CHR 0x0B], [CHR 0x0C], [CHR 0x0D], [CHR 0x20],
      [CHR 0xC2, CHR 0x85], [CHR 0xC2, CHR 0xA0], [CHR 0xE1, CHR 0x9A, CHR 0x80],
      [CHR 0xE2, CHR 0x80, CHR 0x80], [CHR 0xE2, CHR 0x80, CHR 0x81],
      [CHR 0xE2, CHR 0x80, CHR 0x82], [CHR 0xE2, CHR 0x80, CHR 0x83],
      [CHR 0xE2, CHR 0x80, CHR 0x84], [CHR 0xE2, CHR 0x80, CHR 0x85],
      [CHR 0xE2, CHR 0x80, CHR 0x86], [CHR 0xE2, CHR 0x80, CHR 0x87],
      [CHR 0xE2, CHR 0x80, CHR 0x88], [CHR 0xE2, CHR 0x80, CHR 0x89],
      [CHR 0xE2, CHR 0x80, CHR 0x8A], [CHR 0xE2, CHR 0x80, CHR 0xA8],
      [CHR 0xE2, CHR 0x80, CHR 0xA9], [CHR 0xE2, CHR 0x80, CHR 0xAF],
      [CHR 0xE2, CHR 0x81, CHR 0x9F], [CHR 0xE3, CHR 0x80, CHR 0x80]]"

lemma ws_encodings_nonempty: "w \<in> set ws_encodings \<Longrightarrow> w \<noteq> []"
  by (auto simp: ws_encodings_def)

fun strip_any :: "string list \<Rightarrow> string \<Rightarrow> string option" where
  "strip_any [] s = None"
| "strip_any (w # ws) s = (case strip_prefix w s of Some r \<Rightarrow> Some r | None \<Rightarrow> strip_any ws s)"

lemma strip_any_SomeD: "strip_any ws s = Some r \<Longrightarrow> \<exists>w \<in> set ws. s = w @ r"
  by (induction ws) (auto simp: str_simps split: option.splits)

lemma strip_any_None_iff: "strip_any ws s = None \<longleftrightarrow> (\<forall>w \<in> set ws. \<not> prefix w s)"
  by (induction ws) (auto simp: strip_prefix_None_iff strip_prefix_Some_iff split: option.splits)

function strip_all :: "string list \<Rightarrow> string \<Rightarrow> string" where
  "strip_all ws s =
     (case strip_any ws s of
        None \<Rightarrow> s
      | Some r \<Rightarrow> if length r < length s then strip_all ws r else s)"
  by pat_completeness auto
termination
  by (relation "measure (\<lambda>(ws, s). length s)") auto

declare strip_all.simps [simp del]

definition trim_start :: "string \<Rightarrow> string" where
  "trim_start s = strip_all ws_encodings s"

definition trim_end :: "string \<Rightarrow> string" where
  "trim_end s = rev (strip_all (map rev ws_encodings) (rev s))"

definition trim :: "string \<Rightarrow> string" where
  "trim s = trim_end (trim_start s)"

lemma strip_all_noop: "strip_any ws s = None \<Longrightarrow> strip_all ws s = s"
  by (simp add: strip_all.simps [of ws s])

lemma strip_all_suffix: "suffix (strip_all ws s) s"
proof (induction ws s rule: strip_all.induct)
  case (1 ws s)
  show ?case
  proof (cases "strip_any ws s")
    case None
    then show ?thesis by (simp add: strip_all.simps [of ws s])
  next
    case (Some r)
    then have "suffix r s" by (auto dest!: strip_any_SomeD simp: suffix_def)
    then show ?thesis
      using "1.IH" [OF Some] Some by (auto simp: strip_all.simps [of ws s] intro: suffix_order.trans)
  qed
qed

lemma set_strip_all: "set (strip_all ws s) \<subseteq> set s"
  using strip_all_suffix [of ws s] by (auto dest: set_mono_suffix)

lemma set_trim: "set (trim s) \<subseteq> set s"
  using set_strip_all [of ws_encodings s]
    set_strip_all [of "map rev ws_encodings" "rev (strip_all ws_encodings s)"]
  by (auto simp: trim_def trim_end_def trim_start_def)

lemma trim_noop:
  assumes "\<And>w. w \<in> set ws_encodings \<Longrightarrow> \<not> prefix w s \<and> \<not> suffix w s"
  shows "trim s = s"
proof -
  have "strip_any ws_encodings s = None" "strip_any (map rev ws_encodings) (rev s) = None"
    using assms by (auto simp: strip_any_None_iff suffix_to_prefix)
  then show ?thesis by (simp add: trim_def trim_end_def trim_start_def strip_all_noop)
qed

text \<open>
  \<open>str::lines\<close>: a line loses its line feed and one carriage return before it; what follows the last
  line feed is a line when it is not empty.
\<close>

definition lines :: "string \<Rightarrow> string list" where
  "lines s =
     (let ps = split_on (CHR 0x0A) s;
          cut = (\<lambda>l. case strip_suffix [CHR 0x0D] l of Some l1 \<Rightarrow> l1 | None \<Rightarrow> l)
      in map cut (butlast ps) @ (if last ps = [] then [] else [last ps]))"

text \<open>\<open>str::split_whitespace\<close>: the non-empty pieces between white space.\<close>

function split_ws :: "string \<Rightarrow> string list" where
  "split_ws [] = [[]]"
| "split_ws (c # s) =
     (case strip_any ws_encodings (c # s) of
        Some r \<Rightarrow> if length r < length (c # s) then [] # split_ws r else [[]]
      | None \<Rightarrow> (case split_ws s of [] \<Rightarrow> [[c]] | y # ys \<Rightarrow> (c # y) # ys))"
  by pat_completeness auto
termination
  by (relation "measure length") auto

definition split_whitespace :: "string \<Rightarrow> string list" where
  "split_whitespace s = filter (\<lambda>p. p \<noteq> []) (split_ws s)"

section \<open>Decimal numbers\<close>

text \<open>\<open>u64::to_string\<close> and \<open>str::parse\<close> for an unsigned type of \<open>w\<close> bits (a leading \<open>+\<close> is allowed).\<close>

fun show_nat :: "nat \<Rightarrow> string" where
  "show_nat n = (if n < 10 then [char_of (48 + n)]
     else show_nat (n div 10) @ [char_of (48 + n mod 10)])"

declare show_nat.simps [simp del]

definition digit_value :: "char \<Rightarrow> nat option" where
  "digit_value c = (let n = of_char c :: nat in if 48 \<le> n \<and> n \<le> 57 then Some (n - 48) else None)"

fun digits_value :: "nat \<Rightarrow> string \<Rightarrow> nat option" where
  "digits_value acc [] = Some acc"
| "digits_value acc (c # cs) =
     (case digit_value c of None \<Rightarrow> None | Some d \<Rightarrow> digits_value (10 * acc + d) cs)"

definition parse_unsigned :: "nat \<Rightarrow> string \<Rightarrow> nat option" where
  "parse_unsigned w s =
     (let ds = (case s of [] \<Rightarrow> [] | c # r \<Rightarrow> if c = CHR ''+'' then r else s) in
      if ds = [] then None
      else case digits_value 0 ds of
          None \<Rightarrow> None
        | Some n \<Rightarrow> if n < 2 ^ w then Some n else None)"

lemma digit_value_char_of: "d < 10 \<Longrightarrow> digit_value (char_of (48 + d)) = Some d"
  by (simp add: digit_value_def Let_def of_char_of)

lemma digits_value_append:
  "digits_value acc (xs @ ys) = Option.bind (digits_value acc xs) (\<lambda>a. digits_value a ys)"
  by (induction xs arbitrary: acc) (auto split: option.splits)

lemma digits_value_show_nat: "digits_value 0 (show_nat n) = Some n"
proof (induction n rule: show_nat.induct)
  case (1 n)
  show ?case
  proof (cases "n < 10")
    case True
    then show ?thesis by (simp add: show_nat.simps [of n] digit_value_char_of)
  next
    case False
    with "1.IH" show ?thesis
      by (simp add: show_nat.simps [of n] digits_value_append digit_value_char_of)
  qed
qed

lemma digit_value_set_show_nat: "c \<in> set (show_nat n) \<Longrightarrow> digit_value c \<noteq> None"
  by (induction n rule: show_nat.induct)
    (subst (asm) show_nat.simps, auto simp: digit_value_char_of split: if_splits)

lemma show_nat_nonempty [simp]: "show_nat n \<noteq> []"
  by (subst show_nat.simps) simp

lemma parse_unsigned_show_nat: "n < 2 ^ w \<Longrightarrow> parse_unsigned w (show_nat n) = Some n"
proof -
  assume n: "n < 2 ^ w"
  obtain c r where s: "show_nat n = c # r" by (cases "show_nat n") auto
  then have "digit_value c \<noteq> None" using digit_value_set_show_nat [of c n] by simp
  then have "c \<noteq> CHR ''+''" by (auto simp: digit_value_def)
  with n s show ?thesis
    using digits_value_show_nat [of n] by (simp add: parse_unsigned_def)
qed

lemma parse_unsigned_bound: "parse_unsigned w s = Some n \<Longrightarrow> n < 2 ^ w"
  by (auto simp: parse_unsigned_def Let_def split: if_splits option.splits)

section \<open>Reading text\<close>

text \<open>
  UTF-8 as \<open>str::from_utf8\<close> checks it: the first byte of a character says in which ranges the bytes
  that continue it lie.
\<close>

definition utf8_ranges :: "nat \<Rightarrow> (nat \<times> nat) list option" where
  "utf8_ranges b =
     (if b < 0x80 then Some []
      else if 0xC2 \<le> b \<and> b \<le> 0xDF then Some [(0x80, 0xBF)]
      else if b = 0xE0 then Some [(0xA0, 0xBF), (0x80, 0xBF)]
      else if b = 0xED then Some [(0x80, 0x9F), (0x80, 0xBF)]
      else if 0xE1 \<le> b \<and> b \<le> 0xEF then Some [(0x80, 0xBF), (0x80, 0xBF)]
      else if b = 0xF0 then Some [(0x90, 0xBF), (0x80, 0xBF), (0x80, 0xBF)]
      else if 0xF1 \<le> b \<and> b \<le> 0xF3 then Some [(0x80, 0xBF), (0x80, 0xBF), (0x80, 0xBF)]
      else if b = 0xF4 then Some [(0x80, 0x8F), (0x80, 0xBF), (0x80, 0xBF)]
      else None)"

definition continues :: "(nat \<times> nat) list \<Rightarrow> bytes \<Rightarrow> bool" where
  "continues rs s \<longleftrightarrow>
     length rs \<le> length s \<and> list_all2 (\<lambda>(lo, hi) c. lo \<le> of_char c \<and> of_char c \<le> hi) rs (take (length rs) s)"

fun utf8_valid :: "bytes \<Rightarrow> bool" where
  "utf8_valid [] \<longleftrightarrow> True"
| "utf8_valid (c # s) \<longleftrightarrow>
     (case utf8_ranges (of_char c) of
        None \<Rightarrow> False
      | Some rs \<Rightarrow> continues rs s \<and> utf8_valid (drop (length rs) s))"

lemma utf8_valid_append: "utf8_valid s \<Longrightarrow> utf8_valid (s @ t) = utf8_valid t"
  by (induction s rule: utf8_valid.induct) (auto simp: continues_def split: option.splits)

lemma utf8_valid_ascii: "list_all (\<lambda>c. of_char c < (0x80 :: nat)) s \<Longrightarrow> utf8_valid s"
  by (induction s) (auto simp: utf8_ranges_def continues_def)

text \<open>\<open>fs::read_to_string\<close>, of the result of reading the bytes of the file.\<close>

definition read_to_string :: "string + bytes \<Rightarrow> string + string" where
  "read_to_string read =
     (case read of
        Inl err \<Rightarrow> Inl err
      | Inr content \<Rightarrow>
          if utf8_valid content then Inr content else Inl ''stream did not contain valid UTF-8'')"

section \<open>Writing text\<close>

text \<open>
  A stream to write to: without limit, or one that takes so many more bytes and then fails with an
  error. \<open>write_all\<close> gives what reached the stream, the error, and the stream afterwards.
\<close>

type_synonym sink = "(nat \<times> string) option"

definition write_all :: "sink \<Rightarrow> string \<Rightarrow> string \<times> string option \<times> sink" where
  "write_all out text =
     (case out of
        None \<Rightarrow> (text, None, None)
      | Some (room, err) \<Rightarrow>
          if length text \<le> room then (text, None, Some (room - length text, err))
          else (take room text, Some err, Some (0, err)))"

text \<open>A sequence of \<open>writeln!(..)?\<close>: every line with its line feed, up to the first error.\<close>

fun write_lines :: "sink \<Rightarrow> string list \<Rightarrow> string \<times> string option" where
  "write_lines out [] = ([], None)"
| "write_lines out (l # ls) =
     (case write_all out (l @ [CHR 0x0A]) of
        (written, Some err, _) \<Rightarrow> (written, Some err)
      | (written, None, out') \<Rightarrow> (written @ fst (write_lines out' ls), snd (write_lines out' ls)))"

text \<open>What is written is a beginning of the text, all of it exactly when there was no error.\<close>

lemma write_all_prefix:
  assumes "write_all out text = (written, res, out')"
  shows "prefix written text" and "res = None \<longleftrightarrow> written = text"
  using assms by (auto simp: write_all_def take_is_prefix split: option.splits if_splits)

lemma write_lines_prefix:
  assumes "write_lines out ls = (written, res)"
  shows "prefix written (concat (map (\<lambda>l. l @ [CHR 0x0A]) ls)) \<and>
    (res = None \<longleftrightarrow> written = concat (map (\<lambda>l. l @ [CHR 0x0A]) ls))"
  using assms
proof (induction ls arbitrary: out written res)
  case (Cons l ls)
  obtain w r out' where w: "write_all out (l @ [CHR 0x0A]) = (w, r, out')" by (metis prod_cases3)
  note head = write_all_prefix [OF w]
  show ?case
  proof (cases r)
    case None
    with head have "w = l @ [CHR 0x0A]" by simp
    with Cons.prems w None Cons.IH [OF prod.collapse [symmetric], of out']
    show ?thesis by auto
  next
    case (Some err)
    with Cons.prems w have "written = w" "res = Some err" by simp_all
    moreover have "w \<noteq> l @ [CHR 0x0A]" "prefix w (l @ [CHR 0x0A])" using head Some by auto
    moreover from this have "w \<noteq> (l @ [CHR 0x0A]) @ s" for s
      by (metis append_self_conv prefix_order.antisym prefixI append_Nil2)
    ultimately show ?thesis using prefix_prefix [of w "l @ [CHR 0x0A]"] by auto
  qed
qed simp

lemma write_lines_unlimited: "write_lines None ls = (concat (map (\<lambda>l. l @ [CHR 0x0A]) ls), None)"
  by (induction ls) (simp_all add: write_all_def)

end
