(* ===== verification/Audit_Record.thy ===== *)
theory Audit_Record
  imports Rust_Std
begin

text \<open>
  The canonical audit record of \<^verbatim>\<open>src/src/usage.rs\<close>: the enumerations, the token counters and the
  record itself, with the constructor \<open>AuditRecord::new\<close>. The random event id and the clock of
  the constructor are arguments.
\<close>

datatype Operation = Response | Compaction

datatype Outcome =
    Completed
  | Incomplete
  | UpstreamError
  | TransportError
  | UpstreamInterrupted
  | ClientCancelled

datatype AccountingQuality = Complete | Partial | Inconsistent | Unavailable

datatype MeteringError = MissingUsage | MalformedUsage | EventTooLarge

record Usage =
  input_total :: "u64 option"
  uncached :: "u64 option"
  cache_read :: "u64 option"
  cache_write :: "u64 option"
  output_total :: "u64 option"
  reasoning :: "u64 option"
  total :: "u64 option"

record AuditRecord =
  schema_version :: u8
  kind :: string
  event_id :: string
  timestamp :: string
  machine_id :: string
  operation :: Operation
  upstream_status :: "u16 option"
  outcome :: Outcome
  model :: "string option"
  accounting_quality :: AccountingQuality
  metering_error :: "MeteringError option"
  reasoning_effort :: "string option"
  usage :: "Usage option"

definition AUDIT_QUEUE_CAPACITY :: nat where
  "AUDIT_QUEUE_CAPACITY = 2048"

definition KIND :: string where
  "KIND = ''request''"

definition SCHEMA_VERSION :: u8 where
  "SCHEMA_VERSION = 1"

text \<open>\<open>AuditRecord::new\<close>; \<open>ev\<close> is the fresh UUID and \<open>now\<close> the RFC3339 time of the call.\<close>

definition AuditRecord_new :: "string \<Rightarrow> string \<Rightarrow> string \<Rightarrow> Operation \<Rightarrow> AuditRecord" where
  "AuditRecord_new ev now mid oper =
     \<lparr>schema_version = SCHEMA_VERSION, kind = KIND, event_id = ev, timestamp = now,
      machine_id = mid, operation = oper, upstream_status = None, outcome = Completed,
      model = None, accounting_quality = Unavailable, metering_error = None,
      reasoning_effort = None, usage = None\<rparr>"

text \<open>A canonical record: the schema version and the kind every reader of the file asks for.\<close>

definition canonical :: "AuditRecord \<Rightarrow> bool" where
  "canonical r \<longleftrightarrow> schema_version r = SCHEMA_VERSION \<and> kind r = KIND"

lemma canonical_new [simp]: "canonical (AuditRecord_new ev now mid oper)"
  by (simp add: canonical_def AuditRecord_new_def)

lemma canonical_frame [simp]:
  "canonical (r\<lparr>upstream_status := a\<rparr>) = canonical r"
  "canonical (r\<lparr>outcome := b\<rparr>) = canonical r"
  "canonical (r\<lparr>model := c\<rparr>) = canonical r"
  "canonical (r\<lparr>accounting_quality := d\<rparr>) = canonical r"
  "canonical (r\<lparr>metering_error := e\<rparr>) = canonical r"
  "canonical (r\<lparr>reasoning_effort := f\<rparr>) = canonical r"
  "canonical (r\<lparr>usage := g\<rparr>) = canonical r"
  by (simp_all add: canonical_def)

end
