(* ===== verification/Libraries.thy ===== *)
theory Libraries
  imports Audit_Record
begin

text \<open>
  The third-party crates the program calls, as records of functions. Every definition that calls
  a crate takes the crate's record as an argument; nothing is assumed of the functions here. What
  a property relies on beyond that is a hypothesis of the property, stated with the predicates
  \<open>..._ok\<close> below, which restate documented behaviour of the crate.
\<close>

section \<open>serde\_json values\<close>

text \<open>
  \<open>serde_json::Value\<close> is the type variable \<open>'v\<close>. An object is the list of its key-value pairs in
  the order the map iterates them.
\<close>

record 'v json_lib =
  json_from_slice :: "bytes \<Rightarrow> 'v option"
  json_from_str :: "string \<Rightarrow> 'v option"
  json_get :: "'v \<Rightarrow> string \<Rightarrow> 'v option"
  json_as_str :: "'v \<Rightarrow> string option"
  json_as_u64 :: "'v \<Rightarrow> u64 option"
  json_as_object :: "'v \<Rightarrow> (string \<times> 'v) list option"
  json_is_object :: "'v \<Rightarrow> bool"
  json_is_null :: "'v \<Rightarrow> bool"

text \<open>
  Documented behaviour of \<open>Value\<close>: \<open>get\<close> with a string key reads an object and is \<open>None\<close> on
  every other value, and the kinds of values exclude each other.
\<close>

definition json_lib_ok :: "'v json_lib \<Rightarrow> bool" where
  "json_lib_ok J \<longleftrightarrow>
     (\<forall>v k. json_get J v k = (case json_as_object J v of None \<Rightarrow> None | Some obj \<Rightarrow> map_of obj k)) \<and>
     (\<forall>v. json_is_object J v \<longleftrightarrow> json_as_object J v \<noteq> None) \<and>
     (\<forall>v. json_is_null J v \<longrightarrow>
        json_as_object J v = None \<and> json_as_str J v = None \<and> json_as_u64 J v = None) \<and>
     (\<forall>v. json_is_object J v \<longrightarrow> json_as_str J v = None \<and> json_as_u64 J v = None) \<and>
     (\<forall>v n. json_as_u64 J v = Some n \<longrightarrow> json_as_str J v = None)"

section \<open>Typed (de)serialisation of the audit record and of the declared effort\<close>

record DeclaredReasoningDetail =
  declared_effort :: "string option"

record DeclaredReasoning =
  declared_reasoning :: "DeclaredReasoningDetail option"

text \<open>\<open>serde_json::to_vec\<close> and \<open>from_slice\<close> at the derived implementations for \<open>AuditRecord\<close>.\<close>

record record_codec =
  record_to_vec :: "AuditRecord \<Rightarrow> bytes option"
  record_from_slice :: "bytes \<Rightarrow> AuditRecord option"

text \<open>
  Documented behaviour of the derived implementations, for the records of \<open>R\<close>: serialisation
  succeeds, compact output has no line feed and does not end in a carriage return, and reading
  the output back gives the record.
\<close>

definition codec_ok :: "record_codec \<Rightarrow> AuditRecord set \<Rightarrow> bool" where
  "codec_ok C R \<longleftrightarrow>
     (\<forall>r \<in> R. \<exists>line. record_to_vec C r = Some line \<and> record_from_slice C line = Some r \<and>
        CHR 0x0A \<notin> set line \<and> line \<noteq> [] \<and> last line \<noteq> CHR 0x0D)"

text \<open>
  \<open>serde_json\<close> at \<open>DeclaredReasoning\<close> and the zstd stream decoder; \<open>'d\<close> is the decoder.
\<close>

record 'd effort_lib =
  effort_from_slice :: "bytes \<Rightarrow> DeclaredReasoning option"
  zstd_decoder_new :: "bytes \<Rightarrow> 'd option"
  effort_from_reader :: "'d \<Rightarrow> DeclaredReasoning option"

section \<open>eventsource-stream\<close>

text \<open>
  The items the event stream of the crate yields for a body given as one chunk: the data of an
  event, or an error.
\<close>

type_synonym sse_lib = "bytes \<Rightarrow> (unit + string) list"

section \<open>reqwest URLs, http headers, sha2 and hex\<close>

record 'u url_lib =
  url_parse :: "string \<Rightarrow> 'u option"
  url_scheme :: "'u \<Rightarrow> string"
  url_host_str :: "'u \<Rightarrow> string option"
  url_path :: "'u \<Rightarrow> string"
  url_set_path :: "'u \<Rightarrow> string \<Rightarrow> 'u"
  url_set_query :: "'u \<Rightarrow> string option \<Rightarrow> 'u"
  url_set_fragment :: "'u \<Rightarrow> string option \<Rightarrow> 'u"
  url_to_string :: "'u \<Rightarrow> string"

text \<open>Documented behaviour of \<open>Url::set_query\<close>: the other components are kept.\<close>

definition url_set_query_ok :: "'u url_lib \<Rightarrow> bool" where
  "url_set_query_ok U \<longleftrightarrow>
     (\<forall>u q. url_scheme U (url_set_query U u q) = url_scheme U u \<and>
            url_host_str U (url_set_query U u q) = url_host_str U u \<and>
            url_path U (url_set_query U u q) = url_path U u)"

record http_lib =
  value_to_str :: "bytes \<Rightarrow> string option"
  header_name_from_bytes :: "bytes \<Rightarrow> string option"
  status_is_success :: "u16 \<Rightarrow> bool"
  response_builder_ok :: "u16 \<Rightarrow> (string \<times> bytes) list \<Rightarrow> bool"

record digest_lib =
  sha256 :: "bytes \<Rightarrow> bytes"
  hex_encode :: "bytes \<Rightarrow> string"

text \<open>
  Documented behaviour of the digest crates: a SHA-256 digest has 32 bytes, and \<open>hex::encode\<close> writes
  each byte as two lowercase hexadecimal digits.
\<close>

definition hex_digit :: "nat \<Rightarrow> char" where
  "hex_digit d = (if d < 10 then char_of (48 + d) else char_of (87 + d))"

definition hex_of_byte :: "char \<Rightarrow> string" where
  "hex_of_byte b = (let n = of_char b :: nat in [hex_digit (n div 16), hex_digit (n mod 16)])"

definition digest_ok :: "digest_lib \<Rightarrow> bool" where
  "digest_ok X \<longleftrightarrow>
     (\<forall>k. length (sha256 X k) = 32) \<and> (\<forall>bs. hex_encode X bs = concat (map hex_of_byte bs))"

text \<open>
  Documented behaviour of \<open>Url::parse\<close> for the schemes http and https: the path is normalised, so
  no segment of it is a dot segment, in plain or percent-encoded form.
\<close>

definition dot_segments :: "string list" where
  "dot_segments =
     [''.'', ''..'', ''%2e'', ''.%2e'', ''%2e.'', ''%2e%2e'']"

definition no_dot_segments :: "string \<Rightarrow> bool" where
  "no_dot_segments path \<longleftrightarrow>
     list_all (\<lambda>seg. to_ascii_lowercase seg \<notin> set dot_segments) (split_on (CHR ''/'') path)"

definition url_normalizes :: "'u url_lib \<Rightarrow> bool" where
  "url_normalizes U \<longleftrightarrow>
     (\<forall>s u. url_parse U s = Some u \<and> url_scheme U u \<in> {''http'', ''https''} \<longrightarrow>
        no_dot_segments (url_path U u))"

section \<open>axum routing\<close>

record axum_lib =
  route_matches :: "string \<Rightarrow> string \<Rightarrow> bool"
  get_accepts :: "string \<Rightarrow> bool"
  post_accepts :: "string \<Rightarrow> bool"

text \<open>Documented behaviour of the router for a trailing wildcard: it matches below its prefix.\<close>

definition wildcard_ok :: "axum_lib \<Rightarrow> bool" where
  "wildcard_ok A \<longleftrightarrow>
     (\<forall>p. route_matches A ''/v1/*path'' p \<longrightarrow> prefix ''/v1/'' p)"

section \<open>Inert instances\<close>

text \<open>Instances that reject every input; they serve to exhibit concrete runs.\<close>

definition inert_json :: "unit json_lib" where
  "inert_json =
     \<lparr>json_from_slice = \<lambda>_. None, json_from_str = \<lambda>_. None, json_get = \<lambda>_ _. None,
      json_as_str = \<lambda>_. None, json_as_u64 = \<lambda>_. None, json_as_object = \<lambda>_. None,
      json_is_object = \<lambda>_. False, json_is_null = \<lambda>_. True\<rparr>"

definition inert_effort :: "unit effort_lib" where
  "inert_effort =
     \<lparr>effort_from_slice = \<lambda>_. None, zstd_decoder_new = \<lambda>_. None, effort_from_reader = \<lambda>_. None\<rparr>"

definition inert_sse :: sse_lib where
  "inert_sse _ = []"

text \<open>
  URLs of one fixed origin without query, ASCII headers and the identity digest: concrete
  functions with the documented behaviour.
\<close>

definition plain_url :: "string url_lib" where
  "plain_url =
     \<lparr>url_parse = (\<lambda>s. case strip_prefix ''https://h'' s of
          None \<Rightarrow> None
        | Some r \<Rightarrow>
            (let p = takeWhile (\<lambda>c. c \<noteq> CHR ''?'') r in if no_dot_segments p then Some p else None)),
      url_scheme = \<lambda>_. ''https'', url_host_str = \<lambda>_. Some ''h'', url_path = \<lambda>u. u,
      url_set_path = \<lambda>_ p. p, url_set_query = \<lambda>u _. u, url_set_fragment = \<lambda>u _. u,
      url_to_string = \<lambda>u. ''https://h'' @ u\<rparr>"

definition plain_http :: http_lib where
  "plain_http =
     \<lparr>value_to_str = Some, header_name_from_bytes = \<lambda>t. Some (to_ascii_lowercase t),
      status_is_success = \<lambda>s. 200 \<le> s \<and> s < 300, response_builder_ok = \<lambda>_ _. True\<rparr>"

definition plain_digest :: digest_lib where
  "plain_digest = \<lparr>sha256 = \<lambda>k. k, hex_encode = \<lambda>d. d\<rparr>"

definition plain_axum :: axum_lib where
  "plain_axum =
     \<lparr>route_matches = (\<lambda>pat p. if pat = ''/v1/*path'' then starts_with ''/v1/'' p else p = pat),
      get_accepts = (\<lambda>m. m = ''GET''), post_accepts = (\<lambda>m. m = ''POST'')\<rparr>"

lemma plain_url_ok: "url_set_query_ok plain_url" "url_normalizes plain_url"
  by (auto simp: url_set_query_ok_def url_normalizes_def plain_url_def Let_def
      split: option.splits if_splits)

lemma plain_axum_ok: "wildcard_ok plain_axum"
  by (simp add: wildcard_ok_def plain_axum_def starts_with_iff)

end
