(* ===== verification/Headers.thy ===== *)
theory Headers
  imports Libraries
begin

text \<open>
  The header policies of \<^verbatim>\<open>src/src/lib.rs\<close>: which request headers go upstream and which response
  headers go back. A header map is the list of its entries in iteration order; names are
  \<open>HeaderName\<close>s, which the http crate keeps in lower case, and values are raw bytes. What both
  policies promise is the interface \<open>header_policy\<close>; the copying loops of \<open>route_v1\<close> are analysed
  once for every policy.
\<close>

type_synonym headers = "(string \<times> bytes) list"

text \<open>\<open>HeaderMap::get_all\<close> and \<open>HeaderMap::get\<close>.\<close>

definition get_all :: "headers \<Rightarrow> string \<Rightarrow> bytes list" where
  "get_all hs n = map snd (filter (\<lambda>(k, _). k = n) hs)"

definition header_get :: "headers \<Rightarrow> string \<Rightarrow> bytes option" where
  "header_get hs n = (case get_all hs n of [] \<Rightarrow> None | v # _ \<Rightarrow> Some v)"

section \<open>Predicates\<close>

definition hop_by_hop_names :: "string list" where
  "hop_by_hop_names =
     [''connection'', ''keep-alive'', ''proxy-connection'', ''proxy-authenticate'',
      ''proxy-authorization'', ''te'', ''trailer'', ''transfer-encoding'', ''upgrade'']"

definition hop_by_hop_is_stripped :: "string \<Rightarrow> string set \<Rightarrow> bool" where
  "hop_by_hop_is_stripped name connection_nominated \<longleftrightarrow>
     name \<in> connection_nominated \<or> name \<in> set hop_by_hop_names"

definition request_header_is_stripped :: "string \<Rightarrow> string set \<Rightarrow> bool" where
  "request_header_is_stripped name connection_nominated \<longleftrightarrow>
     (if hop_by_hop_is_stripped name connection_nominated then True
      else if name \<in> {''host'', ''cookie'', ''forwarded'', ''via'', ''x-real-ip''} then True
      else starts_with ''x-meter-'' name \<or> starts_with ''x-forwarded-'' name)"

definition response_header_is_stripped :: "string \<Rightarrow> string set \<Rightarrow> bool" where
  "response_header_is_stripped name connection_nominated \<longleftrightarrow>
     hop_by_hop_is_stripped name connection_nominated"

definition connection_nominated_headers :: "http_lib \<Rightarrow> headers \<Rightarrow> string set" where
  "connection_nominated_headers H hs =
     (let values = List.map_filter (value_to_str H) (get_all hs ''connection'');
          tokens = map trim (concat (map (split_on (CHR '','')) values))
      in set (List.map_filter (header_name_from_bytes H) tokens))"

section \<open>The copying loops\<close>

text \<open>
  Both loops of \<open>route_v1\<close> walk a header map, skip what the policy strips and append the rest to
  the outgoing headers.
\<close>

fun copy_headers ::
  "(string \<Rightarrow> string set \<Rightarrow> bool) \<Rightarrow> string set \<Rightarrow> headers \<Rightarrow> headers \<Rightarrow> headers" where
  "copy_headers is_stripped nominated [] out = out"
| "copy_headers is_stripped nominated ((name, v) # hs) out =
     (if is_stripped name nominated then copy_headers is_stripped nominated hs out
      else copy_headers is_stripped nominated hs (out @ [(name, v)]))"

definition forward_request_headers :: "http_lib \<Rightarrow> headers \<Rightarrow> headers" where
  "forward_request_headers H hs =
     copy_headers request_header_is_stripped (connection_nominated_headers H hs) hs []"

definition filtered_response_headers :: "http_lib \<Rightarrow> headers \<Rightarrow> headers" where
  "filtered_response_headers H hs =
     copy_headers response_header_is_stripped (connection_nominated_headers H hs) hs []"

lemma copy_headers_eq:
  "copy_headers st N hs out = out @ filter (\<lambda>(n, _). \<not> st n N) hs"
  by (induction st N hs out rule: copy_headers.induct) simp_all

lemma get_all_filter:
  "get_all (filter (\<lambda>(n, _). P n) hs) n = (if P n then get_all hs n else [])"
  by (induction hs) (auto simp: get_all_def)

section \<open>The interface of a policy\<close>

locale header_policy =
  fixes stripped :: "string \<Rightarrow> string set \<Rightarrow> bool"
  assumes nominated_stripped: "n \<in> N \<Longrightarrow> stripped n N"
    and hop_by_hop_stripped: "n \<in> set hop_by_hop_names \<Longrightarrow> stripped n N"
    and nomination_local: "n \<notin> N \<Longrightarrow> stripped n N = stripped n {}"
begin

lemma copy_get_all: "get_all (copy_headers stripped N hs []) n = (if stripped n N then [] else get_all hs n)"
  by (simp add: copy_headers_eq get_all_filter)

lemma copy_subseq: "subseq (copy_headers stripped N hs []) hs"
  by (simp add: copy_headers_eq)

lemma copy_never:
  "n \<in> N \<or> n \<in> set hop_by_hop_names \<Longrightarrow> n \<notin> fst ` set (copy_headers stripped N hs [])"
  by (auto simp: copy_headers_eq nominated_stripped hop_by_hop_stripped)

lemma copy_kept:
  "n \<notin> N \<Longrightarrow> \<not> stripped n {} \<Longrightarrow> get_all (copy_headers stripped N hs []) n = get_all hs n"
  by (simp add: copy_get_all nomination_local [of n N])

text \<open>
  A second gateway with the same policy has nothing left to strip: what was copied names no
  connection options any more.
\<close>

lemma copy_idem:
  "copy_headers stripped {} (copy_headers stripped N hs []) [] = copy_headers stripped N hs []"
proof -
  have "\<not> stripped n {}" if "\<not> stripped n N" for n
    using that nominated_stripped nomination_local by blast
  then show ?thesis by (auto simp: copy_headers_eq intro!: filter_cong)
qed

end

interpretation request_policy: header_policy request_header_is_stripped
  by unfold_locales (simp_all add: request_header_is_stripped_def hop_by_hop_is_stripped_def)

interpretation response_policy: header_policy response_header_is_stripped
  by unfold_locales (simp_all add: response_header_is_stripped_def hop_by_hop_is_stripped_def)

lemma no_connection_nominates_nothing:
  "get_all hs ''connection'' = [] \<Longrightarrow> connection_nominated_headers H hs = {}"
  by (simp add: connection_nominated_headers_def List.map_filter_def)

lemma request_nominates_nothing:
  "connection_nominated_headers H (forward_request_headers H hs) = {}"
  by (rule no_connection_nominates_nothing)
    (simp add: forward_request_headers_def request_policy.copy_get_all
      request_policy.hop_by_hop_stripped hop_by_hop_names_def)

section \<open>Properties\<close>

text \<open>
  (C14) What goes upstream: of every header name either all values in their order or none. The
  stripped names are exactly those the caller's \<open>Connection\<close> headers nominate, the hop-by-hop names,
  \<open>Host\<close>, \<open>Cookie\<close>, \<open>Forwarded\<close>, \<open>Via\<close>, \<open>X-Real-IP\<close> and everything that starts with \<open>X-Meter-\<close>
  or \<open>X-Forwarded-\<close>; in particular no meter key. The order across names is kept too.
\<close>

theorem request_headers_forwarded:
  "let out = forward_request_headers H hs; N = connection_nominated_headers H hs in
     subseq out hs \<and>
     (\<forall>n. get_all out n =
        (if n \<in> N \<or> n \<in> set hop_by_hop_names \<or>
            n \<in> {''host'', ''cookie'', ''forwarded'', ''via'', ''x-real-ip''} \<or>
            prefix ''x-meter-'' n \<or> prefix ''x-forwarded-'' n
         then [] else get_all hs n)) \<and>
     get_all out ''x-meter-key'' = []"
proof -
  have "prefix ''x-meter-'' ''x-meter-key''" by simp
  then show ?thesis
    by (simp add: forward_request_headers_def Let_def request_policy.copy_subseq
        request_policy.copy_get_all request_header_is_stripped_def hop_by_hop_is_stripped_def
        starts_with_iff)
qed

text \<open>
  (C31) What goes back to the caller: only the hop-by-hop names and the names the upstream's own
  \<open>Connection\<close> headers nominate are removed; every other response header is kept with all its
  values in their order, also those the request policy would remove.
\<close>

theorem response_headers_returned:
  "let out = filtered_response_headers H hs; N = connection_nominated_headers H hs in
     subseq out hs \<and>
     (\<forall>n. get_all out n =
        (if n \<in> N \<or> n \<in> set hop_by_hop_names then [] else get_all hs n))"
  by (simp add: filtered_response_headers_def Let_def response_policy.copy_subseq
      response_policy.copy_get_all response_header_is_stripped_def hop_by_hop_is_stripped_def)

text \<open>
  The request policy is stable: a second gateway behind the first one would forward exactly
  the same headers, so nothing survives one hop that a further hop would remove.
\<close>

lemma request_policy_stable:
  "forward_request_headers H (forward_request_headers H hs) = forward_request_headers H hs"
  using request_policy.copy_idem [of "connection_nominated_headers H hs" hs]
    request_nominates_nothing [of H hs]
  by (simp add: forward_request_headers_def)

end
