(* ===== verification/Token_Accounting.thy ===== *)
theory Token_Accounting
  imports Libraries
begin

text \<open>
  Token accounting of \<^verbatim>\<open>src/src/usage.rs\<close>: reading the raw counters of an upstream \<open>usage\<close> object
  (\<open>extract_raw_usage\<close>) and the canonical accounting basis (\<open>canonicalize\<close>),
  \<open>input_total = uncached + cache_read + cache_write\<close>, at 64 bits with no wrap-around.
\<close>

section \<open>Raw counters\<close>

record RawUsage =
  raw_input_total :: "u64 option"
  raw_cache_read :: "u64 option"
  raw_cache_write :: "u64 option"
  raw_output_total :: "u64 option"
  raw_reasoning :: "u64 option"
  raw_total :: "u64 option"

text \<open>\<open>Option::or_else\<close>.\<close>

definition or_else :: "'a option \<Rightarrow> 'a option \<Rightarrow> 'a option" where
  "or_else a b = (case a of Some x \<Rightarrow> Some x | None \<Rightarrow> b)"

lemma or_else_simps [simp]:
  "or_else None b = b" "or_else (Some x) b = Some x" "or_else a None = a"
  by (simp_all add: or_else_def split: option.splits)

lemma or_else_assoc: "or_else (or_else a b) c = or_else a (or_else b c)"
  by (simp add: or_else_def split: option.splits)

lemma or_else_None_iff [simp]: "or_else a b = None \<longleftrightarrow> a = None \<and> b = None"
  by (simp add: or_else_def split: option.splits)

lemma or_else_SomeD: "or_else a b = Some x \<Longrightarrow> a = Some x \<or> a = None \<and> b = Some x"
  by (simp add: or_else_def split: option.splits)

text \<open>The closure \<open>nested\<close>: walk a path of keys, then read the value as \<open>u64\<close>.\<close>

fun nested :: "'v json_lib \<Rightarrow> 'v \<Rightarrow> string list \<Rightarrow> u64 option" where
  "nested J cur [] = json_as_u64 J cur"
| "nested J cur (k # path) =
     (case json_get J cur k of None \<Rightarrow> None | Some v \<Rightarrow> nested J v path)"

definition u64_at :: "'v json_lib \<Rightarrow> 'v \<Rightarrow> string \<Rightarrow> u64 option" where
  "u64_at J v k = Option.bind (json_get J v k) (json_as_u64 J)"

lemma nested_single [simp]: "nested J v [k] = u64_at J v k"
  by (simp add: u64_at_def split: option.splits)

declare nested.simps [simp del]

definition extract_raw_usage :: "'v json_lib \<Rightarrow> 'v \<Rightarrow> RawUsage" where
  "extract_raw_usage J v =
     \<lparr>raw_input_total =
        Option.bind (or_else (json_get J v ''input_tokens'') (json_get J v ''prompt_tokens''))
          (json_as_u64 J),
      raw_cache_read =
        or_else (or_else (nested J v [''input_tokens_details'', ''cached_tokens''])
                         (u64_at J v ''prompt_cache_hit_tokens''))
                (u64_at J v ''cache_read_input_tokens''),
      raw_cache_write =
        or_else (or_else (or_else (or_else
          (nested J v [''input_tokens_details'', ''cache_write_tokens''])
          (u64_at J v ''cache_write_input_tokens''))
          (u64_at J v ''cache_write_tokens''))
          (u64_at J v ''cache_creation_input_tokens''))
          (nested J v [''prompt_tokens_details'', ''cache_write_tokens'']),
      raw_output_total =
        Option.bind (or_else (json_get J v ''output_tokens'') (json_get J v ''completion_tokens''))
          (json_as_u64 J),
      raw_reasoning =
        or_else (or_else (nested J v [''output_tokens_details'', ''reasoning_tokens''])
                         (nested J v [''completion_tokens_details'', ''reasoning_tokens'']))
                (u64_at J v ''reasoning_tokens''),
      raw_total = u64_at J v ''total_tokens''\<rparr>"

text \<open>
  The paths below the \<open>usage\<close> object each counter may be read from, most preferred first. They
  state what the extraction may read, independently of how it chains the alternatives.
\<close>

definition input_total_paths :: "string list list" where
  "input_total_paths = [[''input_tokens''], [''prompt_tokens'']]"

definition cache_read_paths :: "string list list" where
  "cache_read_paths = [[''input_tokens_details'', ''cached_tokens''],
     [''prompt_cache_hit_tokens''], [''cache_read_input_tokens'']]"

definition cache_write_paths :: "string list list" where
  "cache_write_paths = [[''input_tokens_details'', ''cache_write_tokens''],
     [''cache_write_input_tokens''], [''cache_write_tokens''], [''cache_creation_input_tokens''],
     [''prompt_tokens_details'', ''cache_write_tokens'']]"

definition output_total_paths :: "string list list" where
  "output_total_paths = [[''output_tokens''], [''completion_tokens'']]"

definition reasoning_paths :: "string list list" where
  "reasoning_paths = [[''output_tokens_details'', ''reasoning_tokens''],
     [''completion_tokens_details'', ''reasoning_tokens''], [''reasoning_tokens'']]"

text \<open>The first path of a list that holds a \<open>u64\<close>.\<close>

fun first_u64 :: "'v json_lib \<Rightarrow> 'v \<Rightarrow> string list list \<Rightarrow> u64 option" where
  "first_u64 J v [] = None"
| "first_u64 J v (p # ps) = or_else (nested J v p) (first_u64 J v ps)"

lemma first_u64_SomeD: "first_u64 J v ps = Some n \<Longrightarrow> \<exists>p \<in> set ps. nested J v p = Some n"
  by (induction ps) (auto dest: or_else_SomeD)

lemma first_u64_None_iff: "first_u64 J v ps = None \<longleftrightarrow> (\<forall>p \<in> set ps. nested J v p = None)"
  by (induction ps) auto

lemma extract_details_first_u64:
  "raw_cache_read (extract_raw_usage J v) = first_u64 J v cache_read_paths"
  "raw_cache_write (extract_raw_usage J v) = first_u64 J v cache_write_paths"
  "raw_reasoning (extract_raw_usage J v) = first_u64 J v reasoning_paths"
  "raw_total (extract_raw_usage J v) = first_u64 J v [[''total_tokens'']]"
  by (simp_all add: extract_raw_usage_def cache_read_paths_def cache_write_paths_def
      reasoning_paths_def or_else_assoc)

lemma extract_totals_first_u64:
  "raw_input_total (extract_raw_usage J v) =
     (if json_get J v ''input_tokens'' = None then u64_at J v ''prompt_tokens''
      else u64_at J v ''input_tokens'')"
  "raw_output_total (extract_raw_usage J v) =
     (if json_get J v ''output_tokens'' = None then u64_at J v ''completion_tokens''
      else u64_at J v ''output_tokens'')"
  by (auto simp: extract_raw_usage_def u64_at_def or_else_def split: option.splits)

section \<open>The canonical basis\<close>

definition canonicalize :: "RawUsage \<Rightarrow> Usage \<times> AccountingQuality" where
  "canonicalize raw =
     (let (unc, quality) =
        (case (raw_input_total raw, raw_cache_read raw, raw_cache_write raw) of
           (Some inp, Some rd, Some wr) \<Rightarrow>
             (case Option.bind (checked_add rd wr) (\<lambda>sum. checked_sub inp sum) of
                Some u \<Rightarrow> (Some u, Complete)
              | None \<Rightarrow> (None, Inconsistent))
         | _ \<Rightarrow> (None, Partial))
      in (\<lparr>input_total = raw_input_total raw, uncached = unc,
           cache_read = raw_cache_read raw, cache_write = raw_cache_write raw,
           output_total = raw_output_total raw, reasoning = raw_reasoning raw,
           total = raw_total raw\<rparr>, quality))"

lemma canonicalize_copies:
  "input_total (fst (canonicalize raw)) = raw_input_total raw"
  "cache_read (fst (canonicalize raw)) = raw_cache_read raw"
  "cache_write (fst (canonicalize raw)) = raw_cache_write raw"
  "output_total (fst (canonicalize raw)) = raw_output_total raw"
  "reasoning (fst (canonicalize raw)) = raw_reasoning raw"
  "total (fst (canonicalize raw)) = raw_total raw"
  by (simp_all add: canonicalize_def Let_def split: prod.splits)

lemma canonicalize_all_present:
  assumes "raw_input_total raw = Some i" "raw_cache_read raw = Some r" "raw_cache_write raw = Some w"
  shows "unat r + unat w \<le> unat i \<Longrightarrow>
      \<exists>u. uncached (fst (canonicalize raw)) = Some u \<and> snd (canonicalize raw) = Complete \<and>
          unat i = unat u + unat r + unat w"
    and "unat i < unat r + unat w \<Longrightarrow>
      uncached (fst (canonicalize raw)) = None \<and> snd (canonicalize raw) = Inconsistent"
proof -
  assume le: "unat r + unat w \<le> unat i"
  then have "unat r + unat w < 2 ^ 64" using unat_u64_less [of i] by linarith
  then obtain s where s: "checked_add r w = Some s" and us: "unat s = unat r + unat w"
    by (metis checked_add_def checked_add_Some_iff)
  from le us obtain u where u: "checked_sub i s = Some u"
    by (metis checked_sub_None_iff not_None_eq not_less)
  then have "unat i = unat u + unat s" by (simp add: checked_sub_Some_iff)
  with s u us assms show "\<exists>u. uncached (fst (canonicalize raw)) = Some u \<and>
      snd (canonicalize raw) = Complete \<and> unat i = unat u + unat r + unat w"
    by (simp add: canonicalize_def)
next
  assume less: "unat i < unat r + unat w"
  have "Option.bind (checked_add r w) (\<lambda>sum. checked_sub i sum) = None"
    using less by (auto simp: checked_add_def checked_sub_def unat_add_u64)
  with assms show "uncached (fst (canonicalize raw)) = None \<and> snd (canonicalize raw) = Inconsistent"
    by (simp add: canonicalize_def)
qed

lemma canonicalize_missing:
  assumes "raw_input_total raw = None \<or> raw_cache_read raw = None \<or> raw_cache_write raw = None"
  shows "uncached (fst (canonicalize raw)) = None \<and> snd (canonicalize raw) = Partial"
  using assms by (auto simp: canonicalize_def split: option.splits)

lemma canonicalize_quality_ne [simp]: "snd (canonicalize raw) \<noteq> Unavailable"
  by (auto simp: canonicalize_def Let_def split: option.splits prod.splits)

lemma canonicalize_uncached_iff:
  "uncached (fst (canonicalize raw)) \<noteq> None \<longleftrightarrow> snd (canonicalize raw) = Complete"
  by (auto simp: canonicalize_def Let_def split: option.splits prod.splits)

section \<open>Properties\<close>

text \<open>
  The accounting basis of a usage value, over the naturals so that no overflow can hide: either
  the three input details are there and add up with a non-negative rest, or \<open>uncached\<close> is null.
\<close>

definition accounted :: "Usage \<Rightarrow> AccountingQuality \<Rightarrow> bool" where
  "accounted u q \<longleftrightarrow>
     (case q of
        Complete \<Rightarrow> (\<exists>i unc r w. input_total u = Some i \<and> uncached u = Some unc \<and>
            cache_read u = Some r \<and> cache_write u = Some w \<and>
            unat i = unat unc + unat r + unat w)
      | Inconsistent \<Rightarrow> (\<exists>i r w. input_total u = Some i \<and> cache_read u = Some r \<and>
            cache_write u = Some w \<and> unat i < unat r + unat w) \<and> uncached u = None
      | Partial \<Rightarrow> (input_total u = None \<or> cache_read u = None \<or> cache_write u = None) \<and>
            uncached u = None
      | Unavailable \<Rightarrow> False)"

lemma canonicalize_accounted: "canonicalize raw = (u, q) \<Longrightarrow> accounted u q"
proof -
  assume eq: "canonicalize raw = (u, q)"
  show ?thesis
  proof (cases "raw_input_total raw = None \<or> raw_cache_read raw = None \<or> raw_cache_write raw = None")
    case True
    then show ?thesis
      using canonicalize_missing [OF True] canonicalize_copies [of raw] eq
      by (auto simp: accounted_def)
  next
    case False
    then obtain i r w where irw: "raw_input_total raw = Some i" "raw_cache_read raw = Some r"
      "raw_cache_write raw = Some w" by auto
    show ?thesis
      using canonicalize_all_present [OF irw] canonicalize_copies [of raw] eq irw
      by (cases "unat r + unat w \<le> unat i") (auto simp: accounted_def not_le)
  qed
qed

text \<open>
  (C5) The canonical counters: every counter but \<open>uncached\<close> is the upstream value unchanged, and
  quality and \<open>uncached\<close> are decided by the exact (unbounded) sum of the input details. Complete
  means \<open>input_total = uncached + cache_read + cache_write\<close>, inconsistent means the details exceed
  the total, partial means a detail is missing; nothing wraps at 64 bits.
\<close>

theorem canonicalize_sound:
  "let (u, q) = canonicalize raw in
     accounted u q \<and>
     input_total u = raw_input_total raw \<and> cache_read u = raw_cache_read raw \<and>
     cache_write u = raw_cache_write raw \<and> output_total u = raw_output_total raw \<and>
     reasoning u = raw_reasoning raw \<and> total u = raw_total raw"
  using canonicalize_accounted [of raw] canonicalize_copies [of raw]
  by (auto split: prod.splits)

end
