(* ===== verification/Mirror_Observer.thy ===== *)
theory Mirror_Observer
  imports Prelude
begin

text \<open>
  The contract both body observers of \<^verbatim>\<open>src/src/usage.rs\<close> share (\<open>RequestEffort\<close> on request bodies,
  \<open>StreamUsageParser\<close> on response bodies): chunks are appended to a private mirror, the mirror is
  parsed once when the lifecycle ends, and afterwards nothing changes the extracted result. The
  clients of the contract never see how a body was cut into chunks.
\<close>

locale mirror_observer =
  fixes mirror_of :: "'s \<Rightarrow> bytes"
    and observe :: "'s \<Rightarrow> bytes \<Rightarrow> 's"
    and finalize :: "'s \<Rightarrow> 's"
    and finalized :: "'s \<Rightarrow> bool"
    and result :: "'s \<Rightarrow> 'r"
    and parse_of :: "'s \<Rightarrow> bytes \<Rightarrow> 'r"
  assumes observe_mirror: "\<not> finalized s \<Longrightarrow> mirror_of (observe s c) = mirror_of s @ c"
    and observe_finalized: "finalized (observe s c) = finalized s"
    and observe_extract: "parse_of (observe s c) = parse_of s"
    and observe_result: "finalized s \<Longrightarrow> result (observe s c) = result s"
    and finalize_finalized: "finalized (finalize s)"
    and finalize_result: "\<not> finalized s \<Longrightarrow> result (finalize s) = parse_of s (mirror_of s)"
    and finalize_noop: "finalized s \<Longrightarrow> finalize s = s"
begin

lemma finalize_idem: "finalize (finalize s) = finalize s"
  by (simp add: finalize_noop finalize_finalized)

lemma observe_all_finalized: "finalized (foldl observe s cs) = finalized s"
  by (induction cs arbitrary: s) (simp_all add: observe_finalized)

lemma observe_all_mirror: "\<not> finalized s \<Longrightarrow> mirror_of (foldl observe s cs) = mirror_of s @ concat cs"
  by (induction cs arbitrary: s) (simp_all add: observe_finalized observe_mirror)

lemma observe_all_extract: "parse_of (foldl observe s cs) = parse_of s"
  by (induction cs arbitrary: s) (simp_all add: observe_extract)

lemma observe_all_result: "finalized s \<Longrightarrow> result (foldl observe s cs) = result s"
  by (induction cs arbitrary: s) (simp_all add: observe_finalized observe_result)

lemma result_after:
  "\<not> finalized s \<Longrightarrow> result (finalize (foldl observe s cs)) = parse_of s (mirror_of s @ concat cs)"
  by (simp add: finalize_result observe_all_finalized observe_all_mirror observe_all_extract)

lemma chunking_irrelevant:
  assumes "\<not> finalized s" and "concat cs = concat ds"
  shows "result (finalize (foldl observe s cs)) = result (finalize (foldl observe s ds))"
  using assms by (simp add: result_after)

lemma late_chunks_ignored:
  "result (finalize (foldl observe (finalize s) cs)) = result (finalize s)"
  by (simp add: finalize_noop observe_all_finalized finalize_finalized observe_all_result)

end

end
