(* ===== verification/Metering.thy ===== *)
theory Metering
  imports Token_Accounting Mirror_Observer
begin

text \<open>
  The response-body observer of \<^verbatim>\<open>src/src/usage.rs\<close>: framing of the mirror as server-sent events,
  the scan for a terminal event (\<open>parse_mirror\<close>), the fallback to one JSON document
  (\<open>parse_json_body\<close>), and the observer object \<open>StreamUsageParser\<close>. The for-loop of
  \<open>parse_mirror\<close> is a fold of its body over the events, and \<open>parse_spec\<close> states what the loop is
  meant to compute: the facts of the last terminal event that carries each of them.
\<close>

section \<open>Results\<close>

record AuditResult =
  res_model :: "string option"
  res_usage :: "Usage option"
  res_quality :: AccountingQuality
  res_metering_error :: "MeteringError option"

definition AuditResult_default :: AuditResult where
  "AuditResult_default =
     \<lparr>res_model = None, res_usage = None, res_quality = Unavailable, res_metering_error = None\<rparr>"

record ParsedBody =
  pb_audit :: AuditResult
  pb_terminal_seen :: bool
  pb_incomplete :: bool

definition effective_model :: "string option \<Rightarrow> string option \<Rightarrow> string option" where
  "effective_model header_model body_model =
     (case (header_model, body_model) of
        (Some header, Some body) \<Rightarrow> Some header
      | (Some header, None) \<Rightarrow> Some header
      | (None, body) \<Rightarrow> body)"

lemma effective_model_simps [simp]:
  "effective_model None b = b" "effective_model (Some h) b = Some h"
  by (simp_all add: effective_model_def split: option.splits)

section \<open>Server-sent events\<close>

text \<open>\<open>sse_events\<close>: the data of the events up to the first error of the stream.\<close>

fun collect_ok :: "('e + 'a) list \<Rightarrow> 'a list" where
  "collect_ok [] = []"
| "collect_ok (Inl e # xs) = []"
| "collect_ok (Inr x # xs) = x # collect_ok xs"

definition sse_events :: "sse_lib \<Rightarrow> bytes \<Rightarrow> string list" where
  "sse_events E mirror = collect_ok (E mirror)"

section \<open>The scan for a terminal event\<close>

text \<open>The local variables of \<open>parse_mirror\<close> that its loop changes.\<close>

record scan =
  terminal_seen :: bool
  terminal_incomplete :: bool
  body_model :: "string option"
  scan_usage :: "(Usage \<times> AccountingQuality) option"
  usage_malformed :: bool

definition scan_init :: scan where
  "scan_init = \<lparr>terminal_seen = False, terminal_incomplete = False, body_model = None,
     scan_usage = None, usage_malformed = False\<rparr>"

text \<open>The part of the loop body that reads the \<open>response\<close> object.\<close>

definition scan_response :: "'v json_lib \<Rightarrow> scan \<Rightarrow> (string \<times> 'v) list \<Rightarrow> scan" where
  "scan_response J st response =
     (let st1 = (case Option.bind (map_of response ''model'') (json_as_str J) of
                   Some m \<Rightarrow> st\<lparr>body_model := Some m\<rparr>
                 | None \<Rightarrow> st)
      in case map_of response ''usage'' of
           None \<Rightarrow> st1
         | Some u \<Rightarrow>
             if json_is_null J u then st1
             else if json_is_object J u
             then st1\<lparr>scan_usage := Some (canonicalize (extract_raw_usage J u))\<rparr>
             else st1\<lparr>usage_malformed := True\<rparr>)"

text \<open>One iteration of the loop over the events; each \<open>continue\<close> returns the variables as they are.\<close>

definition scan_event :: "'v json_lib \<Rightarrow> scan \<Rightarrow> string \<Rightarrow> scan" where
  "scan_event J st data =
     (case json_from_str J data of
        None \<Rightarrow> st
      | Some v \<Rightarrow>
          (case Option.bind (json_get J v ''type'') (json_as_str J) of
             None \<Rightarrow> st
           | Some k \<Rightarrow>
               if k \<noteq> ''response.completed'' \<and> k \<noteq> ''response.incomplete'' then st
               else let st1 = st\<lparr>terminal_seen := True\<rparr>;
                        st2 = (if k = ''response.incomplete''
                               then st1\<lparr>terminal_incomplete := True\<rparr> else st1)
                    in case Option.bind (json_get J v ''response'') (json_as_object J) of
                         None \<Rightarrow> st2
                       | Some response \<Rightarrow> scan_response J st2 response))"

section \<open>One complete JSON document\<close>

definition parse_json_body ::
  "'v json_lib \<Rightarrow> bytes \<Rightarrow> string option \<Rightarrow> AuditResult \<times> bool" where
  "parse_json_body J mirror header_model =
     (let missing = AuditResult_default
            \<lparr>res_quality := Unavailable, res_metering_error := Some MissingUsage\<rparr>
      in case json_from_slice J mirror of
           None \<Rightarrow> (missing, False)
         | Some root_value \<Rightarrow>
             (case json_as_object J root_value of
                None \<Rightarrow> (missing, False)
              | Some root \<Rightarrow>
                  let incompl = (Option.bind (map_of root ''status'') (json_as_str J)
                                   = Some ''incomplete'');
                      body_mod = Option.bind (map_of root ''model'') (json_as_str J);
                      mdl = effective_model header_model body_mod;
                      absent = AuditResult_default
                        \<lparr>res_model := mdl, res_quality := Unavailable,
                         res_metering_error := Some MissingUsage\<rparr>;
                      audit = (case map_of root ''usage'' of
                          None \<Rightarrow> absent
                        | Some u \<Rightarrow>
                            if json_is_null J u then absent
                            else if json_is_object J u
                            then (let (us, quality) = canonicalize (extract_raw_usage J u)
                                  in \<lparr>res_model = mdl, res_usage = Some us,
                                      res_quality = quality, res_metering_error = None\<rparr>)
                            else AuditResult_default
                              \<lparr>res_model := mdl, res_quality := Unavailable,
                               res_metering_error := Some MalformedUsage\<rparr>)
                  in (audit, incompl)))"

definition parse_mirror ::
  "'v json_lib \<Rightarrow> sse_lib \<Rightarrow> bytes \<Rightarrow> string option \<Rightarrow> ParsedBody" where
  "parse_mirror J E mirror header_model =
     (let events = sse_events E mirror;
          st = foldl (scan_event J) scan_init events
      in if terminal_seen st then
           \<lparr>pb_audit =
              \<lparr>res_model = effective_model header_model (body_model st),
               res_usage = map_option fst (scan_usage st),
               res_quality = (case scan_usage st of Some (_, q) \<Rightarrow> q | None \<Rightarrow> Unavailable),
               res_metering_error =
                 (case scan_usage st of
                    Some _ \<Rightarrow> None
                  | None \<Rightarrow> if usage_malformed st then Some MalformedUsage
                            else Some MissingUsage)\<rparr>,
            pb_terminal_seen = True,
            pb_incomplete = terminal_incomplete st\<rparr>
         else if events \<noteq> [] then
           \<lparr>pb_audit = AuditResult_default
              \<lparr>res_model := header_model, res_quality := Unavailable,
               res_metering_error := Some MissingUsage\<rparr>,
            pb_terminal_seen = False,
            pb_incomplete = False\<rparr>
         else
           (let (audit, incompl) = parse_json_body J mirror header_model
            in \<lparr>pb_audit = audit, pb_terminal_seen = True, pb_incomplete = incompl\<rparr>))"

section \<open>The observer object\<close>

record StreamUsageParser =
  sp_header_model :: "string option"
  sp_mirror :: bytes
  sp_parsed :: "ParsedBody option"

definition StreamUsageParser_new :: "string option \<Rightarrow> StreamUsageParser" where
  "StreamUsageParser_new header_model =
     \<lparr>sp_header_model = header_model, sp_mirror = [], sp_parsed = None\<rparr>"

definition push :: "StreamUsageParser \<Rightarrow> bytes \<Rightarrow> StreamUsageParser" where
  "push p chunk = p\<lparr>sp_mirror := sp_mirror p @ chunk\<rparr>"

definition finalize :: "'v json_lib \<Rightarrow> sse_lib \<Rightarrow> StreamUsageParser \<Rightarrow> StreamUsageParser" where
  "finalize J E p =
     (if sp_parsed p = None
      then p\<lparr>sp_parsed := Some (parse_mirror J E (sp_mirror p) (sp_header_model p))\<rparr>
      else p)"

definition parser_incomplete :: "StreamUsageParser \<Rightarrow> bool" where
  "parser_incomplete p = (case sp_parsed p of None \<Rightarrow> False | Some b \<Rightarrow> pb_incomplete b)"

definition parser_terminal_seen :: "StreamUsageParser \<Rightarrow> bool" where
  "parser_terminal_seen p = (case sp_parsed p of None \<Rightarrow> False | Some b \<Rightarrow> pb_terminal_seen b)"

definition parser_finish :: "StreamUsageParser \<Rightarrow> AuditResult" where
  "parser_finish p = (case sp_parsed p of None \<Rightarrow> AuditResult_default | Some b \<Rightarrow> pb_audit b)"

interpretation body_obs: mirror_observer
  sp_mirror push "finalize J E" "\<lambda>p. sp_parsed p \<noteq> None" sp_parsed
  "\<lambda>p bs. Some (parse_mirror J E bs (sp_header_model p))"
  for J :: "'v json_lib" and E
  by unfold_locales (auto simp: push_def finalize_def)

lemma parsed_after:
  "sp_parsed (finalize J E (foldl push (StreamUsageParser_new h) chunks)) =
     Some (parse_mirror J E (concat chunks) h)"
  using body_obs.result_after [of "StreamUsageParser_new h" J E chunks]
  by (simp add: StreamUsageParser_new_def)

section \<open>What the scan computes\<close>

text \<open>A terminal event: whether it is \<open>response.incomplete\<close>, and its \<open>response\<close> object if it has one.\<close>

definition terminal_event ::
  "'v json_lib \<Rightarrow> string \<Rightarrow> (bool \<times> (string \<times> 'v) list option) option" where
  "terminal_event J data =
     (case json_from_str J data of
        None \<Rightarrow> None
      | Some v \<Rightarrow>
          let k = Option.bind (json_get J v ''type'') (json_as_str J);
              resp = Option.bind (json_get J v ''response'') (json_as_object J)
          in if k = Some ''response.completed'' then Some (False, resp)
             else if k = Some ''response.incomplete'' then Some (True, resp)
             else None)"

definition event_model ::
  "'v json_lib \<Rightarrow> bool \<times> (string \<times> 'v) list option \<Rightarrow> string option" where
  "event_model J t =
     Option.bind (snd t) (\<lambda>r. Option.bind (map_of r ''model'') (json_as_str J))"

definition event_usage ::
  "'v json_lib \<Rightarrow> bool \<times> (string \<times> 'v) list option \<Rightarrow> (Usage \<times> AccountingQuality) option" where
  "event_usage J t =
     Option.bind (snd t) (\<lambda>r. Option.bind (map_of r ''usage'') (\<lambda>u.
       if \<not> json_is_null J u \<and> json_is_object J u
       then Some (canonicalize (extract_raw_usage J u)) else None))"

definition event_malformed :: "'v json_lib \<Rightarrow> bool \<times> (string \<times> 'v) list option \<Rightarrow> bool" where
  "event_malformed J t =
     (case Option.bind (snd t) (\<lambda>r. map_of r ''usage'') of
        None \<Rightarrow> False
      | Some u \<Rightarrow> \<not> json_is_null J u \<and> \<not> json_is_object J u)"

text \<open>The last value a partial reading finds in a list.\<close>

definition last_some :: "('a \<Rightarrow> 'b option) \<Rightarrow> 'a list \<Rightarrow> 'b option" where
  "last_some f xs = (let ys = List.map_filter f xs in if ys = [] then None else Some (last ys))"

lemma last_some_simps [simp]:
  "last_some f [] = None"
  "last_some f (xs @ [x]) = or_else (f x) (last_some f xs)"
  by (auto simp: last_some_def List.map_filter_def or_else_def split: option.splits)

lemma last_some_SomeD: "last_some f xs = Some y \<Longrightarrow> \<exists>x \<in> set xs. f x = Some y"
  by (induction xs rule: rev_induct) (auto dest!: or_else_SomeD)

definition scan_spec :: "'v json_lib \<Rightarrow> string list \<Rightarrow> scan" where
  "scan_spec J events =
     (let ts = List.map_filter (terminal_event J) events in
      \<lparr>terminal_seen = (ts \<noteq> []), terminal_incomplete = (\<exists>t \<in> set ts. fst t),
       body_model = last_some (event_model J) ts, scan_usage = last_some (event_usage J) ts,
       usage_malformed = (\<exists>t \<in> set ts. event_malformed J t)\<rparr>)"

text \<open>One iteration in terms of the reading \<open>terminal_event\<close>.\<close>

definition scan_terminal ::
  "'v json_lib \<Rightarrow> bool \<times> (string \<times> 'v) list option \<Rightarrow> scan \<Rightarrow> scan" where
  "scan_terminal J t st =
     \<lparr>terminal_seen = True, terminal_incomplete = (fst t \<or> terminal_incomplete st),
      body_model = or_else (event_model J t) (body_model st),
      scan_usage = or_else (event_usage J t) (scan_usage st),
      usage_malformed = (event_malformed J t \<or> usage_malformed st)\<rparr>"

lemma scan_event_eq:
  "scan_event J st data =
     (case terminal_event J data of None \<Rightarrow> st | Some t \<Rightarrow> scan_terminal J t st)"
  by (auto simp: scan_event_def terminal_event_def Let_def scan_response_def scan_terminal_def
      event_model_def event_usage_def event_malformed_def split: option.splits)

lemma scan_fold_spec: "foldl (scan_event J) scan_init events = scan_spec J events"
proof (induction events rule: rev_induct)
  case Nil
  show ?case by (simp add: scan_spec_def scan_init_def)
next
  case (snoc d events)
  then show ?case
    by (auto simp: scan_event_eq scan_spec_def scan_terminal_def Let_def map_filter_append
        split: option.splits)
qed

text \<open>
  The facts recorded for a body whose terminal readings are \<open>ts\<close>: the last reading that has a
  model gives the body model, the last one with a usage object gives the usage.
\<close>

definition facts_of ::
  "'v json_lib \<Rightarrow> string option \<Rightarrow> (bool \<times> (string \<times> 'v) list option) list \<Rightarrow> AuditResult" where
  "facts_of J header_model ts =
     (let us = last_some (event_usage J) ts in
      \<lparr>res_model = effective_model header_model (last_some (event_model J) ts),
       res_usage = map_option fst us,
       res_quality = (case us of None \<Rightarrow> Unavailable | Some uq \<Rightarrow> snd uq),
       res_metering_error =
         (if us \<noteq> None then None
          else if \<exists>t \<in> set ts. event_malformed J t then Some MalformedUsage
          else Some MissingUsage)\<rparr>)"

text \<open>
  The specification of \<open>parse_mirror\<close>. A body that frames no event is one JSON document, read as a
  single terminal reading; a body with events but no terminal one never completed.
\<close>

definition parse_spec ::
  "'v json_lib \<Rightarrow> sse_lib \<Rightarrow> bytes \<Rightarrow> string option \<Rightarrow> ParsedBody" where
  "parse_spec J E body header_model =
     (let events = sse_events E body;
          ts = List.map_filter (terminal_event J) events
      in if events = [] then
           (case Option.bind (json_from_slice J body) (json_as_object J) of
              None \<Rightarrow> \<lparr>pb_audit = facts_of J None [], pb_terminal_seen = True, pb_incomplete = False\<rparr>
            | Some root \<Rightarrow>
                let inc = (Option.bind (map_of root ''status'') (json_as_str J) = Some ''incomplete'')
                in \<lparr>pb_audit = facts_of J header_model [(inc, Some root)],
                    pb_terminal_seen = True, pb_incomplete = inc\<rparr>)
         else \<lparr>pb_audit = facts_of J header_model ts, pb_terminal_seen = (ts \<noteq> []),
               pb_incomplete = (\<exists>t \<in> set ts. fst t)\<rparr>)"

lemma last_some_single [simp]: "last_some f [x] = f x"
  by (cases "f x") (simp_all add: last_some_def List.map_filter_def)

lemma facts_of_Nil [simp]:
  "facts_of J h [] = \<lparr>res_model = h, res_usage = None, res_quality = Unavailable,
     res_metering_error = Some MissingUsage\<rparr>"
  by (cases h) (simp_all add: facts_of_def)

lemma parse_json_body_spec:
  "parse_json_body J body h =
     (case Option.bind (json_from_slice J body) (json_as_object J) of
        None \<Rightarrow> (facts_of J None [], False)
      | Some root \<Rightarrow>
          let inc = (Option.bind (map_of root ''status'') (json_as_str J) = Some ''incomplete'')
          in (facts_of J h [(inc, Some root)], inc))"
  by (auto simp: parse_json_body_def facts_of_def AuditResult_default_def event_model_def
      event_usage_def event_malformed_def Let_def split: option.splits prod.splits)

lemma parse_mirror_terminal_case:
  assumes "List.map_filter (terminal_event J) (sse_events E body) = ts" and "ts \<noteq> []"
  shows "parse_mirror J E body h =
    \<lparr>pb_audit = facts_of J h ts, pb_terminal_seen = True, pb_incomplete = (\<exists>t \<in> set ts. fst t)\<rparr>"
  using assms
  by (auto simp: parse_mirror_def scan_fold_spec scan_spec_def facts_of_def Let_def
      split: option.splits)

lemma parse_mirror_eq_spec: "parse_mirror J E body h = parse_spec J E body h"
proof (cases "List.map_filter (terminal_event J) (sse_events E body) = []")
  case True
  then have "\<not> terminal_seen (foldl (scan_event J) scan_init (sse_events E body))"
    by (simp add: scan_fold_spec scan_spec_def)
  with True show ?thesis
    by (auto simp: parse_mirror_def parse_spec_def parse_json_body_spec AuditResult_default_def Let_def
        split: option.splits)
next
  case False
  then have "sse_events E body \<noteq> []" by (auto simp: List.map_filter_def)
  with False show ?thesis
    by (simp add: parse_mirror_terminal_case [OF refl False] parse_spec_def Let_def)
qed

section \<open>The invariant of extraction results\<close>

text \<open>
  What every recorded result keeps: usage is there exactly when no metering error is, the quality is
  \<open>unavailable\<close> exactly when usage is missing, recorded counters satisfy the accounting basis, and
  the legacy error \<open>event_too_large\<close> is never produced.
\<close>

definition result_ok :: "AuditResult \<Rightarrow> bool" where
  "result_ok a \<longleftrightarrow>
     (res_usage a = None \<longleftrightarrow> res_metering_error a \<noteq> None) \<and>
     (res_usage a = None \<longleftrightarrow> res_quality a = Unavailable) \<and>
     res_metering_error a \<noteq> Some EventTooLarge \<and>
     (\<forall>u. res_usage a = Some u \<longrightarrow> accounted u (res_quality a))"

lemma event_usage_accounted: "event_usage J t = Some (u, q) \<Longrightarrow> accounted u q \<and> q \<noteq> Unavailable"
  by (auto simp: event_usage_def bind_eq_Some_conv split: if_splits dest: canonicalize_accounted)
    (metis canonicalize_quality_ne snd_conv)

lemma facts_of_ok: "result_ok (facts_of J h ts)"
proof (cases "last_some (event_usage J) ts")
  case None
  then show ?thesis by (simp add: result_ok_def facts_of_def)
next
  case (Some uq)
  then obtain t where "event_usage J t = Some uq" by (blast dest: last_some_SomeD)
  then have "accounted (fst uq) (snd uq) \<and> snd uq \<noteq> Unavailable"
    by (cases uq) (simp add: event_usage_accounted)
  with Some show ?thesis by (simp add: result_ok_def facts_of_def)
qed

lemma parse_mirror_ok: "result_ok (pb_audit (parse_mirror J E body h))"
  by (auto simp: parse_mirror_eq_spec parse_spec_def facts_of_ok Let_def simp del: facts_of_Nil
      split: option.splits)

section \<open>Properties\<close>

text \<open>
  (C6) The event loop of \<open>parse_mirror\<close> computes its specification: the body is one JSON document
  when no event is framed; otherwise it is terminal exactly when some event is, incomplete exactly
  when some terminal event says so, and model and usage come from the last terminal event that has
  them, the \<open>openai-model\<close> header winning over the body.
\<close>

theorem parse_mirror_correct: "parse_mirror J E body header = parse_spec J E body header"
  by (rule parse_mirror_eq_spec)

text \<open>
  (C25) Every extraction result is consistent: usage and metering error exclude each other, quality is
  \<open>unavailable\<close> exactly without usage, recorded counters satisfy the accounting basis, and
  \<open>event_too_large\<close> is never produced.
\<close>

theorem parse_mirror_consistent: "result_ok (pb_audit (parse_mirror J E body header))"
  by (rule parse_mirror_ok)

text \<open>
  The observer sees only the byte sequence: however the body was cut into chunks, finalisation
  yields the parse of the concatenation, and neither a second finalisation nor chunks pushed after
  it change any of the facts read from the observer.
\<close>

lemma parser_sees_only_bytes:
  "let p = finalize J E (foldl push (StreamUsageParser_new header) chunks);
       q = finalize J E (foldl push p late);
       b = parse_mirror J E (concat chunks) header
   in parser_finish p = pb_audit b \<and> parser_terminal_seen p = pb_terminal_seen b \<and>
      parser_incomplete p = pb_incomplete b \<and> parser_finish q = parser_finish p \<and>
      parser_terminal_seen q = parser_terminal_seen p \<and> parser_incomplete q = parser_incomplete p"
proof -
  let ?s = "StreamUsageParser_new header"
  let ?p = "finalize J E (foldl push ?s chunks)"
  have p: "sp_parsed ?p = Some (parse_mirror J E (concat chunks) header)"
    by (rule parsed_after)
  have q: "sp_parsed (finalize J E (foldl push ?p late)) = sp_parsed ?p"
    by (rule body_obs.late_chunks_ignored)
  show ?thesis
    by (simp add: Let_def parser_finish_def parser_terminal_seen_def parser_incomplete_def p q)
qed

text \<open>
  A body that frames no event and is not a JSON object is recorded without any model, although
  the \<open>openai-model\<close> response header named one.
\<close>

lemma header_model_lost:
  assumes "sse_events E body = []"
    and "Option.bind (json_from_slice J body) (json_as_object J) = None"
  shows "res_model (pb_audit (parse_mirror J E body (Some header))) = None"
  using assms by (simp add: parse_mirror_eq_spec parse_spec_def)

lemma header_model_lost_witness:
  "sse_events (\<lambda>_. []) ''<html>'' = [] \<and>
   res_model (pb_audit (parse_mirror
     \<lparr>json_from_slice = \<lambda>_. None :: unit option, json_from_str = \<lambda>_. None, json_get = \<lambda>_ _. None,
      json_as_str = \<lambda>_. None, json_as_u64 = \<lambda>_. None, json_as_object = \<lambda>_. None,
      json_is_object = \<lambda>_. False, json_is_null = \<lambda>_. True\<rparr>
     (\<lambda>_. []) ''<html>'' (Some ''gpt''))) = None"
proof -
  have "sse_events (\<lambda>_. []) ''<html>'' = []" by (simp add: sse_events_def)
  then show ?thesis by (simp add: header_model_lost)
qed

end
