(* ===== verification/Effort.thy ===== *)
theory Effort
  imports Libraries Mirror_Observer
begin

text \<open>
  The request-body observer of \<^verbatim>\<open>src/src/usage.rs\<close>: the content encodings it supports
  (\<open>encoding_kind\<close>), the reading of \<open>reasoning.effort\<close> from the mirrored bytes
  (\<open>declared_effort_from\<close>) and the observer object \<open>RequestEffort\<close>; and the body stream of
  \<^verbatim>\<open>src/src/lib.rs\<close> that feeds it (\<open>RequestMirrorStream\<close>).
\<close>

datatype EncodingKind = Identity | Zstd | Unsupported

text \<open>The lazily read tokens of the header value.\<close>

definition encoding_tokens :: "string \<Rightarrow> string list" where
  "encoding_tokens v =
     filter (\<lambda>t. t \<noteq> []) (map (\<lambda>t. to_ascii_lowercase (trim t)) (split_on (CHR '','') v))"

definition encoding_kind :: "string option \<Rightarrow> EncodingKind" where
  "encoding_kind enc =
     (case enc of
        None \<Rightarrow> Identity
      | Some v \<Rightarrow>
          (case encoding_tokens v of
             [] \<Rightarrow> Identity
           | [t] \<Rightarrow> if t = ''identity'' then Identity
                    else if t = ''zstd'' then Zstd else Unsupported
           | _ \<Rightarrow> Unsupported))"

definition declared_effort_from :: "'d effort_lib \<Rightarrow> bytes \<Rightarrow> string option \<Rightarrow> string option" where
  "declared_effort_from D raw enc =
     (let declared =
        (case encoding_kind enc of
           Identity \<Rightarrow> effort_from_slice D raw
         | Zstd \<Rightarrow> Option.bind (zstd_decoder_new D raw) (effort_from_reader D)
         | Unsupported \<Rightarrow> None)
      in Option.bind declared (\<lambda>d. Option.bind (declared_reasoning d) declared_effort))"

record RequestEffort =
  re_encoding :: "string option"
  re_mirror :: bytes
  re_effort :: "string option"
  re_parsed :: bool

definition RequestEffort_new :: "string option \<Rightarrow> RequestEffort" where
  "RequestEffort_new enc = \<lparr>re_encoding = enc, re_mirror = [], re_effort = None, re_parsed = False\<rparr>"

definition observe :: "RequestEffort \<Rightarrow> bytes \<Rightarrow> RequestEffort" where
  "observe e chunk = (if re_parsed e then e else e\<lparr>re_mirror := re_mirror e @ chunk\<rparr>)"

definition finish :: "'d effort_lib \<Rightarrow> RequestEffort \<Rightarrow> RequestEffort" where
  "finish D e =
     (if re_parsed e then e
      else e\<lparr>re_parsed := True, re_mirror := [],
             re_effort := declared_effort_from D (re_mirror e) (re_encoding e)\<rparr>)"

definition effort :: "RequestEffort \<Rightarrow> string option" where
  "effort e = re_effort e"

interpretation effort_obs: mirror_observer
  re_mirror observe "finish D" re_parsed effort
  "\<lambda>e bs. declared_effort_from D bs (re_encoding e)"
  for D :: "'d effort_lib"
  by unfold_locales (auto simp: observe_def finish_def effort_def)

section \<open>The mirrored request stream\<close>

text \<open>
  \<open>RequestMirrorStream::poll_next\<close>. \<open>inner\<close> is what the wrapped stream answered to the poll; the
  result is the observer (if the path is metered) and what the poll returns.
\<close>

datatype 'e poll = Pending | ReadyNone | ReadyErr 'e | ReadyOk bytes

definition mirror_poll_next ::
  "RequestEffort option \<Rightarrow> 'e poll \<Rightarrow> RequestEffort option \<times> 'e poll" where
  "mirror_poll_next eff inner =
     (case inner of
        ReadyOk bs \<Rightarrow> (map_option (\<lambda>e. observe e bs) eff, ReadyOk bs)
      | ReadyErr err \<Rightarrow> (eff, ReadyErr err)
      | ReadyNone \<Rightarrow> (eff, ReadyNone)
      | Pending \<Rightarrow> (eff, Pending))"

fun mirror_polls ::
  "RequestEffort option \<Rightarrow> 'e poll list \<Rightarrow> RequestEffort option \<times> 'e poll list" where
  "mirror_polls eff [] = (eff, [])"
| "mirror_polls eff (p # ps) =
     (let (eff1, q) = mirror_poll_next eff p; (eff2, qs) = mirror_polls eff1 ps in (eff2, q # qs))"

text \<open>The chunks among the answers of a stream.\<close>

fun ok_chunks :: "'e poll list \<Rightarrow> bytes list" where
  "ok_chunks [] = []"
| "ok_chunks (ReadyOk bs # ps) = bs # ok_chunks ps"
| "ok_chunks (_ # ps) = ok_chunks ps"

lemma mirror_polls_eq:
  "mirror_polls eff ps = (map_option (\<lambda>e. foldl observe e (ok_chunks ps)) eff, ps)"
proof (induction ps arbitrary: eff)
  case Nil
  show ?case by (cases eff) simp_all
next
  case (Cons p ps)
  then show ?case by (cases p; cases eff) (simp_all add: mirror_poll_next_def)
qed

section \<open>Properties\<close>

text \<open>
  (C26) Request mirroring is transparent: whatever the wrapped body stream answers is handed on
  unchanged and in order, and the effort read when the lifecycle ends is the one declared by exactly
  the bytes handed on.
\<close>

theorem request_mirror_transparent:
  "let (eff, polls') = mirror_polls (Some (RequestEffort_new enc)) polls in
     polls' = polls \<and>
     map_option (\<lambda>e. effort (finish D e)) eff =
       Some (declared_effort_from D (concat (ok_chunks polls)) enc)"
  using effort_obs.result_after [of "RequestEffort_new enc" D "ok_chunks polls"]
  by (simp add: mirror_polls_eq RequestEffort_new_def)

text \<open>
  An effort is never guessed: one that is recorded was declared as \<open>reasoning.effort\<close> in the
  decoded body, and the request's encoding was absent, empty, \<open>identity\<close> or \<open>zstd\<close> alone; for any
  other or layered encoding nothing is recorded.
\<close>

lemma effort_declared:
  assumes "declared_effort_from D raw enc = Some e"
  shows "\<exists>d det. (effort_from_slice D raw = Some d \<and> encoding_kind enc = Identity \<or>
            Option.bind (zstd_decoder_new D raw) (effort_from_reader D) = Some d \<and>
              encoding_kind enc = Zstd) \<and>
          declared_reasoning d = Some det \<and> declared_effort det = Some e \<and>
          (case enc of None \<Rightarrow> True
           | Some v \<Rightarrow> encoding_tokens v \<in> {[], [''identity''], [''zstd'']})"
proof -
  have "case enc of None \<Rightarrow> True | Some v \<Rightarrow> encoding_tokens v \<in> {[], [''identity''], [''zstd'']}"
    if "encoding_kind enc \<noteq> Unsupported"
    using that by (auto simp: encoding_kind_def split: option.splits list.splits if_splits)
  then show ?thesis
    using assms
    by (auto simp: declared_effort_from_def Let_def bind_eq_Some_conv split: EncodingKind.splits)
qed

lemma effort_declared_witness:
  "\<exists>d det. (effort_from_slice \<lparr>effort_from_slice = \<lambda>_. Some \<lparr>declared_reasoning = Some \<lparr>declared_effort = Some ''high''\<rparr>\<rparr>,
        zstd_decoder_new = \<lambda>_. None :: unit option, effort_from_reader = \<lambda>_. None\<rparr> ''{}'' = Some d \<and>
        encoding_kind (Some '' Identity '') = Identity) \<and>
      declared_reasoning d = Some det \<and> declared_effort det = Some ''high'' \<and>
      encoding_tokens '' Identity '' \<in> {[], [''identity''], [''zstd'']}"
proof -
  let ?D = "\<lparr>effort_from_slice = \<lambda>_. Some \<lparr>declared_reasoning = Some \<lparr>declared_effort = Some ''high''\<rparr>\<rparr>,
        zstd_decoder_new = \<lambda>_. None :: unit option, effort_from_reader = \<lambda>_. None\<rparr>"
  have k: "encoding_kind (Some '' Identity '') = Identity" by code_simp
  then have "declared_effort_from ?D ''{}'' (Some '' Identity '') = Some ''high''"
    by (simp add: declared_effort_from_def)
  from effort_declared [OF this] show ?thesis by (simp add: k)
qed

end
