(* ===== verification/Channel.thy ===== *)
theory Channel
  imports Prelude
begin

text \<open>
  Bounded channels: \<open>std::sync::mpsc::sync_channel\<close> between the proxy and the audit writer, and the
  bounded \<open>tokio::sync::mpsc\<close> channel between the response pump and the caller. A channel is its
  queue, its capacity and which ends are alive. The interface \<open>bounded_fifo\<close> states what a client
  relies on (first in first out, nothing lost or doubled, never more than the capacity), and its
  lemma on whole runs holds for every interleaving of the two ends.
\<close>

section \<open>The interface\<close>

datatype send_result = Sent | Full | Disconnected

datatype 'a chan_op = Send 'a | Recv

text \<open>A run of sends and receives: the final channel, the accepted and the received elements.\<close>

fun chan_run ::
  "('s \<Rightarrow> 'a \<Rightarrow> 's \<times> send_result) \<Rightarrow> ('s \<Rightarrow> 's \<times> 'a option) \<Rightarrow> 's \<Rightarrow> 'a chan_op list \<Rightarrow>
     's \<times> 'a list \<times> 'a list" where
  "chan_run snd_op rcv_op s [] = (s, [], [])"
| "chan_run snd_op rcv_op s (Send x # ops) =
     (let (s1, r) = snd_op s x; (s2, acc, got) = chan_run snd_op rcv_op s1 ops
      in (s2, if r = Sent then x # acc else acc, got))"
| "chan_run snd_op rcv_op s (Recv # ops) =
     (let (s1, y) = rcv_op s; (s2, acc, got) = chan_run snd_op rcv_op s1 ops
      in (s2, acc, (case y of None \<Rightarrow> got | Some v \<Rightarrow> v # got)))"

locale bounded_fifo =
  fixes send :: "'s \<Rightarrow> 'a \<Rightarrow> 's \<times> send_result"
    and recv :: "'s \<Rightarrow> 's \<times> 'a option"
    and contents :: "'s \<Rightarrow> 'a list"
    and capacity :: "'s \<Rightarrow> nat"
  assumes send_Sent: "send s x = (t, Sent) \<Longrightarrow> contents t = contents s @ [x] \<and> length (contents s) < capacity s"
    and send_rejected: "send s x = (t, r) \<Longrightarrow> r \<noteq> Sent \<Longrightarrow> t = s"
    and send_capacity: "capacity (fst (send s x)) = capacity s"
    and send_Full: "send s x = (t, Full) \<Longrightarrow> length (contents s) \<ge> capacity s"
    and recv_None: "recv s = (t, None) \<Longrightarrow> t = s \<and> contents s = []"
    and recv_Some: "recv s = (t, Some y) \<Longrightarrow> contents s = y # contents t"
    and recv_capacity: "capacity (fst (recv s)) = capacity s"
begin

lemma send_bounded:
  "length (contents s) \<le> capacity s \<Longrightarrow> length (contents (fst (send s x))) \<le> capacity s"
  by (cases "send s x"; cases "snd (send s x) = Sent") (auto dest: send_Sent send_rejected)

lemma recv_bounded:
  "length (contents s) \<le> capacity s \<Longrightarrow> length (contents (fst (recv s))) \<le> capacity s"
  by (cases "recv s"; cases "snd (recv s)") (auto dest: recv_None dest!: recv_Some)

lemma run_bounded:
  "length (contents s) \<le> capacity s \<Longrightarrow> chan_run send recv s ops = (t, acc, got) \<Longrightarrow>
     length (contents t) \<le> capacity s"
proof (induction ops arbitrary: s t acc got)
  case Nil
  then show ?case by simp
next
  case (Cons op ops)
  show ?case
  proof (cases op)
    case (Send x)
    then show ?thesis
      using Cons.prems Cons.IH [of "fst (send s x)"] send_bounded [of s x] send_capacity [of s x]
      by (auto split: prod.splits)
  next
    case Recv
    then show ?thesis
      using Cons.prems Cons.IH [of "fst (recv s)"] recv_bounded [of s] recv_capacity [of s]
      by (auto split: prod.splits)
  qed
qed

lemma run_fifo:
  "chan_run send recv s ops = (t, acc, got) \<Longrightarrow> got @ contents t = contents s @ acc"
proof (induction ops arbitrary: s t acc got)
  case Nil
  then show ?case by simp
next
  case (Cons op ops)
  show ?case
  proof (cases op)
    case (Send x)
    obtain s1 r where s1: "send s x = (s1, r)" by force
    then show ?thesis
      using Cons.prems Cons.IH [of s1] Send
      by (cases "r = Sent") (auto split: prod.splits dest: send_Sent send_rejected)
  next
    case Recv
    obtain s1 y where s1: "recv s = (s1, y)" by force
    then show ?thesis
      using Cons.prems Cons.IH [of s1] Recv
      by (cases y) (auto split: prod.splits dest: recv_None recv_Some)
  qed
qed

end

section \<open>Channels\<close>

record 'a channel =
  ch_queue :: "'a list"
  ch_cap :: nat
  ch_rx_alive :: bool

definition channel_new :: "nat \<Rightarrow> 'a channel" where
  "channel_new cap = \<lparr>ch_queue = [], ch_cap = cap, ch_rx_alive = True\<rparr>"

text \<open>\<open>SyncSender::try_send\<close> (and the completion of tokio's \<open>Sender::send\<close>).\<close>

definition ch_try_send :: "'a channel \<Rightarrow> 'a \<Rightarrow> 'a channel \<times> send_result" where
  "ch_try_send c x =
     (if \<not> ch_rx_alive c then (c, Disconnected)
      else if length (ch_queue c) < ch_cap c then (c\<lparr>ch_queue := ch_queue c @ [x]\<rparr>, Sent)
      else (c, Full))"

text \<open>A receive that does not wait.\<close>

definition ch_try_recv :: "'a channel \<Rightarrow> 'a channel \<times> 'a option" where
  "ch_try_recv c =
     (case ch_queue c of [] \<Rightarrow> (c, None) | x # q \<Rightarrow> (c\<lparr>ch_queue := q\<rparr>, Some x))"

text \<open>Dropping the receiver discards what is queued and disconnects the senders.\<close>

definition ch_drop_rx :: "'a channel \<Rightarrow> 'a channel" where
  "ch_drop_rx c = c\<lparr>ch_queue := [], ch_rx_alive := False\<rparr>"

interpretation chan: bounded_fifo ch_try_send ch_try_recv ch_queue ch_cap
  by unfold_locales
    (auto simp: ch_try_send_def ch_try_recv_def split: if_splits list.splits)

lemma ch_rx_alive_frame [simp]:
  "ch_rx_alive (fst (ch_try_send c x)) = ch_rx_alive c"
  "ch_rx_alive (fst (ch_try_recv c)) = ch_rx_alive c"
  by (simp_all add: ch_try_send_def ch_try_recv_def split: list.splits)

end
