(* ===== verification/Audit_Writer.thy ===== *)
theory Audit_Writer
  imports Libraries Channel
begin

text \<open>
  The append-only JSONL writer of \<^verbatim>\<open>src/src/usage.rs\<close>: \<open>AuditWriter\<close> with \<open>start\<close>, \<open>spawn\<close>,
  \<open>try_record\<close> and \<open>drop\<close>, the background \<open>write_loop\<close> and the one-shot warning \<open>warn_once\<close>.
  The proxy's threads and the writer thread interleave freely: a run is a list of actions, each
  one operation of one side, and every property holds for all runs.
\<close>

section \<open>State\<close>

record AuditWriter =
  w_tx :: bool
  w_chan :: "AuditRecord channel"
  w_drop_warned :: bool
  w_write_warned :: bool
  w_file :: bytes
  w_stderr :: "string list"

definition AUDIT_WRITE_FAILED :: string where
  "AUDIT_WRITE_FAILED =
     ''debitmetre: audit_write_failed: usage record write failed; the usage file may be incomplete (further failures are only counted)''"

definition AUDIT_DROPPED :: string where
  "AUDIT_DROPPED =
     ''debitmetre: audit_dropped: usage record dropped; the audit queue is full (further drops are only counted)''"

text \<open>
  \<open>warn_once\<close>: swaps the flag and prints on the first call. The result is the flag, the lines
  printed to stderr and the returned value.
\<close>

definition warn_once :: "bool \<Rightarrow> string \<Rightarrow> bool \<times> string list \<times> bool" where
  "warn_once flag message = (if flag then (True, [], False) else (True, [message], True))"

section \<open>Operations\<close>

text \<open>\<open>spawn\<close>: the open file holds \<open>content\<close>, and writes are appended to it.\<close>

definition spawn :: "bytes \<Rightarrow> AuditWriter" where
  "spawn content =
     \<lparr>w_tx = True, w_chan = channel_new AUDIT_QUEUE_CAPACITY, w_drop_warned = False,
      w_write_warned = False, w_file = content, w_stderr = []\<rparr>"

text \<open>
  \<open>AuditWriter::start\<close>: \<open>opened\<close> is the result of opening the path for appending, with the bytes the
  file holds on success.
\<close>

definition start :: "'io_error + bytes \<Rightarrow> 'io_error + AuditWriter" where
  "start opened = (case opened of Inl err \<Rightarrow> Inl err | Inr content \<Rightarrow> Inr (spawn content))"

definition warn_dropped :: "AuditWriter \<Rightarrow> AuditWriter" where
  "warn_dropped w =
     (let (flag, printed, _) = warn_once (w_drop_warned w) AUDIT_DROPPED
      in w\<lparr>w_drop_warned := flag, w_stderr := w_stderr w @ printed\<rparr>)"

definition try_record :: "AuditWriter \<Rightarrow> AuditRecord \<Rightarrow> AuditWriter" where
  "try_record w record =
     (if \<not> w_tx w then warn_dropped w
      else let (c, r) = ch_try_send (w_chan w) record
           in (case r of
                 Sent \<Rightarrow> w\<lparr>w_chan := c\<rparr>
               | Full \<Rightarrow> warn_dropped w
               | Disconnected \<Rightarrow> warn_dropped w))"

definition drop_writer :: "AuditWriter \<Rightarrow> AuditWriter" where
  "drop_writer w = w\<lparr>w_tx := False\<rparr>"

text \<open>What \<open>write_all\<close> did: everything was written, or an error came after \<open>n\<close> bytes.\<close>

datatype write_result = WroteAll | WriteFailed nat

definition write_line :: "AuditWriter \<Rightarrow> bytes \<Rightarrow> write_result \<Rightarrow> AuditWriter" where
  "write_line w line res =
     (case res of
        WroteAll \<Rightarrow> w\<lparr>w_file := w_file w @ line\<rparr>
      | WriteFailed n \<Rightarrow>
          (let (flag, printed, _) = warn_once (w_write_warned w) AUDIT_WRITE_FAILED
           in w\<lparr>w_file := w_file w @ take n line, w_write_warned := flag,
                w_stderr := w_stderr w @ printed\<rparr>))"

text \<open>
  One iteration of \<open>write_loop\<close>. With an empty queue \<open>recv\<close> waits while a sender lives; once the
  sender is gone the loop ends, which drops the receiver.
\<close>

definition write_loop_step :: "record_codec \<Rightarrow> AuditWriter \<Rightarrow> write_result \<Rightarrow> AuditWriter" where
  "write_loop_step C w res =
     (let (c, received) = ch_try_recv (w_chan w)
      in case received of
           None \<Rightarrow> if w_tx w then w else w\<lparr>w_chan := ch_drop_rx c\<rparr>
         | Some record \<Rightarrow>
             (case record_to_vec C record of
                None \<Rightarrow> w\<lparr>w_chan := c\<rparr>
              | Some line \<Rightarrow> write_line (w\<lparr>w_chan := c\<rparr>) (line @ [CHR 0x0A]) res))"

section \<open>Runs\<close>

datatype writer_action = TryRecord AuditRecord | WriteStep write_result | DropWriter

fun writer_step :: "record_codec \<Rightarrow> AuditWriter \<Rightarrow> writer_action \<Rightarrow> AuditWriter" where
  "writer_step C w (TryRecord r) = try_record w r"
| "writer_step C w (WriteStep res) = write_loop_step C w res"
| "writer_step C w DropWriter = drop_writer w"

definition writer_run :: "record_codec \<Rightarrow> AuditWriter \<Rightarrow> writer_action list \<Rightarrow> AuditWriter" where
  "writer_run C w acts = foldl (writer_step C) w acts"

lemma writer_run_simps [simp]:
  "writer_run C w [] = w"
  "writer_run C w (a # acts) = writer_run C (writer_step C w a) acts"
  by (simp_all add: writer_run_def)

section \<open>The invariant\<close>

text \<open>
  The queue never exceeds its capacity, each warning was printed exactly when its flag says so and
  at most once, and the receiver lives as long as a sender does.
\<close>

definition writer_inv :: "AuditWriter \<Rightarrow> bool" where
  "writer_inv w \<longleftrightarrow>
     ch_cap (w_chan w) = AUDIT_QUEUE_CAPACITY \<and>
     length (ch_queue (w_chan w)) \<le> AUDIT_QUEUE_CAPACITY \<and>
     (w_tx w \<longrightarrow> ch_rx_alive (w_chan w)) \<and>
     count_list (w_stderr w) AUDIT_DROPPED = of_bool (w_drop_warned w) \<and>
     count_list (w_stderr w) AUDIT_WRITE_FAILED = of_bool (w_write_warned w) \<and>
     set (w_stderr w) \<subseteq> {AUDIT_DROPPED, AUDIT_WRITE_FAILED}"

lemma messages_distinct: "AUDIT_DROPPED \<noteq> AUDIT_WRITE_FAILED"
  by (simp add: AUDIT_DROPPED_def AUDIT_WRITE_FAILED_def)

lemma spawn_inv: "writer_inv (spawn content)"
  by (simp add: writer_inv_def spawn_def channel_new_def)

lemma warn_dropped_inv [preserves]: "writer_inv w \<Longrightarrow> writer_inv (warn_dropped w)"
  using messages_distinct by (auto simp: writer_inv_def warn_dropped_def warn_once_def)

lemma try_record_inv [preserves]: "writer_inv w \<Longrightarrow> writer_inv (try_record w r)"
proof -
  assume inv: "writer_inv w"
  then have "writer_inv (w\<lparr>w_chan := fst (ch_try_send (w_chan w) r)\<rparr>)"
    using chan.send_bounded [of "w_chan w" r] chan.send_capacity [of "w_chan w" r]
    by (simp add: writer_inv_def)
  with inv show ?thesis
    by (auto simp: try_record_def warn_dropped_inv split: prod.splits send_result.splits)
qed

lemma write_line_inv [preserves]: "writer_inv w \<Longrightarrow> writer_inv (write_line w line res)"
  using messages_distinct
  by (cases res) (auto simp: writer_inv_def write_line_def warn_once_def)

lemma write_loop_step_inv [preserves]: "writer_inv w \<Longrightarrow> writer_inv (write_loop_step C w res)"
proof -
  assume inv: "writer_inv w"
  then have "writer_inv (w\<lparr>w_chan := fst (ch_try_recv (w_chan w))\<rparr>)"
    using chan.recv_bounded [of "w_chan w"] chan.recv_capacity [of "w_chan w"]
    by (simp add: writer_inv_def)
  moreover have "\<not> w_tx w \<Longrightarrow> writer_inv (w\<lparr>w_chan := ch_drop_rx (w_chan w)\<rparr>)"
    using inv by (simp add: writer_inv_def ch_drop_rx_def)
  ultimately show ?thesis
    using inv by (auto simp: write_loop_step_def write_line_inv split: prod.splits option.splits
        dest: chan.recv_None)
qed

lemma drop_writer_inv [preserves]: "writer_inv w \<Longrightarrow> writer_inv (drop_writer w)"
  by (simp add: writer_inv_def drop_writer_def)

lemma writer_step_inv: "writer_inv w \<Longrightarrow> writer_inv (writer_step C w a)"
  by (cases a) (simp_all add: preserves)

lemma writer_run_inv: "writer_inv w \<Longrightarrow> writer_inv (writer_run C w acts)"
  by (induction acts arbitrary: w) (simp_all add: writer_step_inv)

section \<open>Order and content\<close>

text \<open>The records a run accepts into the queue, and those the writer takes out with their write results.\<close>

fun accepted :: "record_codec \<Rightarrow> AuditWriter \<Rightarrow> writer_action list \<Rightarrow> AuditRecord list" where
  "accepted C w [] = []"
| "accepted C w (TryRecord r # acts) =
     (if w_tx w \<and> snd (ch_try_send (w_chan w) r) = Sent then [r] else []) @
     accepted C (try_record w r) acts"
| "accepted C w (a # acts) = accepted C (writer_step C w a) acts"

fun taken :: "record_codec \<Rightarrow> AuditWriter \<Rightarrow> writer_action list \<Rightarrow> (AuditRecord \<times> write_result) list" where
  "taken C w [] = []"
| "taken C w (WriteStep res # acts) =
     (case snd (ch_try_recv (w_chan w)) of None \<Rightarrow> [] | Some r \<Rightarrow> [(r, res)]) @
     taken C (write_loop_step C w res) acts"
| "taken C w (a # acts) = taken C (writer_step C w a) acts"

text \<open>The records a run offers, and those it does not accept.\<close>

fun offered :: "writer_action list \<Rightarrow> AuditRecord list" where
  "offered [] = []"
| "offered (TryRecord r # acts) = r # offered acts"
| "offered (a # acts) = offered acts"

fun dropped :: "record_codec \<Rightarrow> AuditWriter \<Rightarrow> writer_action list \<Rightarrow> AuditRecord list" where
  "dropped C w [] = []"
| "dropped C w (TryRecord r # acts) =
     (if w_tx w \<and> snd (ch_try_send (w_chan w) r) = Sent then [] else [r]) @
     dropped C (try_record w r) acts"
| "dropped C w (a # acts) = dropped C (writer_step C w a) acts"

text \<open>The write of a taken record failed.\<close>

definition write_failed :: "record_codec \<Rightarrow> AuditRecord \<times> write_result \<Rightarrow> bool" where
  "write_failed C rw \<longleftrightarrow> record_to_vec C (fst rw) \<noteq> None \<and> snd rw \<noteq> WroteAll"

text \<open>The bytes one taken record leaves in the file.\<close>

definition line_of :: "record_codec \<Rightarrow> AuditRecord \<Rightarrow> bytes" where
  "line_of C r = (case record_to_vec C r of None \<Rightarrow> [] | Some line \<Rightarrow> line @ [CHR 0x0A])"

definition bytes_of :: "record_codec \<Rightarrow> AuditRecord \<times> write_result \<Rightarrow> bytes" where
  "bytes_of C rw =
     (case snd rw of WroteAll \<Rightarrow> line_of C (fst rw) | WriteFailed n \<Rightarrow> take n (line_of C (fst rw)))"

lemma warn_dropped_frame [simp]:
  "w_chan (warn_dropped w) = w_chan w" "w_file (warn_dropped w) = w_file w"
  "w_tx (warn_dropped w) = w_tx w"
  by (simp_all add: warn_dropped_def split: prod.splits)

lemma try_record_frame [simp]:
  "w_file (try_record w r) = w_file w" "w_tx (try_record w r) = w_tx w"
  by (simp_all add: try_record_def split: prod.splits send_result.splits)

lemma drop_writer_frame [simp]:
  "w_file (drop_writer w) = w_file w" "w_chan (drop_writer w) = w_chan w"
  by (simp_all add: drop_writer_def)

lemma write_line_frame [simp]:
  "w_chan (write_line w line res) = w_chan w" "w_tx (write_line w line res) = w_tx w"
  by (cases res; simp add: write_line_def split: prod.splits)+

lemma write_line_WroteAll [simp]: "w_file (write_line w line WroteAll) = w_file w @ line"
  by (simp add: write_line_def)

lemma try_record_queue:
  "ch_queue (w_chan (try_record w r)) =
     ch_queue (w_chan w) @ (if w_tx w \<and> snd (ch_try_send (w_chan w) r) = Sent then [r] else [])"
  by (auto simp: try_record_def split: prod.splits send_result.splits dest: chan.send_Sent)

lemma write_loop_step_queue:
  "ch_queue (w_chan w) =
     (case snd (ch_try_recv (w_chan w)) of None \<Rightarrow> [] | Some r \<Rightarrow> [r]) @
     ch_queue (w_chan (write_loop_step C w res))"
  by (auto simp: write_loop_step_def ch_drop_rx_def split: prod.splits option.splits
      dest: chan.recv_None chan.recv_Some)

lemma write_loop_step_file:
  "w_file (write_loop_step C w res) = w_file w @
     concat (map (bytes_of C)
       (case snd (ch_try_recv (w_chan w)) of None \<Rightarrow> [] | Some r \<Rightarrow> [(r, res)]))"
  by (auto simp: write_loop_step_def write_line_def bytes_of_def line_of_def
      split: prod.splits option.splits write_result.splits)

lemma writer_fifo:
  "map fst (taken C w acts) @ ch_queue (w_chan (writer_run C w acts)) =
     ch_queue (w_chan w) @ accepted C w acts"
proof (induction acts arbitrary: w)
  case Nil
  show ?case by simp
next
  case (Cons a acts)
  show ?case
  proof (cases a)
    case (TryRecord r)
    then show ?thesis using Cons.IH [of "try_record w r"] by (simp add: try_record_queue)
  next
    case (WriteStep res)
    then show ?thesis
      using Cons.IH [of "write_loop_step C w res"] write_loop_step_queue [of w C res]
      by (auto split: option.splits)
  next
    case DropWriter
    then show ?thesis using Cons.IH [of "drop_writer w"] by simp
  qed
qed

lemma writer_file:
  "w_file (writer_run C w acts) = w_file w @ concat (map (bytes_of C) (taken C w acts))"
proof (induction acts arbitrary: w)
  case Nil
  show ?case by simp
next
  case (Cons a acts)
  then show ?case by (cases a) (simp_all add: write_loop_step_file)
qed

text \<open>Every warning has its cause, and every cause its warning.\<close>

lemma write_loop_step_warned [simp]: "w_drop_warned (write_loop_step C w res) = w_drop_warned w"
  by (auto simp: write_loop_step_def write_line_def split: prod.splits option.splits write_result.splits)

lemma drop_warned_iff:
  "w_drop_warned (writer_run C w acts) \<longleftrightarrow> w_drop_warned w \<or> dropped C w acts \<noteq> []"
proof (induction acts arbitrary: w)
  case (Cons a acts)
  show ?case
  proof (cases a)
    case (TryRecord r)
    have "w_drop_warned (try_record w r) \<longleftrightarrow>
        w_drop_warned w \<or> \<not> (w_tx w \<and> snd (ch_try_send (w_chan w) r) = Sent)"
      by (auto simp: try_record_def warn_dropped_def warn_once_def split: prod.splits send_result.splits)
    with TryRecord Cons.IH [of "try_record w r"] show ?thesis by auto
  next
    case (WriteStep res)
    then show ?thesis using Cons.IH [of "write_loop_step C w res"] by simp
  next
    case DropWriter
    then show ?thesis using Cons.IH [of "drop_writer w"] by (simp add: drop_writer_def)
  qed
qed simp

lemma write_loop_step_write_warned:
  "w_write_warned (write_loop_step C w res) \<longleftrightarrow> w_write_warned w \<or>
     list_ex (write_failed C) (case snd (ch_try_recv (w_chan w)) of None \<Rightarrow> [] | Some r \<Rightarrow> [(r, res)])"
  by (auto simp: write_loop_step_def write_line_def write_failed_def warn_once_def
      split: prod.splits option.splits write_result.splits)

lemma write_warned_iff:
  "w_write_warned (writer_run C w acts) \<longleftrightarrow> w_write_warned w \<or> list_ex (write_failed C) (taken C w acts)"
proof (induction acts arbitrary: w)
  case (Cons a acts)
  show ?case
  proof (cases a)
    case (TryRecord r)
    have "w_write_warned (try_record w r) = w_write_warned w"
      by (simp add: try_record_def warn_dropped_def split: prod.splits send_result.splits)
    with TryRecord Cons.IH [of "try_record w r"] show ?thesis by simp
  next
    case (WriteStep res)
    then show ?thesis
      using Cons.IH [of "write_loop_step C w res"] by (simp add: write_loop_step_write_warned disj_assoc)
  next
    case DropWriter
    then show ?thesis using Cons.IH [of "drop_writer w"] by (simp add: drop_writer_def)
  qed
qed simp

lemma warned_reported:
  assumes "writer_inv w"
  shows "AUDIT_DROPPED \<in> set (w_stderr w) \<longleftrightarrow> w_drop_warned w"
    and "AUDIT_WRITE_FAILED \<in> set (w_stderr w) \<longleftrightarrow> w_write_warned w"
  using assms count_list_0_iff [of "w_stderr w" AUDIT_DROPPED]
    count_list_0_iff [of "w_stderr w" AUDIT_WRITE_FAILED]
  by (cases "w_drop_warned w"; cases "w_write_warned w"; simp add: writer_inv_def)+

text \<open>Runs one after the other.\<close>

lemma run_append:
  "writer_run C w (acts @ bcts) = writer_run C (writer_run C w acts) bcts"
  "taken C w (acts @ bcts) = taken C w acts @ taken C (writer_run C w acts) bcts"
  "dropped C w (acts @ bcts) = dropped C w acts @ dropped C (writer_run C w acts) bcts"
  "offered (acts @ bcts) = offered acts @ offered bcts"
proof -
  show "writer_run C w (acts @ bcts) = writer_run C (writer_run C w acts) bcts"
    by (simp add: writer_run_def)
  show "taken C w (acts @ bcts) = taken C w acts @ taken C (writer_run C w acts) bcts"
    by (induction C w acts rule: taken.induct) simp_all
  show "dropped C w (acts @ bcts) = dropped C w acts @ dropped C (writer_run C w acts) bcts"
    by (induction C w acts rule: dropped.induct) simp_all
  show "offered (acts @ bcts) = offered acts @ offered bcts"
    by (induction acts rule: offered.induct) simp_all
qed

lemma offers_only:
  "writer_run C w (map TryRecord rs) = foldl try_record w rs"
  "offered (map TryRecord rs) = rs" "taken C w (map TryRecord rs) = []"
  by (induction rs arbitrary: w) simp_all

lemma write_loop_step_Cons:
  assumes "ch_queue (w_chan w) = r # q"
  shows "ch_queue (w_chan (write_loop_step C w res)) = q"
    and "w_file (write_loop_step C w WroteAll) = w_file w @ line_of C r"
    and "w_tx (write_loop_step C w res) = w_tx w"
  using assms
  by (auto simp: write_loop_step_def ch_try_recv_def line_of_def split: option.splits)

lemma writer_drain:
  assumes "ch_queue (w_chan w) = q"
  shows "ch_queue (w_chan (writer_run C w (replicate (length q) (WriteStep WroteAll)))) = []"
    and "w_file (writer_run C w (replicate (length q) (WriteStep WroteAll))) =
      w_file w @ concat (map (line_of C) q)"
  using assms by (induction q arbitrary: w) (simp_all add: write_loop_step_Cons)

lemma warn_dropped_warned: "writer_inv w \<Longrightarrow> AUDIT_DROPPED \<in> set (w_stderr (warn_dropped w))"
proof -
  assume "writer_inv w"
  then have "writer_inv (warn_dropped w)" by (rule warn_dropped_inv)
  moreover have "w_drop_warned (warn_dropped w)" by (simp add: warn_dropped_def warn_once_def)
  ultimately have "count_list (w_stderr (warn_dropped w)) AUDIT_DROPPED = 1"
    by (simp add: writer_inv_def)
  then show ?thesis by (metis count_list_0_iff zero_neq_one)
qed

lemma try_record_room:
  assumes "writer_inv w" and "w_tx w \<and> length (ch_queue (w_chan w)) < AUDIT_QUEUE_CAPACITY"
  shows "ch_queue (w_chan (try_record w r)) = ch_queue (w_chan w) @ [r]"
    and "w_stderr (try_record w r) = w_stderr w"
  using assms by (simp_all add: try_record_def ch_try_send_def writer_inv_def)

lemma try_record_no_room:
  assumes "writer_inv w" and "\<not> (w_tx w \<and> length (ch_queue (w_chan w)) < AUDIT_QUEUE_CAPACITY)"
  shows "try_record w r = warn_dropped w"
    and "AUDIT_DROPPED \<in> set (w_stderr (try_record w r))"
  using assms warn_dropped_warned [OF assms(1)]
  by (auto simp: try_record_def ch_try_send_def writer_inv_def)

section \<open>Properties\<close>

text \<open>
  (C27) Fail-open writer: in every interleaving of proxy threads and writer thread, at most 2048
  records wait in memory, each of the two warnings is printed at most once and only when its event
  happened, and nothing else is printed.
\<close>

theorem writer_bounded_and_quiet:
  "let w = writer_run C (spawn content) acts in
     length (ch_queue (w_chan w)) \<le> 2048 \<and>
     count_list (w_stderr w) AUDIT_DROPPED \<le> 1 \<and>
     count_list (w_stderr w) AUDIT_WRITE_FAILED \<le> 1 \<and>
     set (w_stderr w) \<subseteq> {AUDIT_DROPPED, AUDIT_WRITE_FAILED}"
proof -
  have "writer_inv (writer_run C (spawn content) acts)"
    by (rule writer_run_inv [OF spawn_inv])
  then show ?thesis by (simp add: writer_inv_def AUDIT_QUEUE_CAPACITY_def Let_def)
qed

text \<open>
  (C10) Append-only, in order: the file is its content at startup followed by what was written of
  each record the writer took, and the taken records followed by the still queued ones are exactly
  the accepted ones, in the order of acceptance (no loss after acceptance, no duplicate, no
  reordering).
\<close>

theorem writer_appends_in_order:
  "let w = spawn content; w' = writer_run C w acts in
     w_file w' = content @ concat (map (bytes_of C) (taken C w acts)) \<and>
     map fst (taken C w acts) @ ch_queue (w_chan w') = accepted C w acts"
  using writer_file [of C "spawn content" acts] writer_fifo [of C "spawn content" acts]
  by (simp add: spawn_def channel_new_def Let_def)

text \<open>
  Offering a record never touches the file and never waits: with a live sender and room in the
  queue the record is appended to the queue and no warning is printed; otherwise the queue stays as
  it is and the drop warning has been printed.
\<close>

lemma try_record_cases:
  "let w = writer_run C (spawn content) acts; w' = try_record w r in
     w_file w' = w_file w \<and>
     (if w_tx w \<and> length (ch_queue (w_chan w)) < 2048
      then ch_queue (w_chan w') = ch_queue (w_chan w) @ [r] \<and> w_stderr w' = w_stderr w
      else w_chan w' = w_chan w \<and> AUDIT_DROPPED \<in> set (w_stderr w'))"
proof -
  let ?w = "writer_run C (spawn content) acts"
  have inv: "writer_inv ?w" by (rule writer_run_inv [OF spawn_inv])
  show ?thesis
    using try_record_room [OF inv, of r] try_record_no_room [OF inv, of r]
    by (simp add: Let_def AUDIT_QUEUE_CAPACITY_def)
qed

text \<open>
  The writer catches up: from any reachable state, one write step per queued record empties the
  queue, and when the writes succeed the file has gained exactly the lines of the queued records.
\<close>

lemma writer_drains:
  "let w = writer_run C (spawn content) acts;
       w' = writer_run C w (replicate (length (ch_queue (w_chan w))) (WriteStep WroteAll)) in
     ch_queue (w_chan w') = [] \<and>
     w_file w' = w_file w @ concat (map (line_of C) (ch_queue (w_chan w)))"
  by (simp add: Let_def writer_drain [OF refl])

end
