(* ===== verification/Lifecycle.thy ===== *)
theory Lifecycle
  imports Metering Effort Audit_Writer
begin

text \<open>
  The audit line of one accepted request, from \<^verbatim>\<open>src/src/lib.rs\<close>: \<open>record_audit\<close>, which turns the
  end of a response into a record, and the record of a transport failure in \<open>route_v1\<close>. The records
  a gateway offers to the writer are characterised by \<open>record_ok\<close>.
\<close>

section \<open>record\_audit\<close>

text \<open>The value of \<open>record.outcome\<close>.\<close>

definition audit_outcome :: "bool \<Rightarrow> Outcome \<Rightarrow> StreamUsageParser \<Rightarrow> Outcome" where
  "audit_outcome is_success oc parser =
     (if \<not> is_success then UpstreamError
      else if oc = Completed \<and> parser_incomplete parser then Incomplete
      else if oc = Completed \<and> \<not> parser_terminal_seen parser then UpstreamInterrupted
      else oc)"

text \<open>The record \<open>record_audit\<close> offers; \<open>ev\<close> and \<open>now\<close> are the event id and the time it takes.\<close>

definition audit_record ::
  "string \<Rightarrow> string \<Rightarrow> string \<Rightarrow> Operation \<Rightarrow> u16 \<Rightarrow> bool \<Rightarrow> Outcome \<Rightarrow> StreamUsageParser \<Rightarrow>
     string option \<Rightarrow> AuditRecord" where
  "audit_record ev now mid oper status is_success oc parser eff =
     (let r = (AuditRecord_new ev now mid oper)
            \<lparr>upstream_status := Some status, reasoning_effort := eff,
             outcome := audit_outcome is_success oc parser\<rparr>
      in if is_success
         then let res = parser_finish parser
              in r\<lparr>model := res_model res, usage := res_usage res,
                   accounting_quality := res_quality res,
                   metering_error := res_metering_error res\<rparr>
         else r\<lparr>usage := None, accounting_quality := Unavailable, metering_error := None\<rparr>)"

definition record_audit ::
  "AuditWriter \<Rightarrow> string \<Rightarrow> string \<Rightarrow> string \<Rightarrow> Operation \<Rightarrow> u16 \<Rightarrow> bool \<Rightarrow> Outcome \<Rightarrow>
     StreamUsageParser \<Rightarrow> string option \<Rightarrow> AuditWriter" where
  "record_audit audit ev now mid oper status is_success oc parser eff =
     try_record audit (audit_record ev now mid oper status is_success oc parser eff)"

text \<open>
  The record of a request that got no response. The observer is finished and asked for the
  declared effort, which both ends of a lifecycle do the same way.
\<close>

definition observed_effort ::
  "'d effort_lib \<Rightarrow> RequestEffort option \<Rightarrow> RequestEffort option \<times> string option" where
  "observed_effort D observer =
     (case observer of
        None \<Rightarrow> (None, None)
      | Some e \<Rightarrow> (let e1 = finish D e in (Some e1, effort e1)))"

definition transport_error_record ::
  "string \<Rightarrow> string \<Rightarrow> string \<Rightarrow> Operation \<Rightarrow> string option \<Rightarrow> AuditRecord" where
  "transport_error_record ev now mid oper eff =
     (AuditRecord_new ev now mid oper)
       \<lparr>upstream_status := None, outcome := TransportError, reasoning_effort := eff\<rparr>"

section \<open>Well-formed records\<close>

text \<open>
  A record is canonical; it has no status exactly for a transport failure; failures before a 2xx
  response carry no model, usage or metering error; and after a 2xx response usage, quality and
  metering error are those of a consistent extraction, with the accounting basis.
\<close>

definition record_ok :: "AuditRecord \<Rightarrow> bool" where
  "record_ok r \<longleftrightarrow>
     canonical r \<and>
     (upstream_status r = None \<longleftrightarrow> outcome r = TransportError) \<and>
     (if outcome r \<in> {TransportError, UpstreamError}
      then model r = None \<and> usage r = None \<and> accounting_quality r = Unavailable \<and>
           metering_error r = None
      else result_ok \<lparr>res_model = model r, res_usage = usage r,
             res_quality = accounting_quality r, res_metering_error = metering_error r\<rparr>)"

lemma parsed_simps:
  assumes "sp_parsed p = Some b"
  shows "parser_finish p = pb_audit b" and "parser_terminal_seen p = pb_terminal_seen b"
    and "parser_incomplete p = pb_incomplete b"
  using assms by (simp_all add: parser_finish_def parser_terminal_seen_def parser_incomplete_def)

lemma audit_record_ok:
  assumes "sp_parsed p = Some (parse_mirror J E body h)"
    and "oc \<in> {Completed, UpstreamInterrupted, ClientCancelled}"
  shows "record_ok (audit_record ev now mid oper status s oc p eff)"
proof (cases s)
  case True
  from assms(2) have "audit_outcome True oc p \<notin> {TransportError, UpstreamError}"
    by (auto simp: audit_outcome_def)
  moreover have "result_ok (parser_finish p)"
    by (simp add: parsed_simps [OF assms(1)] parse_mirror_ok)
  ultimately show ?thesis
    using True by (auto simp: record_ok_def audit_record_def Let_def result_ok_def)
next
  case False
  then show ?thesis
    by (simp add: record_ok_def audit_record_def Let_def audit_outcome_def AuditRecord_new_def
        canonical_def)
qed

lemma audit_record_fields [simp]:
  "machine_id (audit_record ev now mid oper status s oc p eff) = mid"
  "operation (audit_record ev now mid oper status s oc p eff) = oper"
  "upstream_status (audit_record ev now mid oper status s oc p eff) = Some status"
  "reasoning_effort (audit_record ev now mid oper status s oc p eff) = eff"
  by (simp_all add: audit_record_def Let_def AuditRecord_new_def)

lemma transport_error_record_fields [simp]:
  "machine_id (transport_error_record ev now mid oper eff) = mid"
  "operation (transport_error_record ev now mid oper eff) = oper"
  "outcome (transport_error_record ev now mid oper eff) = TransportError"
  "reasoning_effort (transport_error_record ev now mid oper eff) = eff"
  by (simp_all add: transport_error_record_def AuditRecord_new_def)

lemma transport_error_record_ok: "record_ok (transport_error_record ev now mid oper eff)"
  by (simp add: record_ok_def transport_error_record_def AuditRecord_new_def canonical_def)

section \<open>Properties\<close>

text \<open>
  (C15) The audit line of a response, in full: for a finalised observer the record carries the
  machine, operation, status and declared effort it was given; a non-2xx response is
  \<open>upstream_error\<close> with no model and no usage whatever the body says; a 2xx response carries the
  facts of the mirrored body, and is \<open>completed\<close> only when the body had a terminal event and none
  was \<open>incomplete\<close>; an interruption or a cancellation keeps its outcome and the facts seen so far.
\<close>

theorem audit_record_classifies:
  "let p = finalize J E (foldl push (StreamUsageParser_new h) chunks);
       b = parse_mirror J E (concat chunks) h;
       r = audit_record ev now mid oper status s oc p eff in
     machine_id r = mid \<and> operation r = oper \<and> upstream_status r = Some status \<and>
     reasoning_effort r = eff \<and>
     (if \<not> s
      then outcome r = UpstreamError \<and> model r = None \<and> usage r = None \<and>
           accounting_quality r = Unavailable \<and> metering_error r = None
      else model r = res_model (pb_audit b) \<and> usage r = res_usage (pb_audit b) \<and>
           accounting_quality r = res_quality (pb_audit b) \<and>
           metering_error r = res_metering_error (pb_audit b) \<and>
           outcome r =
             (if oc \<noteq> Completed then oc
              else if pb_incomplete b then Incomplete
              else if pb_terminal_seen b then Completed
              else UpstreamInterrupted))"
  by (simp add: parsed_simps [OF parsed_after] audit_record_def audit_outcome_def Let_def
      AuditRecord_new_def)

end
