(* ===== verification/Pump.thy ===== *)
theory Pump
  imports Lifecycle
begin

text \<open>
  The response task of \<open>route_v1\<close> in \<^verbatim>\<open>src/src/lib.rs\<close>: the pump that copies upstream chunks into
  the bounded response channel and mirrors them for the observer, the race of the pump against the
  caller's departure (\<open>DropNotifyStream\<close> and \<open>tokio::select!\<close>), the closing of the channel and the
  audit record at the end. The caller, the request body and the task are concurrent: a run is a
  sequence of the steps of \<open>pump_step\<close>, in any order their guards allow.

  The upstream body is a script: the chunks it will deliver and whether it ends cleanly. Silence of
  the upstream is a run in which it does not take its next step. The request body, which the HTTP
  client may still be reading, is the list of answers its stream has left to give.
\<close>

section \<open>State\<close>

text \<open>Where the task stands: at \<open>stream.next().await\<close>, at \<open>tx.send(Ok(bytes)).await\<close>, after the
  \<open>select!\<close> with its value, after \<open>drop(tx)\<close>, and at its end.\<close>

datatype phase = NextChunk | Sending bytes | Selected bool | Closed | Finished

record 'e pump =
  pm_machine :: string
  pm_operation :: "Operation option"
  pm_status :: u16
  pm_success :: bool
  pm_upstream :: "bytes list"
  pm_clean_end :: bool
  pm_parser :: "StreamUsageParser option"
  pm_effort :: "RequestEffort option"
  pm_request :: "'e poll list"
  pm_chan :: "bytes channel"
  pm_tx :: bool
  pm_notified :: bool
  pm_phase :: phase
  pm_outcome :: Outcome
  pm_body_alive :: bool
  pm_received :: "bytes list"
  pm_eof :: bool
  pm_recorded :: "AuditRecord list"

definition RESPONSE_CHANNEL_CAPACITY :: nat where
  "RESPONSE_CHANNEL_CAPACITY = 16"

text \<open>
  The state when the task is spawned and the response is returned: a parser exactly for the metered
  operations, seeded with the \<open>openai-model\<close> header.
\<close>

definition pump_init ::
  "string \<Rightarrow> Operation option \<Rightarrow> u16 \<Rightarrow> bool \<Rightarrow> string option \<Rightarrow> RequestEffort option \<Rightarrow>
     'e poll list \<Rightarrow> bytes list \<Rightarrow> bool \<Rightarrow> 'e pump" where
  "pump_init mid oper status success header_model eff polls chunks clean =
     \<lparr>pm_machine = mid, pm_operation = oper, pm_status = status, pm_success = success,
      pm_upstream = chunks, pm_clean_end = clean,
      pm_parser = (if oper \<noteq> None then Some (StreamUsageParser_new header_model) else None),
      pm_effort = eff, pm_request = polls,
      pm_chan = channel_new RESPONSE_CHANNEL_CAPACITY, pm_tx = True, pm_notified = False,
      pm_phase = NextChunk, pm_outcome = Completed, pm_body_alive = True,
      pm_received = [], pm_eof = False, pm_recorded = []\<rparr>"

section \<open>Steps\<close>

text \<open>The end of the task: the mirror is parsed, the effort read, and one record offered, on the
  metered paths only.\<close>

definition pump_record ::
  "'d effort_lib \<Rightarrow> 'v json_lib \<Rightarrow> sse_lib \<Rightarrow> string \<Rightarrow> string \<Rightarrow> 'e pump \<Rightarrow> 'e pump" where
  "pump_record D J E ev now st =
     (case (pm_parser st, pm_operation st) of
        (Some parser, Some oper) \<Rightarrow>
          (let parser1 = finalize J E parser;
               (observer, eff) = observed_effort D (pm_effort st)
           in st\<lparr>pm_parser := Some parser1, pm_effort := observer,
                 pm_recorded := pm_recorded st @
                   [audit_record ev now (pm_machine st) oper (pm_status st) (pm_success st)
                      (pm_outcome st) parser1 eff],
                 pm_phase := Finished\<rparr>)
      | _ \<Rightarrow> st\<lparr>pm_phase := Finished\<rparr>)"

text \<open>\<open>DropNotifyStream::drop\<close>: the caller abandons the body, which leaves a permit for \<open>notified\<close>.\<close>

definition DropNotifyStream_drop :: "'e pump \<Rightarrow> 'e pump" where
  "DropNotifyStream_drop st = st\<lparr>pm_body_alive := False, pm_notified := True\<rparr>"

declare DropNotifyStream_drop_def [simp]

inductive pump_step ::
  "'d effort_lib \<Rightarrow> 'v json_lib \<Rightarrow> sse_lib \<Rightarrow> 'e pump \<Rightarrow> 'e pump \<Rightarrow> bool"
  for D :: "'d effort_lib" and J :: "'v json_lib" and E :: sse_lib where
  next_chunk: "pm_phase st = NextChunk \<Longrightarrow> pm_upstream st = bs # rest \<Longrightarrow>
    pump_step D J E st
      (st\<lparr>pm_upstream := rest, pm_parser := map_option (\<lambda>p. push p bs) (pm_parser st),
          pm_phase := Sending bs\<rparr>)"
| next_err: "pm_phase st = NextChunk \<Longrightarrow> pm_upstream st = [] \<Longrightarrow> \<not> pm_clean_end st \<Longrightarrow>
    pump_step D J E st (st\<lparr>pm_outcome := UpstreamInterrupted, pm_phase := Selected True\<rparr>)"
| next_end: "pm_phase st = NextChunk \<Longrightarrow> pm_upstream st = [] \<Longrightarrow> pm_clean_end st \<Longrightarrow>
    pump_step D J E st (st\<lparr>pm_phase := Selected True\<rparr>)"
| send_ok: "pm_phase st = Sending bs \<Longrightarrow> ch_try_send (pm_chan st) bs = (c, Sent) \<Longrightarrow>
    pump_step D J E st (st\<lparr>pm_chan := c, pm_phase := NextChunk\<rparr>)"
| send_err: "pm_phase st = Sending bs \<Longrightarrow> ch_try_send (pm_chan st) bs = (c, Disconnected) \<Longrightarrow>
    pump_step D J E st (st\<lparr>pm_phase := Selected False\<rparr>)"
| gone: "pm_phase st = NextChunk \<or> pm_phase st = Sending bs \<Longrightarrow> pm_notified st \<Longrightarrow>
    pump_step D J E st (st\<lparr>pm_notified := False, pm_phase := Selected False\<rparr>)"
| close: "pm_phase st = Selected completed \<Longrightarrow>
    pump_step D J E st
      (st\<lparr>pm_outcome := (if completed then pm_outcome st else ClientCancelled),
          pm_tx := False, pm_phase := Closed\<rparr>)"
| write_record: "pm_phase st = Closed \<Longrightarrow> pump_step D J E st (pump_record D J E ev now st)"
| caller_recv: "pm_body_alive st \<Longrightarrow> ch_try_recv (pm_chan st) = (c, Some bs) \<Longrightarrow>
    pump_step D J E st (st\<lparr>pm_chan := c, pm_received := pm_received st @ [bs]\<rparr>)"
| caller_eof: "pm_body_alive st \<Longrightarrow> ch_try_recv (pm_chan st) = (c, None) \<Longrightarrow> \<not> pm_tx st \<Longrightarrow>
    \<not> pm_eof st \<Longrightarrow> pump_step D J E st (st\<lparr>pm_eof := True\<rparr>)"
| caller_drop: "pm_body_alive st \<Longrightarrow>
    pump_step D J E st (DropNotifyStream_drop st)"
| drop_inner: "\<not> pm_body_alive st \<Longrightarrow> ch_rx_alive (pm_chan st) \<Longrightarrow>
    pump_step D J E st (st\<lparr>pm_chan := ch_drop_rx (pm_chan st)\<rparr>)"
| request_poll: "pm_request st = p # ps \<Longrightarrow> mirror_poll_next (pm_effort st) p = (eff, p') \<Longrightarrow>
    pump_step D J E st (st\<lparr>pm_effort := eff, pm_request := ps\<rparr>)"

inductive_cases pump_stepE: "pump_step D J E st st'"

definition pump_reach ::
  "'d effort_lib \<Rightarrow> 'v json_lib \<Rightarrow> sse_lib \<Rightarrow> 'e pump \<Rightarrow> 'e pump \<Rightarrow> bool" where
  "pump_reach D J E = (pump_step D J E)\<^sup>*\<^sup>*"

section \<open>The invariant\<close>

text \<open>What the task has read but not yet put into the channel.\<close>

fun in_hand :: "phase \<Rightarrow> bytes list" where
  "in_hand (Sending bs) = [bs]"
| "in_hand _ = []"

fun working :: "phase \<Rightarrow> bool" where
  "working NextChunk = True"
| "working (Sending _) = True"
| "working _ = False"

definition cancelled :: "'e pump \<Rightarrow> bool" where
  "cancelled st \<longleftrightarrow> pm_phase st = Selected False \<or> pm_outcome st = ClientCancelled"

text \<open>
  Relative to the start state \<open>s0\<close>: the chunks read are a prefix \<open>cs\<close> of the upstream body, and the
  mirror holds exactly those; what the caller received and what is queued is a prefix of them, and
  while nobody left it is all of them but the one in hand. The channel is bounded. A cancellation
  needs a caller that left; without one the end of the task means that the whole body was read and
  tells how it ended. The end of the body is visible only when everything sent was received.
\<close>

definition flow_inv :: "'e pump \<Rightarrow> 'e pump \<Rightarrow> bytes list \<Rightarrow> bool" where
  "flow_inv s0 st cs \<longleftrightarrow>
     pm_upstream s0 = cs @ pm_upstream st \<and>
     prefix (pm_received st @ ch_queue (pm_chan st)) cs \<and>
     (ch_rx_alive (pm_chan st) \<and> \<not> cancelled st \<longrightarrow>
        cs = pm_received st @ ch_queue (pm_chan st) @ in_hand (pm_phase st)) \<and>
     ch_cap (pm_chan st) = RESPONSE_CHANNEL_CAPACITY \<and>
     length (ch_queue (pm_chan st)) \<le> RESPONSE_CHANNEL_CAPACITY"

definition caller_inv :: "'e pump \<Rightarrow> bool" where
  "caller_inv st \<longleftrightarrow>
     (pm_body_alive st \<longrightarrow> ch_rx_alive (pm_chan st) \<and> \<not> pm_notified st \<and> \<not> cancelled st) \<and>
     (pm_tx st \<longleftrightarrow> pm_phase st \<notin> {Closed, Finished}) \<and>
     (pm_eof st \<longrightarrow> \<not> pm_tx st \<and> ch_queue (pm_chan st) = []) \<and>
     (\<not> pm_body_alive st \<and> working (pm_phase st) \<longrightarrow> pm_notified st)"

definition outcome_inv :: "'e pump \<Rightarrow> bool" where
  "outcome_inv st \<longleftrightarrow>
     (pm_phase st \<in> {Selected True, Closed, Finished} \<and> \<not> cancelled st \<longrightarrow>
        pm_upstream st = [] \<and>
        pm_outcome st = (if pm_clean_end st then Completed else UpstreamInterrupted)) \<and>
     (pm_outcome st = ClientCancelled \<longrightarrow> pm_phase st \<in> {Closed, Finished}) \<and>
     (working (pm_phase st) \<or> pm_phase st = Selected False \<longrightarrow> pm_outcome st = Completed)"

text \<open>What never changes during the task.\<close>

definition same_request :: "'e pump \<Rightarrow> 'e pump \<Rightarrow> bool" where
  "same_request s0 st \<longleftrightarrow>
     pm_machine st = pm_machine s0 \<and> pm_operation st = pm_operation s0 \<and>
     pm_status st = pm_status s0 \<and> pm_success st = pm_success s0 \<and>
     pm_clean_end st = pm_clean_end s0"

text \<open>
  The mirrors and the record: until the end the observers have seen exactly the chunks read, and
  nothing is recorded; at the end the metered paths have recorded exactly one line, made from them.
\<close>

definition record_inv ::
  "'d effort_lib \<Rightarrow> 'v json_lib \<Rightarrow> sse_lib \<Rightarrow> 'e pump \<Rightarrow> 'e pump \<Rightarrow> bytes list \<Rightarrow> bool" where
  "record_inv D J E s0 st cs \<longleftrightarrow>
     (if pm_phase st \<noteq> Finished
      then pm_recorded st = [] \<and>
           pm_parser st = map_option (\<lambda>p. foldl push p cs) (pm_parser s0) \<and>
           (\<exists>ps. pm_request s0 = ps @ pm_request st \<and>
                 pm_effort st = fst (mirror_polls (pm_effort s0) ps))
      else case (pm_parser s0, pm_operation s0) of
             (Some p, Some oper) \<Rightarrow>
               (\<exists>ev now ps. prefix ps (pm_request s0) \<and>
                  pm_recorded st =
                    [audit_record ev now (pm_machine s0) oper (pm_status s0) (pm_success s0)
                       (pm_outcome st) (finalize J E (foldl push p cs))
                       (snd (observed_effort D (fst (mirror_polls (pm_effort s0) ps))))])
           | _ \<Rightarrow> pm_recorded st = [])"

text \<open>The caller sees the end of the body only after all of it.\<close>

definition eof_inv :: "'e pump \<Rightarrow> 'e pump \<Rightarrow> bool" where
  "eof_inv s0 st \<longleftrightarrow> (pm_eof st \<longrightarrow> pm_received st = pm_upstream s0)"

definition pump_inv ::
  "'d effort_lib \<Rightarrow> 'v json_lib \<Rightarrow> sse_lib \<Rightarrow> 'e pump \<Rightarrow> 'e pump \<Rightarrow> bool" where
  "pump_inv D J E s0 st \<longleftrightarrow>
     same_request s0 st \<and> caller_inv st \<and> outcome_inv st \<and> eof_inv s0 st \<and>
     (\<exists>cs. flow_inv s0 st cs \<and> record_inv D J E s0 st cs)"

lemma pump_record_frame [simp]:
  "pm_machine (pump_record D J E ev now st) = pm_machine st"
  "pm_operation (pump_record D J E ev now st) = pm_operation st"
  "pm_status (pump_record D J E ev now st) = pm_status st"
  "pm_success (pump_record D J E ev now st) = pm_success st"
  "pm_clean_end (pump_record D J E ev now st) = pm_clean_end st"
  "pm_upstream (pump_record D J E ev now st) = pm_upstream st"
  "pm_request (pump_record D J E ev now st) = pm_request st"
  "pm_chan (pump_record D J E ev now st) = pm_chan st"
  "pm_tx (pump_record D J E ev now st) = pm_tx st"
  "pm_notified (pump_record D J E ev now st) = pm_notified st"
  "pm_phase (pump_record D J E ev now st) = Finished"
  "pm_outcome (pump_record D J E ev now st) = pm_outcome st"
  "pm_body_alive (pump_record D J E ev now st) = pm_body_alive st"
  "pm_received (pump_record D J E ev now st) = pm_received st"
  "pm_eof (pump_record D J E ev now st) = pm_eof st"
  by (simp_all add: pump_record_def Let_def split: option.splits prod.splits)

lemma same_request_step:
  "pump_step D J E st st' \<Longrightarrow> same_request s0 st \<Longrightarrow> same_request s0 st'"
  by (erule pump_stepE) (simp_all add: same_request_def)

lemma ch_try_send_SentD: "ch_try_send c x = (c', Sent) \<Longrightarrow>
    ch_queue c' = ch_queue c @ [x] \<and> ch_cap c' = ch_cap c \<and> ch_rx_alive c \<and> ch_rx_alive c' \<and>
    length (ch_queue c) < ch_cap c"
  by (auto simp: ch_try_send_def split: if_splits)

lemma ch_try_send_DisconnectedD: "ch_try_send c x = (c', Disconnected) \<Longrightarrow> \<not> ch_rx_alive c"
  by (auto simp: ch_try_send_def split: if_splits)

lemma ch_try_recv_SomeD: "ch_try_recv c = (c', Some x) \<Longrightarrow>
    ch_queue c = x # ch_queue c' \<and> ch_cap c' = ch_cap c \<and> ch_rx_alive c' = ch_rx_alive c"
  by (auto simp: ch_try_recv_def split: list.splits)

lemma ch_try_recv_NoneD: "ch_try_recv c = (c', None) \<Longrightarrow> ch_queue c = [] \<and> c' = c"
  by (auto simp: ch_try_recv_def split: list.splits)

lemmas chan_dests =
  ch_try_send_SentD ch_try_send_DisconnectedD ch_try_recv_SomeD ch_try_recv_NoneD

lemma ch_drop_rx_simps [simp]:
  "ch_queue (ch_drop_rx c) = []" "ch_rx_alive (ch_drop_rx c) = False" "ch_cap (ch_drop_rx c) = ch_cap c"
  by (simp_all add: ch_drop_rx_def)

lemma working_iff: "working ph \<longleftrightarrow> ph = NextChunk \<or> (\<exists>bs. ph = Sending bs)"
  by (cases ph) auto

lemma outcome_step:
  "pump_step D J E st st' \<Longrightarrow> outcome_inv st \<Longrightarrow> outcome_inv st'"
  by (erule pump_stepE) (auto simp: outcome_inv_def cancelled_def split: if_splits)

lemma caller_step:
  "pump_step D J E st st' \<Longrightarrow> caller_inv st \<Longrightarrow> caller_inv st'"
  by (erule pump_stepE)
    (auto simp: caller_inv_def cancelled_def dest!: chan_dests split: if_splits)

text \<open>The steps that read a chunk extend the chunks read; all others keep them.\<close>

definition read_by_step :: "'e pump \<Rightarrow> 'e pump \<Rightarrow> bytes list" where
  "read_by_step st st' = take (length (pm_upstream st) - length (pm_upstream st')) (pm_upstream st)"

lemma read_by_step_none: "pm_upstream st' = pm_upstream st \<Longrightarrow> read_by_step st st' = []"
  by (simp add: read_by_step_def)

lemma read_by_step_one: "pm_upstream st = bs # pm_upstream st' \<Longrightarrow> read_by_step st st' = [bs]"
  by (simp add: read_by_step_def)

lemma flow_step:
  assumes "pump_step D J E st st'" and "outcome_inv st" and flow: "flow_inv s0 st cs"
  shows "flow_inv s0 st' (cs @ read_by_step st st')"
  using assms(1)
proof (cases rule: pump_step.cases)
  case (next_chunk bs rest)
  with flow show ?thesis
    by (auto simp: flow_inv_def cancelled_def read_by_step_one)
next
  case next_err
  with assms(2) flow show ?thesis
    by (simp add: flow_inv_def cancelled_def outcome_inv_def read_by_step_none)
next
  case (send_ok bs c)
  with assms(2) flow ch_try_send_SentD [OF send_ok(3)] show ?thesis
    by (simp add: flow_inv_def cancelled_def outcome_inv_def read_by_step_none)
next
  case (caller_recv c bs)
  with flow ch_try_recv_SomeD [OF caller_recv(3)] show ?thesis
    by (simp add: flow_inv_def cancelled_def read_by_step_none)
next
  case drop_inner
  with flow show ?thesis
    by (auto simp: flow_inv_def read_by_step_none dest: append_prefixD)
next
  case (close completed)
  with flow show ?thesis
    by (cases completed) (simp_all add: flow_inv_def cancelled_def read_by_step_none)
qed (use flow in \<open>simp_all add: flow_inv_def cancelled_def read_by_step_none\<close>)

lemma mirror_polls_snoc:
  "fst (mirror_polls eff (ps @ [p])) = fst (mirror_poll_next (fst (mirror_polls eff ps)) p)"
  by (induction ps arbitrary: eff) (simp_all add: Let_def case_prod_unfold)

lemma write_record_step:
  assumes "pm_phase st = Closed" and "same_request s0 st" and "record_inv D J E s0 st cs"
  shows "record_inv D J E s0 (pump_record D J E ev now st) cs"
proof -
  from assms obtain ps where ps: "pm_request s0 = ps @ pm_request st"
      "pm_effort st = fst (mirror_polls (pm_effort s0) ps)" "pm_recorded st = []"
      "pm_parser st = map_option (\<lambda>p. foldl push p cs) (pm_parser s0)"
    by (auto simp: record_inv_def)
  then have "prefix ps (pm_request s0)" by simp
  with assms(2) ps(2-4) show ?thesis
    by (auto simp: record_inv_def pump_record_def same_request_def Let_def
        split: option.splits prod.splits) (metis snd_conv)+
qed

lemma request_poll_step:
  assumes "pm_request st = p # ps" and "mirror_poll_next (pm_effort st) p = (eff, p')"
    and "record_inv D J E s0 st cs"
  shows "record_inv D J E s0 (st\<lparr>pm_effort := eff, pm_request := ps\<rparr>) cs"
proof (cases "pm_phase st = Finished")
  case True
  with assms(3) show ?thesis by (auto simp: record_inv_def split: option.splits)
next
  case False
  with assms(3) obtain qs where qs: "pm_request s0 = qs @ pm_request st"
      "pm_effort st = fst (mirror_polls (pm_effort s0) qs)"
    by (auto simp: record_inv_def)
  then have "pm_request s0 = (qs @ [p]) @ ps" "eff = fst (mirror_polls (pm_effort s0) (qs @ [p]))"
    using assms(1,2) mirror_polls_snoc [of "pm_effort s0" qs p] by simp_all
  with False assms(3) show ?thesis by (auto simp: record_inv_def)
qed

lemma record_inv_keep:
  assumes "record_inv D J E s0 st cs"
    and "pm_recorded st' = pm_recorded st" "pm_parser st' = pm_parser st"
      "pm_request st' = pm_request st" "pm_effort st' = pm_effort st"
      "pm_phase st' = Finished \<longleftrightarrow> pm_phase st = Finished"
      "pm_phase st = Finished \<Longrightarrow> pm_outcome st' = pm_outcome st"
  shows "record_inv D J E s0 st' cs"
  using assms by (cases "pm_phase st = Finished") (simp_all add: record_inv_def cong: option.case_cong)

lemma record_step:
  assumes "pump_step D J E st st'" and "same_request s0 st" and "record_inv D J E s0 st cs"
  shows "record_inv D J E s0 st' (cs @ read_by_step st st')"
  using assms(1)
proof (cases rule: pump_step.cases)
  case (next_chunk bs rest)
  with assms(3) show ?thesis
    by (auto simp: record_inv_def read_by_step_one option.map_comp comp_def)
next
  case (write_record ev now)
  with write_record_step assms(2,3) show ?thesis by (simp add: read_by_step_none)
next
  case (request_poll p ps eff p')
  with request_poll_step assms(3) show ?thesis by (simp add: read_by_step_none)
qed (auto simp: read_by_step_none intro!: record_inv_keep [OF assms(3)])

lemma eof_step:
  assumes "pump_step D J E st st'" and "caller_inv st" and "outcome_inv st" and "flow_inv s0 st cs"
    and "eof_inv s0 st"
  shows "eof_inv s0 st'"
  using assms(1)
proof (cases rule: pump_step.cases)
  case (caller_eof c)
  with assms(2) have "ch_rx_alive (pm_chan st)" "\<not> cancelled st" "pm_phase st \<in> {Closed, Finished}"
    by (auto simp: caller_inv_def)
  with assms(3,4) caller_eof ch_try_recv_NoneD [OF caller_eof(3)] show ?thesis
    by (auto simp: eof_inv_def flow_inv_def outcome_inv_def)
next
  case (caller_recv c bs)
  with assms(2) ch_try_recv_SomeD [OF caller_recv(3)] show ?thesis
    by (auto simp: eof_inv_def caller_inv_def)
qed (use assms(5) in \<open>simp_all add: eof_inv_def\<close>)

lemma pump_step_inv: "pump_step D J E st st' \<Longrightarrow> pump_inv D J E s0 st \<Longrightarrow> pump_inv D J E s0 st'"
  unfolding pump_inv_def
  using same_request_step caller_step outcome_step flow_step record_step eof_step by metis

lemma pump_init_inv:
  "s0 = pump_init mid oper status success h eff polls chunks clean \<Longrightarrow> pump_inv D J E s0 s0"
  by (auto simp: pump_inv_def same_request_def caller_inv_def outcome_inv_def cancelled_def eof_inv_def
      flow_inv_def record_inv_def pump_init_def channel_new_def intro!: exI [of _ "[]"])

lemma pump_reach_inv:
  assumes "pump_reach D J E s0 st" and "s0 = pump_init mid oper status success h eff polls chunks clean"
  shows "pump_inv D J E s0 st"
  using assms(1) unfolding pump_reach_def
proof (induction rule: rtranclp_induct)
  case base
  show ?case by (rule pump_init_inv [OF assms(2)])
next
  case (step y z)
  then show ?case by (blast intro: pump_step_inv)
qed

section \<open>Termination and progress\<close>

fun phase_weight :: "phase \<Rightarrow> nat" where
  "phase_weight NextChunk = 3"
| "phase_weight (Sending _) = 5"
| "phase_weight (Selected _) = 2"
| "phase_weight Closed = 1"
| "phase_weight Finished = 0"

definition work_left :: "'e pump \<Rightarrow> nat" where
  "work_left st =
     5 * length (pm_upstream st) + phase_weight (pm_phase st) + length (ch_queue (pm_chan st)) +
     length (pm_request st) + of_bool (\<not> pm_eof st) + of_bool (pm_body_alive st) +
     of_bool (ch_rx_alive (pm_chan st))"

lemma work_left_decreases: "pump_step D J E st st' \<Longrightarrow> work_left st' < work_left st"
  by (erule pump_stepE) (auto simp: work_left_def dest!: chan_dests)

lemma pump_progress:
  assumes "caller_inv st" and "pm_phase st \<noteq> Finished"
    and "ch_cap (pm_chan st) = RESPONSE_CHANNEL_CAPACITY"
  shows "\<exists>st'. pump_step D J E st st' \<and> pm_body_alive st' = pm_body_alive st"
proof (cases "pm_phase st")
  case NextChunk
  then show ?thesis
    using next_chunk [OF NextChunk] next_end [OF NextChunk] next_err [OF NextChunk]
    by (cases "pm_upstream st"; cases "pm_clean_end st") fastforce+
next
  case (Sending bs)
  obtain c r where cr: "ch_try_send (pm_chan st) bs = (c, r)" by force
  show ?thesis
  proof (cases r)
    case Sent
    with cr send_ok [OF Sending] show ?thesis by fastforce
  next
    case Disconnected
    with cr send_err [OF Sending] show ?thesis by fastforce
  next
    case Full
    show ?thesis
    proof (cases "pm_body_alive st")
      case True
      from cr Full assms(3) have "ch_queue (pm_chan st) \<noteq> []"
        using chan.send_Full [of "pm_chan st" bs c] by (auto simp: RESPONSE_CHANNEL_CAPACITY_def)
      then obtain c' b where "ch_try_recv (pm_chan st) = (c', Some b)"
        by (cases "ch_queue (pm_chan st)") (simp_all add: ch_try_recv_def)
      with caller_recv [OF True] show ?thesis by fastforce
    next
      case False
      with assms(1) Sending gone [of st bs] show ?thesis by (fastforce simp: caller_inv_def)
    qed
  qed
next
  case (Selected b)
  with close show ?thesis by fastforce
next
  case Closed
  with write_record show ?thesis by fastforce
qed (use assms(2) in simp)

lemma pump_step_wf: "wfP (\<lambda>st' st. pump_step D J E st st')"
  by (rule wfp_if_convertible_to_nat [where f = work_left]) (rule work_left_decreases)

section \<open>A run that delivers everything\<close>

text \<open>Between two chunks, with a caller that is waiting.\<close>

definition waiting :: "bool \<Rightarrow> 'e pump \<Rightarrow> bytes list \<Rightarrow> bytes list \<Rightarrow> bool" where
  "waiting clean st todo got \<longleftrightarrow>
     pm_phase st = NextChunk \<and> pm_upstream st = todo \<and> pm_received st = got \<and>
     pm_body_alive st \<and> pm_tx st \<and> \<not> pm_eof st \<and> pm_clean_end st = clean \<and>
     pm_outcome st = Completed \<and> ch_queue (pm_chan st) = [] \<and> ch_rx_alive (pm_chan st) \<and>
     ch_cap (pm_chan st) = RESPONSE_CHANNEL_CAPACITY"

lemma deliver_chunk:
  assumes "waiting clean st (b # todo) got"
  obtains st' where "pump_reach D J E st st'" and "waiting clean st' todo (got @ [b])"
proof -
  define s1 where "s1 = st\<lparr>pm_upstream := todo,
    pm_parser := map_option (\<lambda>p. push p b) (pm_parser st), pm_phase := Sending b\<rparr>"
  define c1 where "c1 = (pm_chan st)\<lparr>ch_queue := [b]\<rparr>"
  define s2 where "s2 = s1\<lparr>pm_chan := c1, pm_phase := NextChunk\<rparr>"
  define s3 where "s3 = s2\<lparr>pm_chan := c1\<lparr>ch_queue := []\<rparr>, pm_received := got @ [b]\<rparr>"
  have "pump_step D J E st s1"
    using assms next_chunk [of st b todo] by (simp add: waiting_def s1_def)
  moreover have "pump_step D J E s1 s2"
    using assms send_ok [of s1 b c1]
    by (simp add: waiting_def s2_def s1_def c1_def ch_try_send_def RESPONSE_CHANNEL_CAPACITY_def)
  moreover have "pump_step D J E s2 s3"
    using assms caller_recv [of s2 "c1\<lparr>ch_queue := []\<rparr>" b]
    by (simp add: waiting_def s3_def s2_def s1_def c1_def ch_try_recv_def)
  ultimately have "pump_reach D J E st s3" by (simp add: pump_reach_def)
  moreover have "waiting clean s3 todo (got @ [b])"
    using assms by (simp add: waiting_def s3_def s2_def s1_def c1_def)
  ultimately show thesis by (rule that)
qed

lemma deliver_chunks:
  "waiting clean st todo got \<Longrightarrow> \<exists>st'. pump_reach D J E st st' \<and> waiting clean st' [] (got @ todo)"
proof (induction todo arbitrary: st got)
  case Nil
  then show ?case by (auto simp: pump_reach_def)
next
  case (Cons b todo)
  from deliver_chunk [OF Cons.prems] obtain st1
    where "pump_reach D J E st st1" "waiting clean st1 todo (got @ [b])" .
  with Cons.IH [of st1 "got @ [b]"] show ?case
    by (auto simp: pump_reach_def intro: rtranclp_trans)
qed

lemma deliver_end:
  assumes "waiting clean st [] got"
  obtains st' where "pump_reach D J E st st'" and "pm_eof st'" and "pm_received st' = got"
    and "pm_phase st' = Finished" and "pm_outcome st' = (if clean then Completed else UpstreamInterrupted)"
proof -
  define s1 where "s1 = (if clean then st\<lparr>pm_phase := Selected True\<rparr>
    else st\<lparr>pm_outcome := UpstreamInterrupted, pm_phase := Selected True\<rparr>)"
  define s2 where "s2 = s1\<lparr>pm_outcome := (if True then pm_outcome s1 else ClientCancelled),
    pm_tx := False, pm_phase := Closed\<rparr>"
  define s3 where "s3 = s2\<lparr>pm_eof := True\<rparr>"
  define s4 where "s4 = pump_record D J E [] [] s3"
  have "pump_step D J E st s1"
    using assms next_end [of st] next_err [of st] by (cases clean) (simp_all add: waiting_def s1_def)
  moreover have "pump_step D J E s1 s2"
    unfolding s2_def by (rule close) (simp add: s1_def)
  moreover have "pump_step D J E s2 s3"
    unfolding s3_def
    by (rule caller_eof [of _ "pm_chan s2"])
      (use assms in \<open>simp_all add: waiting_def s2_def s1_def ch_try_recv_def split: if_splits\<close>)
  moreover have "pump_step D J E s3 s4"
    unfolding s4_def by (rule write_record) (simp add: s3_def s2_def)
  ultimately have "pump_reach D J E st s4" by (simp add: pump_reach_def)
  moreover have "pm_eof s4" "pm_received s4 = got" "pm_phase s4 = Finished"
      "pm_outcome s4 = (if clean then Completed else UpstreamInterrupted)"
    using assms by (auto simp: waiting_def s4_def s3_def s2_def s1_def)
  ultimately show thesis by (rule that)
qed

lemma full_delivery:
  obtains st where "pump_reach D J E (pump_init mid oper status s h eff polls chunks clean) st"
    and "pm_eof st" and "pm_received st = chunks" and "pm_phase st = Finished"
    and "pm_outcome st = (if clean then Completed else UpstreamInterrupted)"
proof -
  let ?s0 = "pump_init mid oper status s h eff polls chunks clean"
  have "waiting clean ?s0 chunks []" by (simp add: waiting_def pump_init_def channel_new_def)
  from deliver_chunks [OF this, of D J E] obtain st1
    where s1: "pump_reach D J E ?s0 st1" "waiting clean st1 [] chunks" by auto
  from deliver_end [OF s1(2), of D J E] obtain st2
    where s2: "pump_reach D J E st1 st2" "pm_eof st2" "pm_received st2 = chunks"
      "pm_phase st2 = Finished" "pm_outcome st2 = (if clean then Completed else UpstreamInterrupted)" .
  show thesis
    by (rule that [OF _ s2(2-5)]) (use s1(1) s2(1) in \<open>auto simp: pump_reach_def\<close>)
qed

section \<open>What holds in every reachable state\<close>

lemma reach_flow:
  assumes "pump_reach D J E (pump_init mid oper status s h eff polls chunks clean) st"
  shows "\<exists>cs. chunks = cs @ pm_upstream st \<and>
    prefix (pm_received st @ ch_queue (pm_chan st)) cs \<and>
    (pm_body_alive st \<longrightarrow> cs = pm_received st @ ch_queue (pm_chan st) @ in_hand (pm_phase st)) \<and>
    length (ch_queue (pm_chan st)) \<le> 16 \<and>
    pm_recorded st = (if pm_phase st = Finished then pm_recorded st else []) \<and>
    (pm_phase st = Finished \<longrightarrow>
      (case oper of
         None \<Rightarrow> pm_recorded st = []
       | Some op \<Rightarrow> \<exists>ev now ps. prefix ps polls \<and>
           pm_recorded st = [audit_record ev now mid op status s (pm_outcome st)
             (finalize J E (foldl push (StreamUsageParser_new h) cs))
             (snd (observed_effort D (fst (mirror_polls eff ps))))]))"
proof -
  let ?s0 = "pump_init mid oper status s h eff polls chunks clean"
  from pump_reach_inv [OF assms refl] obtain cs where
    inv: "caller_inv st" "flow_inv ?s0 st cs" "record_inv D J E ?s0 st cs"
    by (auto simp: pump_inv_def)
  then show ?thesis
    by (intro exI [of _ cs])
      (auto simp: flow_inv_def caller_inv_def record_inv_def pump_init_def
        RESPONSE_CHANNEL_CAPACITY_def split: option.splits if_splits)
qed

lemma reach_outcome:
  assumes "pump_reach D J E (pump_init mid oper status s h eff polls chunks clean) st"
    and "pm_phase st = Finished"
  shows "if pm_outcome st = ClientCancelled then \<not> pm_body_alive st
    else pm_upstream st = [] \<and> pm_outcome st = (if clean then Completed else UpstreamInterrupted)"
  using pump_reach_inv [OF assms(1) refl] assms(2)
  by (auto simp: pump_inv_def caller_inv_def outcome_inv_def same_request_def cancelled_def
      pump_init_def)

lemma length_in_hand: "length (in_hand ph) \<le> 1"
  by (cases ph) simp_all

lemma pump_recorded:
  assumes "pump_reach D J E (pump_init mid oper status s h eff polls chunks clean) st"
  shows "if pm_phase st \<noteq> Finished \<or> oper = None then pm_recorded st = []
    else \<exists>cs ev now ps.
      pm_recorded st =
        [audit_record ev now mid (the oper) status s (pm_outcome st)
           (finalize J E (foldl push (StreamUsageParser_new h) cs))
           (snd (observed_effort D (fst (mirror_polls eff ps))))] \<and>
      prefix ps polls \<and> prefix cs chunks \<and> prefix (pm_received st) cs \<and>
      list_all record_ok (pm_recorded st) \<and>
      (if pm_outcome st = ClientCancelled then \<not> pm_body_alive st
       else cs = chunks \<and> pm_outcome st = (if clean then Completed else UpstreamInterrupted))"
proof (cases "pm_phase st = Finished \<and> oper \<noteq> None")
  case False
  then show ?thesis using reach_flow [OF assms] by (auto split: if_splits option.splits)
next
  case True
  then obtain op where op: "oper = Some op" and fin: "pm_phase st = Finished" by blast
  then obtain cs ev now ps where cs: "chunks = cs @ pm_upstream st"
      "prefix (pm_received st @ ch_queue (pm_chan st)) cs" "prefix ps polls"
      "pm_recorded st = [audit_record ev now mid op status s (pm_outcome st)
         (finalize J E (foldl push (StreamUsageParser_new h) cs))
         (snd (observed_effort D (fst (mirror_polls eff ps))))]"
    using reach_flow [OF assms] by auto
  note oc = reach_outcome [OF assms fin]
  have "pm_outcome st \<in> {Completed, UpstreamInterrupted, ClientCancelled}"
    using oc by (auto split: if_splits)
  then have "list_all record_ok (pm_recorded st)"
    using cs(4) audit_record_ok [OF parsed_after] by simp
  moreover have "prefix (pm_received st) cs" using cs(2) by (rule append_prefixD)
  moreover have "prefix cs chunks" using cs(1) by simp
  moreover have "if pm_outcome st = ClientCancelled then \<not> pm_body_alive st
      else cs = chunks \<and> pm_outcome st = (if clean then Completed else UpstreamInterrupted)"
    using oc cs(1) by (simp split: if_splits)
  moreover have "\<not> (pm_phase st \<noteq> Finished \<or> oper = None)" "op = the oper" using op fin by simp_all
  ultimately show ?thesis using cs(3,4) by (metis (no_types, lifting))
qed

section \<open>Properties\<close>

text \<open>
  (C3) Transparent streaming with back-pressure: at every moment of every run, the caller has
  received a prefix of the upstream's chunks, in order and unchanged; it sees the end of the body
  only after all of them; the response channel holds at most 16 chunks, and while the caller stays
  the gateway has read at most 17 chunks more than the caller has taken.
\<close>

theorem pump_transparent:
  assumes "pump_reach D J E (pump_init mid oper status s h eff polls chunks clean) st"
  shows "prefix (pm_received st) chunks \<and>
    (pm_eof st \<longrightarrow> pm_received st = chunks) \<and>
    length (ch_queue (pm_chan st)) \<le> 16 \<and>
    (pm_body_alive st \<longrightarrow>
      length chunks - length (pm_upstream st) \<le> length (pm_received st) + 17)"
proof -
  obtain cs where cs: "chunks = cs @ pm_upstream st"
      "prefix (pm_received st @ ch_queue (pm_chan st)) cs"
      "pm_body_alive st \<longrightarrow> cs = pm_received st @ ch_queue (pm_chan st) @ in_hand (pm_phase st)"
      "length (ch_queue (pm_chan st)) \<le> 16"
    using reach_flow [OF assms] by blast
  have "prefix (pm_received st) chunks" using cs(1,2) by (auto simp: prefix_def)
  moreover have "pm_eof st \<longrightarrow> pm_received st = chunks"
    using pump_reach_inv [OF assms refl] by (simp add: pump_inv_def eof_inv_def pump_init_def)
  moreover have "length cs \<le> length (pm_received st) + 17" if "pm_body_alive st"
    using that cs(3,4) length_in_hand [of "pm_phase st"] by simp
  ultimately show ?thesis using cs(1,4) by simp
qed

theorem pump_transparent_witness:
  "\<exists>st. pump_reach inert_effort inert_json inert_sse
       (pump_init ''m'' None 200 True None None ([] :: unit poll list) [''ab'', ''c''] True) st \<and>
     pm_eof st \<and> pm_received st = [''ab'', ''c''] \<and> length (ch_queue (pm_chan st)) \<le> 16"
proof -
  obtain st where st: "pump_reach inert_effort inert_json inert_sse
      (pump_init ''m'' None 200 True None None ([] :: unit poll list) [''ab'', ''c''] True) st"
    and "pm_eof st"
    by (rule full_delivery)
  with pump_transparent [OF st] show ?thesis by blast
qed

text \<open>
  (C7) One record per metered request, none otherwise, and its content: nothing is recorded before
  the task ends, and when it ends on a metered path exactly one record was offered. Its facts are
  those of the chunks the gateway had read, which contain everything the caller received, and its
  effort was read from a part of the request body. A cancellation is recorded only when the caller
  left; otherwise the whole body was read and the recorded outcome starts from how it ended. Every
  such record is well formed.
\<close>

theorem pump_records_once:
  assumes "pump_reach D J E (pump_init mid oper status s h eff polls chunks clean) st"
  shows "if pm_phase st \<noteq> Finished \<or> oper = None then pm_recorded st = []
    else \<exists>cs ev now ps.
      pm_recorded st =
        [audit_record ev now mid (the oper) status s (pm_outcome st)
           (finalize J E (foldl push (StreamUsageParser_new h) cs))
           (snd (observed_effort D (fst (mirror_polls eff ps))))] \<and>
      prefix ps polls \<and> prefix cs chunks \<and> prefix (pm_received st) cs \<and>
      list_all record_ok (pm_recorded st) \<and>
      (if pm_outcome st = ClientCancelled then \<not> pm_body_alive st
       else cs = chunks \<and> pm_outcome st = (if clean then Completed else UpstreamInterrupted))"
  by (rule pump_recorded [OF assms])

theorem pump_records_once_witness:
  "\<exists>st. pump_reach inert_effort inert_json inert_sse
       (pump_init ''m'' (Some Response) 200 True None None ([] :: unit poll list) [''ab''] False) st \<and>
     length (pm_recorded st) = 1 \<and> list_all record_ok (pm_recorded st) \<and>
     pm_outcome st = UpstreamInterrupted"
proof -
  obtain st where st: "pump_reach inert_effort inert_json inert_sse
      (pump_init ''m'' (Some Response) 200 True None None ([] :: unit poll list) [''ab''] False) st"
    and "pm_phase st = Finished" and "pm_outcome st = UpstreamInterrupted"
    by (rule full_delivery [where clean = False]) simp
  with pump_records_once [OF st] show ?thesis by auto
qed

text \<open>
  (C17) The task always ends: no run is infinite, and in every reachable state before the end some
  step is possible that does not need the caller to leave, so neither a full channel nor a slow
  caller can deadlock it.
\<close>

theorem pump_terminates:
  "wfP (\<lambda>st' st. pump_step D J E st st') \<and>
   (pump_reach D J E (pump_init mid oper status s h eff polls chunks clean) st \<longrightarrow>
      pm_phase st = Finished \<or>
      (\<exists>st'. pump_step D J E st st' \<and> pm_body_alive st' = pm_body_alive st))"
proof -
  have "\<exists>st'. pump_step D J E st st' \<and> pm_body_alive st' = pm_body_alive st"
    if "pump_reach D J E (pump_init mid oper status s h eff polls chunks clean) st"
      "pm_phase st \<noteq> Finished"
    using pump_reach_inv [OF that(1) refl] that(2)
    by (auto simp: pump_inv_def flow_inv_def intro: pump_progress)
  with pump_step_wf [of D J E] show ?thesis by blast
qed

theorem pump_terminates_witness:
  "let st = pump_init ''m'' None 200 True None None ([] :: unit poll list) [''ab''] True in
     pump_reach inert_effort inert_json inert_sse st st \<and>
     (\<exists>st'. pump_step inert_effort inert_json inert_sse st st' \<and> pm_body_alive st')"
proof -
  let ?st = "pump_init ''m'' None 200 True None None ([] :: unit poll list) [''ab''] True"
  have r: "pump_reach inert_effort inert_json inert_sse ?st ?st" by (simp add: pump_reach_def)
  moreover have "pm_phase ?st \<noteq> Finished" "pm_body_alive ?st" by (simp_all add: pump_init_def)
  ultimately show ?thesis
    using pump_terminates [of inert_effort inert_json inert_sse "''m''" None 200 True None None
        "[] :: unit poll list" "[''ab'']" True ?st]
    by (auto simp: Let_def)
qed

text \<open>
  (C24) Cancellation is prompt: whenever the caller has left while the task is still pumping, the task
  can stop at once, whatever the upstream does or does not send, without reading another chunk.
\<close>

theorem cancellation_prompt:
  assumes "pump_reach D J E (pump_init mid oper status s h eff polls chunks clean) st"
    and "\<not> pm_body_alive st" and "working (pm_phase st)"
  shows "\<exists>st'. pump_step D J E st st' \<and> pm_phase st' = Selected False \<and>
    pm_upstream st' = pm_upstream st \<and> pm_parser st' = pm_parser st"
proof -
  have "pm_notified st"
    using pump_reach_inv [OF assms(1) refl] assms(2,3) by (simp add: pump_inv_def caller_inv_def)
  moreover obtain bs where "pm_phase st = NextChunk \<or> pm_phase st = Sending bs"
    using assms(3) by (auto simp: working_iff)
  ultimately show ?thesis using gone [of st bs D J E] by fastforce
qed

theorem cancellation_prompt_witness:
  "\<exists>st st'. pump_reach inert_effort inert_json inert_sse
       (pump_init ''m'' None 200 True None None ([] :: unit poll list) [''ab''] True) st \<and>
     pump_step inert_effort inert_json inert_sse st st' \<and> pm_phase st' = Selected False \<and>
     pm_upstream st' = [''ab'']"
proof -
  let ?s0 = "pump_init ''m'' None 200 True None None ([] :: unit poll list) [''ab''] True"
  let ?st = "?s0\<lparr>pm_body_alive := False, pm_notified := True\<rparr>"
  have "pump_step inert_effort inert_json inert_sse ?s0 ?st"
    using caller_drop [of ?s0] by (simp add: pump_init_def)
  then have r: "pump_reach inert_effort inert_json inert_sse ?s0 ?st" by (simp add: pump_reach_def)
  have "\<exists>st'. pump_step inert_effort inert_json inert_sse ?st st' \<and> pm_phase st' = Selected False \<and>
      pm_upstream st' = pm_upstream ?st \<and> pm_parser st' = pm_parser ?st"
    by (rule cancellation_prompt [OF r]) (simp_all add: pump_init_def)
  then have "\<exists>st'. pump_step inert_effort inert_json inert_sse ?st st' \<and>
      pm_phase st' = Selected False \<and> pm_upstream st' = [''ab'']"
    by (simp add: pump_init_def) blast
  with r show ?thesis by blast
qed

text \<open>
  (C40) Every body can be delivered in full, and an interruption is not visible to the caller: whether
  the upstream stream ends cleanly or breaks off after the same chunks, there is a run that gives the
  caller all those chunks followed by a regular end of body. Only the audit record tells the two
  apart.
\<close>

theorem interruption_invisible:
  "\<exists>st. pump_reach D J E (pump_init mid oper status s h eff polls chunks clean) st \<and>
     pm_phase st = Finished \<and> pm_received st = chunks \<and> pm_eof st \<and>
     pm_outcome st = (if clean then Completed else UpstreamInterrupted)"
  by (rule full_delivery) blast

end
