(* ===== verification/BTree.thy ===== *)
theory BTree
  imports Rust_Std
begin

text \<open>
  \<open>std::collections::BTreeMap\<close>: the ordered-map interface the program uses (\<open>new\<close>, \<open>get\<close>,
  \<open>insert\<close>, \<open>entry(k).or_default()\<close> followed by an update in place, and iteration in key order),
  the generic grouping lemmas every client of the interface inherits, and the interpretation of
  the interface on strictly sorted association lists.
\<close>

section \<open>The interface\<close>

lemma alist_by_keys:
  assumes "distinct (map fst xs)"
  shows "xs = map (\<lambda>k. (k, the (map_of xs k))) (map fst xs)"
  using assms by (auto simp: map_map intro!: map_idI [symmetric])

locale ordered_map =
  fixes empty_map :: 'm
    and get :: "'m \<Rightarrow> 'k::linorder \<Rightarrow> 'v option"
    and update_at :: "'k \<Rightarrow> 'v \<Rightarrow> ('v \<Rightarrow> 'v) \<Rightarrow> 'm \<Rightarrow> 'm"
    and entries :: "'m \<Rightarrow> ('k \<times> 'v) list"
    and invar :: "'m \<Rightarrow> bool"
  assumes get_empty: "get empty_map k = None"
    and get_update_at: "invar m \<Longrightarrow> get (update_at k d f m) k' =
      (if k' = k then Some (f (case get m k of None \<Rightarrow> d | Some v \<Rightarrow> v)) else get m k')"
    and invar_empty: "invar empty_map"
    and invar_update_at: "invar m \<Longrightarrow> invar (update_at k d f m)"
    and entries_sorted: "invar m \<Longrightarrow> sorted_wrt (<) (map fst (entries m))"
    and entries_get: "invar m \<Longrightarrow> get m k = map_of (entries m) k"
begin

lemma group_invar:
  "invar m \<Longrightarrow> invar (foldl (\<lambda>m x. update_at (key x) d (upd x) m) m xs)"
  by (induction xs arbitrary: m) (simp_all add: invar_update_at)

lemma group_from:
  assumes "invar m"
  shows "get (foldl (\<lambda>m x. update_at (key x) d (upd x) m) m xs) k =
    (let ys = filter (\<lambda>x. key x = k) xs in
     if ys = [] then get m k
     else Some (foldl (\<lambda>v x. upd x v) (case get m k of None \<Rightarrow> d | Some v \<Rightarrow> v) ys))"
  using assms
proof (induction xs arbitrary: m)
  case Nil
  then show ?case by simp
next
  case (Cons x xs)
  then show ?case
    by (auto simp: invar_update_at get_update_at Let_def split: option.splits)
qed

lemma group_get:
  "get (foldl (\<lambda>m x. update_at (key x) d (upd x) m) empty_map xs) k =
    (let ys = filter (\<lambda>x. key x = k) xs in
     if ys = [] then None else Some (foldl (\<lambda>v x. upd x v) d ys))"
  by (simp add: group_from [OF invar_empty] get_empty Let_def)

lemma entries_distinct: "invar m \<Longrightarrow> distinct (map fst (entries m))"
  using entries_sorted strict_sorted_iff by blast

lemma entries_keys: "invar m \<Longrightarrow> set (map fst (entries m)) = {k. get m k \<noteq> None}"
  by (simp add: entries_get map_of_eq_None_iff)

lemma entries_determined:
  assumes "invar m" and "invar n" and "get m = get n"
  shows "entries m = entries n"
proof -
  have "map fst (entries m) = map fst (entries n)"
    using entries_keys [OF assms(1)] entries_keys [OF assms(2)] assms(3)
    by (intro strict_sorted_equal entries_sorted assms) simp
  moreover have "map_of (entries m) = map_of (entries n)"
    using assms by (simp add: fun_eq_iff flip: entries_get)
  ultimately show ?thesis
    using alist_by_keys [of "entries m"] alist_by_keys [of "entries n"] assms
    by (simp add: entries_distinct)
qed

end

section \<open>Sorted association lists\<close>

type_synonym ('k, 'v) btree_map = "('k \<times> 'v) list"

fun bt_get :: "('k::linorder, 'v) btree_map \<Rightarrow> 'k \<Rightarrow> 'v option" where
  "bt_get [] k = None"
| "bt_get ((a, v) # m) k = (if k < a then None else if k = a then Some v else bt_get m k)"

text \<open>\<open>map.entry(k).or_insert(d)\<close>, then \<open>f\<close> applied to the value in place.\<close>

fun bt_update :: "'k::linorder \<Rightarrow> 'v \<Rightarrow> ('v \<Rightarrow> 'v) \<Rightarrow> ('k, 'v) btree_map \<Rightarrow> ('k, 'v) btree_map" where
  "bt_update k d f [] = [(k, f d)]"
| "bt_update k d f ((a, v) # m) =
     (if k < a then (k, f d) # (a, v) # m
      else if k = a then (a, f v) # m
      else (a, v) # bt_update k d f m)"

definition bt_insert :: "'k::linorder \<Rightarrow> 'v \<Rightarrow> ('k, 'v) btree_map \<Rightarrow> ('k, 'v) btree_map" where
  "bt_insert k v m = bt_update k v (\<lambda>_. v) m"

definition bt_invar :: "('k::linorder, 'v) btree_map \<Rightarrow> bool" where
  "bt_invar m \<longleftrightarrow> sorted_wrt (<) (map fst m)"

lemma bt_get_eq_map_of: "bt_invar m \<Longrightarrow> bt_get m k = map_of m k"
proof (induction m k rule: bt_get.induct)
  case (2 a v m k)
  then have "k < a \<Longrightarrow> map_of m k = None"
    by (force simp: bt_invar_def map_of_eq_None_iff)
  with 2 show ?case by (auto simp: bt_invar_def)
qed simp

lemma keys_bt_update: "set (map fst (bt_update k d f m)) = insert k (set (map fst m))"
  by (induction k d f m rule: bt_update.induct) auto

lemma bt_invar_update: "bt_invar m \<Longrightarrow> bt_invar (bt_update k d f m)"
proof (induction k d f m rule: bt_update.induct)
  case (2 k d f a v m)
  then show ?case
    using keys_bt_update [of k d f m] by (auto simp: bt_invar_def)
qed (simp add: bt_invar_def)

lemma map_of_bt_update:
  "bt_invar m \<Longrightarrow> map_of (bt_update k d f m) k' =
    (if k' = k then Some (f (case map_of m k of None \<Rightarrow> d | Some v \<Rightarrow> v)) else map_of m k')"
proof (induction k d f m rule: bt_update.induct)
  case (2 k d f a v m)
  then have "k < a \<Longrightarrow> map_of m k = None"
    by (force simp: bt_invar_def map_of_eq_None_iff)
  with 2 show ?case by (auto simp: bt_invar_def)
qed simp

interpretation bt: ordered_map "[]" bt_get bt_update "\<lambda>m. m" bt_invar
proof
  fix m :: "('k::linorder, 'v) btree_map" and k k' d f
  show "bt_invar m \<Longrightarrow> bt_get (bt_update k d f m) k' =
      (if k' = k then Some (f (case bt_get m k of None \<Rightarrow> d | Some v \<Rightarrow> v)) else bt_get m k')"
    by (simp add: bt_get_eq_map_of bt_invar_update map_of_bt_update)
qed (simp_all add: bt_get_eq_map_of bt_invar_update, simp_all add: bt_invar_def)

lemma bt_get_insert: "bt_invar m \<Longrightarrow> bt_get (bt_insert k v m) k' = (if k' = k then Some v else bt_get m k')"
  by (simp add: bt_insert_def bt.get_update_at)

lemma bt_invar_insert: "bt_invar m \<Longrightarrow> bt_invar (bt_insert k v m)"
  by (simp add: bt_insert_def bt.invar_update_at)

end
