(* ===== verification/Gateway.thy ===== *)
theory Gateway
  imports Headers Pump BTree
begin

text \<open>
  The request handler of \<^verbatim>\<open>src/src/lib.rs\<close>: the gateway with its constructors, the routes, and
  \<open>route_v1\<close> from authentication over the construction of the upstream URL and request to the
  response and the audit. What the upstream answers is an argument; the task that streams the
  response is a state of the pump.
\<close>

section \<open>Gateway and constructors\<close>

text \<open>The crates the handler calls.\<close>

record ('u, 'd, 'v) crates =
  cr_url :: "'u url_lib"
  cr_http :: http_lib
  cr_digest :: digest_lib
  cr_effort :: "'d effort_lib"
  cr_json :: "'v json_lib"
  cr_sse :: sse_lib

type_synonym MachineKeys = "(string, string) btree_map"

definition PRODUCTION_UPSTREAM_BASE :: string where
  "PRODUCTION_UPSTREAM_BASE = ''https://chatgpt.com/backend-api/codex/''"

text \<open>
  The writer is shared and mutable; it is passed beside the gateway. \<open>Panicked\<close> is a failed
  \<open>expect\<close>.
\<close>

record 'u Gateway =
  upstream_base :: 'u
  machine_keys :: MachineKeys

datatype 'e startup_error = IoError 'e | Panicked

definition for_tests :: "'u \<Rightarrow> MachineKeys \<Rightarrow> 'io + bytes \<Rightarrow> 'io startup_error + 'u Gateway \<times> AuditWriter" where
  "for_tests base keys opened =
     (case start opened of
        Inl _ \<Rightarrow> Inl Panicked
      | Inr audit \<Rightarrow> Inr (\<lparr>upstream_base = base, machine_keys = keys\<rparr>, audit))"

definition production ::
  "'u url_lib \<Rightarrow> MachineKeys \<Rightarrow> 'io + bytes \<Rightarrow> 'io startup_error + 'u Gateway \<times> AuditWriter" where
  "production U keys opened =
     (case start opened of
        Inl err \<Rightarrow> Inl (IoError err)
      | Inr audit \<Rightarrow>
          (case url_parse U PRODUCTION_UPSTREAM_BASE of
             None \<Rightarrow> Inl Panicked
           | Some base \<Rightarrow> Inr (\<lparr>upstream_base = base, machine_keys = keys\<rparr>, audit)))"

section \<open>Requests and responses\<close>

record Request =
  rq_method :: string
  rq_path :: string
  rq_query :: "string option"
  rq_headers :: headers

text \<open>A response made by the gateway itself, or the upstream's status and headers with the streamed body.\<close>

datatype Response = LocalResponse u16 string | StreamedResponse u16 headers

definition unauthorized :: Response where
  "unauthorized = LocalResponse 401 ''unauthorized''"

definition bad_request :: Response where
  "bad_request = LocalResponse 400 ''bad request''"

definition healthz :: Response where
  "healthz = LocalResponse 200 []"

definition digest_hex :: "digest_lib \<Rightarrow> string \<Rightarrow> string" where
  "digest_hex X key = hex_encode X (sha256 X key)"

section \<open>route\_v1 before the upstream is contacted\<close>

text \<open>The meter key: exactly one, readable, and its digest known.\<close>

definition authenticate :: "('u, 'd, 'v) crates \<Rightarrow> 'u Gateway \<Rightarrow> headers \<Rightarrow> string option" where
  "authenticate C gw hs =
     (case get_all hs ''x-meter-key'' of
        [key] \<Rightarrow>
          (case value_to_str (cr_http C) key of
             None \<Rightarrow> None
           | Some k \<Rightarrow> bt_get (machine_keys gw) (digest_hex (cr_digest C) k))
      | _ \<Rightarrow> None)"

definition path_suffix :: "string \<Rightarrow> string" where
  "path_suffix path = (case strip_prefix ''/v1'' path of Some s \<Rightarrow> s | None \<Rightarrow> path)"

definition operation_of :: "string \<Rightarrow> Operation option" where
  "operation_of path =
     (if path = ''/v1/responses'' then Some Response
      else if path = ''/v1/responses/compact'' then Some Compaction
      else None)"

definition effort_observer :: "http_lib \<Rightarrow> bool \<Rightarrow> headers \<Rightarrow> RequestEffort option" where
  "effort_observer H meter hs =
     (if meter
      then Some (RequestEffort_new (Option.bind (header_get hs ''content-encoding'') (value_to_str H)))
      else None)"

definition fixed_origin :: "'u url_lib \<Rightarrow> 'u \<Rightarrow> string" where
  "fixed_origin U base =
     (let b = url_set_fragment U (url_set_query U (url_set_path U base []) None) None
      in trim_end_matches (CHR ''/'') (url_to_string U b))"

definition candidate_path :: "'u url_lib \<Rightarrow> 'u \<Rightarrow> string \<Rightarrow> string" where
  "candidate_path U base rel =
     (let base_path = trim_end_matches (CHR ''/'') (url_path U base)
      in if rel = [] then base_path else base_path @ rel)"

text \<open>The upstream URL, or \<open>None\<close> where the request is refused.\<close>

definition upstream_url :: "'u url_lib \<Rightarrow> 'u \<Rightarrow> string \<Rightarrow> string option \<Rightarrow> 'u option" where
  "upstream_url U base rel query =
     (let candidate = candidate_path U base rel;
          query_part = (case query of None \<Rightarrow> [] | Some q \<Rightarrow> CHR ''?'' # q)
      in case url_parse U (fixed_origin U base @ candidate @ query_part) of
           None \<Rightarrow> None
         | Some parsed \<Rightarrow>
             (let origin_fixed = (url_scheme U parsed = url_scheme U base \<and>
                                  url_host_str U parsed = url_host_str U base)
              in if \<not> origin_fixed \<or> url_path U parsed \<noteq> candidate then None
                 else Some (case query of None \<Rightarrow> parsed
                                        | Some q \<Rightarrow> url_set_query U parsed (Some q))))"

text \<open>What is sent upstream, with the facts of the accepted request that the end of it needs.\<close>

record 'u forward =
  fw_machine :: string
  fw_operation :: "Operation option"
  fw_method :: string
  fw_url :: 'u
  fw_headers :: headers
  fw_effort :: "RequestEffort option"

definition route_prepare ::
  "('u, 'd, 'v) crates \<Rightarrow> 'u Gateway \<Rightarrow> Request \<Rightarrow> Response + 'u forward" where
  "route_prepare C gw req =
     (case authenticate C gw (rq_headers req) of
        None \<Rightarrow> Inl unauthorized
      | Some mid \<Rightarrow>
          (let oper = operation_of (rq_path req) in
           case upstream_url (cr_url C) (upstream_base gw) (path_suffix (rq_path req)) (rq_query req) of
             None \<Rightarrow> Inl bad_request
           | Some url \<Rightarrow>
               Inr \<lparr>fw_machine = mid, fw_operation = oper, fw_method = rq_method req, fw_url = url,
                    fw_headers = forward_request_headers (cr_http C) (rq_headers req),
                    fw_effort = effort_observer (cr_http C) (oper \<noteq> None) (rq_headers req)\<rparr>))"

section \<open>route\_v1\<close>

text \<open>
  What the upstream answers to \<open>send\<close>: an error, or status, headers and the body that will arrive.
\<close>

datatype send_answer = SendErr | SendOk u16 headers "bytes list" bool

record ('u, 'e) route_result =
  rr_response :: Response
  rr_audit :: AuditWriter
  rr_sent :: "'u forward option"
  rr_task :: "'e pump option"

text \<open>
  \<open>polls\<close> are the answers of the request body up to the moment the upstream answered, \<open>later\<close> those
  still to come; \<open>ev\<close> and \<open>now\<close> are used by the record of a transport failure.
\<close>

definition route_v1 ::
  "('u, 'd, 'v) crates \<Rightarrow> 'u Gateway \<Rightarrow> AuditWriter \<Rightarrow> string \<Rightarrow> string \<Rightarrow> Request \<Rightarrow>
     'e poll list \<Rightarrow> 'e poll list \<Rightarrow> send_answer \<Rightarrow> ('u, 'e) route_result" where
  "route_v1 C gw audit ev now req polls later answer =
     (case route_prepare C gw req of
        Inl response \<Rightarrow>
          \<lparr>rr_response = response, rr_audit = audit, rr_sent = None, rr_task = None\<rparr>
      | Inr fw \<Rightarrow>
          (let eff = fst (mirror_polls (fw_effort fw) polls) in
           case answer of
             SendOk status hs chunks clean \<Rightarrow>
               (let H = cr_http C;
                    filtered = filtered_response_headers H hs;
                    header_model = Option.bind (header_get hs ''openai-model'') (value_to_str H);
                    task = pump_init (fw_machine fw) (fw_operation fw) status
                             (status_is_success H status) header_model eff later chunks clean
                in if response_builder_ok H status filtered
                   then \<lparr>rr_response = StreamedResponse status filtered, rr_audit = audit,
                         rr_sent = Some fw, rr_task = Some task\<rparr>
                   else \<lparr>rr_response = unauthorized, rr_audit = audit, rr_sent = Some fw,
                         rr_task = Some (DropNotifyStream_drop task)\<rparr>)
           | SendErr \<Rightarrow>
               \<lparr>rr_response = LocalResponse 502 ''upstream unreachable'',
                rr_audit =
                  (case fw_operation fw of
                     None \<Rightarrow> audit
                   | Some oper \<Rightarrow>
                       try_record audit (transport_error_record ev now (fw_machine fw) oper
                         (snd (observed_effort (cr_effort C) eff)))),
                rr_sent = Some fw, rr_task = None\<rparr>))"

text \<open>The routes: \<open>/v1/*path\<close> for any method, \<open>/healthz\<close> for GET.\<close>

datatype route = RouteV1 | RouteHealthz | RouteMethodNotAllowed | RouteNotFound

definition router :: "axum_lib \<Rightarrow> Request \<Rightarrow> route" where
  "router A req =
     (if route_matches A ''/v1/*path'' (rq_path req) then RouteV1
      else if route_matches A ''/healthz'' (rq_path req)
           then if get_accepts A (rq_method req) then RouteHealthz else RouteMethodNotAllowed
      else RouteNotFound)"

definition serve ::
  "axum_lib \<Rightarrow> ('u, 'd, 'v) crates \<Rightarrow> 'u Gateway \<Rightarrow> AuditWriter \<Rightarrow> string \<Rightarrow> string \<Rightarrow> Request \<Rightarrow>
     'e poll list \<Rightarrow> 'e poll list \<Rightarrow> send_answer \<Rightarrow> ('u, 'e) route_result" where
  "serve A C gw audit ev now req polls later answer =
     (case router A req of
        RouteV1 \<Rightarrow> route_v1 C gw audit ev now req polls later answer
      | RouteHealthz \<Rightarrow>
          \<lparr>rr_response = healthz, rr_audit = audit, rr_sent = None, rr_task = None\<rparr>
      | RouteMethodNotAllowed \<Rightarrow>
          \<lparr>rr_response = LocalResponse 405 [], rr_audit = audit, rr_sent = None, rr_task = None\<rparr>
      | RouteNotFound \<Rightarrow>
          \<lparr>rr_response = LocalResponse 404 [], rr_audit = audit, rr_sent = None, rr_task = None\<rparr>)"

section \<open>Lemmas\<close>

lemma authenticate_Some_iff:
  "authenticate C gw hs = Some mid \<longleftrightarrow>
     (\<exists>v k. get_all hs ''x-meter-key'' = [v] \<and> value_to_str (cr_http C) v = Some k \<and>
        bt_get (machine_keys gw) (digest_hex (cr_digest C) k) = Some mid)"
  by (auto simp: authenticate_def split: list.splits option.splits)

lemma candidate_path_eq:
  "candidate_path U base rel = trim_end_matches (CHR ''/'') (url_path U base) @ rel"
  by (simp add: candidate_path_def Let_def)

lemma upstream_url_SomeD:
  assumes "upstream_url U base rel query = Some u" and "url_set_query_ok U"
  shows "url_scheme U u = url_scheme U base" and "url_host_str U u = url_host_str U base"
    and "url_path U u = trim_end_matches (CHR ''/'') (url_path U base) @ rel"
    and "\<exists>s u'. url_parse U s = Some u' \<and> url_path U u' = url_path U u \<and>
      url_scheme U u' = url_scheme U base"
  using assms
  by (auto simp: upstream_url_def Let_def url_set_query_ok_def candidate_path_eq
      split: option.splits if_splits) blast

lemma route_prepare_InrD:
  assumes "route_prepare C gw req = Inr fw"
  shows "authenticate C gw (rq_headers req) = Some (fw_machine fw)"
    and "fw_operation fw = operation_of (rq_path req)" and "fw_method fw = rq_method req"
    and "upstream_url (cr_url C) (upstream_base gw) (path_suffix (rq_path req)) (rq_query req) =
      Some (fw_url fw)"
    and "fw_headers fw = forward_request_headers (cr_http C) (rq_headers req)"
    and "fw_effort fw =
      effort_observer (cr_http C) (operation_of (rq_path req) \<noteq> None) (rq_headers req)"
  using assms by (auto simp: route_prepare_def Let_def split: option.splits)

lemma route_v1_sent:
  "rr_sent (route_v1 C gw w ev now req polls later answer) = Some fw \<longleftrightarrow>
     route_prepare C gw req = Inr fw"
  by (auto simp: route_v1_def Let_def split: sum.splits send_answer.splits)

lemma pump_reach_refl: "pump_reach D J E a a"
  by (simp add: pump_reach_def)

lemma pump_reach_trans:
  "pump_reach D J E a b \<Longrightarrow> pump_reach D J E b c \<Longrightarrow> pump_reach D J E a c"
  by (auto simp: pump_reach_def)

text \<open>A started task begins in a state that its pump can reach from \<open>pump_init\<close>.\<close>

lemma route_v1_task:
  assumes "rr_task (route_v1 C gw w ev now req polls later answer) = Some t"
  obtains fw status hs chunks clean where "route_prepare C gw req = Inr fw"
    and "answer = SendOk status hs chunks clean"
    and "pump_reach D J E
      (pump_init (fw_machine fw) (fw_operation fw) status (status_is_success (cr_http C) status)
        (Option.bind (header_get hs ''openai-model'') (value_to_str (cr_http C)))
        (fst (mirror_polls (fw_effort fw) polls)) later chunks clean) t"
proof -
  from assms obtain fw status hs chunks clean
    where fw: "route_prepare C gw req = Inr fw" and a: "answer = SendOk status hs chunks clean"
    by (auto simp: route_v1_def Let_def split: sum.splits send_answer.splits)
  let ?s0 = "pump_init (fw_machine fw) (fw_operation fw) status (status_is_success (cr_http C) status)
        (Option.bind (header_get hs ''openai-model'') (value_to_str (cr_http C)))
        (fst (mirror_polls (fw_effort fw) polls)) later chunks clean"
  have "pump_step D J E ?s0 (DropNotifyStream_drop ?s0)"
    by (rule caller_drop) (simp add: pump_init_def)
  then have "pump_reach D J E ?s0 t"
    using assms fw a
    by (auto simp: route_v1_def Let_def pump_reach_def split: if_splits)
  with fw a show thesis by (rule that)
qed

text \<open>
  The record of a request: well formed, for the endpoint of the path and the machine of the key.
\<close>

definition record_fits ::
  "('u, 'd, 'v) crates \<Rightarrow> 'u Gateway \<Rightarrow> Request \<Rightarrow> AuditRecord \<Rightarrow> bool" where
  "record_fits C gw req r \<longleftrightarrow>
     record_ok r \<and> Some (operation r) = operation_of (rq_path req) \<and>
     authenticate C gw (rq_headers req) = Some (machine_id r)"

lemma route_v1_task_records:
  assumes "rr_task (route_v1 C gw w ev now req polls later answer) = Some t"
    and st: "pump_reach (cr_effort C) (cr_json C) (cr_sse C) t st"
  shows "if pm_phase st = Finished \<and> operation_of (rq_path req) \<noteq> None
    then \<exists>r status hs chunks clean. pm_recorded st = [r] \<and> record_fits C gw req r \<and>
           answer = SendOk status hs chunks clean \<and> upstream_status r = Some status
    else pm_recorded st = []"
  using assms(1)
proof (rule route_v1_task)
  fix fw status hs chunks clean
  assume fw: "route_prepare C gw req = Inr fw" and a: "answer = SendOk status hs chunks clean"
    and r: "pump_reach (cr_effort C) (cr_json C) (cr_sse C)
      (pump_init (fw_machine fw) (fw_operation fw) status (status_is_success (cr_http C) status)
        (Option.bind (header_get hs ''openai-model'') (value_to_str (cr_http C)))
        (fst (mirror_polls (fw_effort fw) polls)) later chunks clean) t"
  from pump_recorded [OF pump_reach_trans [OF r st]] show ?thesis
    using route_prepare_InrD(1,2) [OF fw] a by (auto simp: record_fits_def split: if_splits)
qed

lemma route_v1_audit:
  "let R = route_v1 C gw w ev now req polls later answer in
   if rr_sent R \<noteq> None \<and> answer = SendErr \<and> operation_of (rq_path req) \<noteq> None
   then rr_task R = None \<and>
     (\<exists>r. rr_audit R = try_record w r \<and> record_fits C gw req r \<and> outcome r = TransportError)
   else rr_audit R = w"
proof (cases "route_prepare C gw req")
  case (Inl resp)
  then show ?thesis by (simp add: route_v1_def)
next
  case (Inr fw)
  let ?r = "transport_error_record ev now (fw_machine fw) (the (operation_of (rq_path req)))
    (snd (observed_effort (cr_effort C) (fst (mirror_polls (fw_effort fw) polls))))"
  have "record_fits C gw req ?r" if "operation_of (rq_path req) \<noteq> None"
    using that route_prepare_InrD(1) [OF Inr] by (auto simp: record_fits_def transport_error_record_ok)
  then show ?thesis
    using Inr route_prepare_InrD(2) [OF Inr]
    by (auto simp: route_v1_def Let_def split: send_answer.splits intro!: exI [of _ ?r])
qed

lemma no_dot_segments_below:
  "no_dot_segments (base @ CHR ''/'' # rest) \<Longrightarrow> no_dot_segments rest"
  by (simp add: no_dot_segments_def split_on_append_sep)

lemma path_suffix_v1: "path_suffix (''/v1'' @ r) = r"
  using strip_prefix_append [of "''/v1''" r] by (simp add: path_suffix_def)

definition plain_crates :: "(string, unit, unit) crates" where
  "plain_crates =
     \<lparr>cr_url = plain_url, cr_http = plain_http, cr_digest = plain_digest, cr_effort = inert_effort,
      cr_json = inert_json, cr_sse = inert_sse\<rparr>"

definition plain_gateway :: "string Gateway" where
  "plain_gateway = \<lparr>upstream_base = ''/api/'', machine_keys = [(''k'', ''m1'')]\<rparr>"

section \<open>Properties\<close>

text \<open>
  (C2) No request leaves the gateway without authentication: something is sent upstream only when
  there is exactly one \<open>x-meter-key\<close> header, it is readable, and its digest is in the key map, and
  then under the machine id of that digest. A request with no, several, an unreadable or an unknown
  key gets the one local 401, an authenticated one that is not sent the local 400, and neither
  leaves a task or an audit record.
\<close>

theorem unauthenticated_rejected:
  "let R = route_v1 C gw w ev now req polls later answer;
       known = (\<lambda>m. \<exists>v k. get_all (rq_headers req) ''x-meter-key'' = [v] \<and>
         value_to_str (cr_http C) v = Some k \<and>
         bt_get (machine_keys gw) (digest_hex (cr_digest C) k) = Some m)
   in case rr_sent R of
        Some fw \<Rightarrow> known (fw_machine fw)
      | None \<Rightarrow>
          rr_audit R = w \<and> rr_task R = None \<and>
          rr_response R = (if \<exists>m. known m then LocalResponse 400 ''bad request''
                           else LocalResponse 401 ''unauthorized'')"
proof (cases "route_prepare C gw req")
  case (Inl resp)
  then show ?thesis
    unfolding authenticate_Some_iff [symmetric]
    by (auto simp: route_v1_def route_prepare_def Let_def unauthorized_def bad_request_def
        split: option.splits)
next
  case (Inr fw)
  then have "rr_sent (route_v1 C gw w ev now req polls later answer) = Some fw"
    by (simp add: route_v1_sent)
  then show ?thesis
    using route_prepare_InrD(1) [OF Inr] by (simp add: Let_def authenticate_Some_iff)
qed

text \<open>
  (C1) No request forgery and no path escape: whatever the caller sends, a forwarded request goes to
  the scheme and host of the fixed base, its path is the base path followed by the caller's own bytes
  below \<open>/v1\<close>, and those contain no dot segment, plain or percent-encoded. The method is the
  caller's and the headers are the filtered ones.
\<close>

theorem forwarded_below_fixed_base:
  assumes "wildcard_ok A" and "url_set_query_ok (cr_url C)" and "url_normalizes (cr_url C)"
    and "url_scheme (cr_url C) (upstream_base gw) \<in> {''http'', ''https''}"
    and "rr_sent (serve A C gw w ev now req polls later answer) = Some fw"
  shows "url_scheme (cr_url C) (fw_url fw) = url_scheme (cr_url C) (upstream_base gw) \<and>
    url_host_str (cr_url C) (fw_url fw) = url_host_str (cr_url C) (upstream_base gw) \<and>
    (\<exists>rest. rq_path req = ''/v1/'' @ rest \<and> no_dot_segments rest \<and>
       url_path (cr_url C) (fw_url fw) =
         trim_end_matches (CHR ''/'') (url_path (cr_url C) (upstream_base gw)) @ ''/'' @ rest) \<and>
    fw_method fw = rq_method req \<and>
    fw_headers fw = forward_request_headers (cr_http C) (rq_headers req)"
proof -
  from assms(5) have v1: "router A req = RouteV1"
    and prep: "route_prepare C gw req = Inr fw"
    by (auto simp: serve_def route_v1_sent split: route.splits)
  from v1 assms(1) obtain rest where rest: "rq_path req = ''/v1/'' @ rest"
    by (auto simp: router_def wildcard_ok_def prefix_def split: if_splits)
  then have suf: "path_suffix (rq_path req) = ''/'' @ rest"
    using path_suffix_v1 [of "''/'' @ rest"] by simp
  note url = upstream_url_SomeD [OF route_prepare_InrD(4) [OF prep] assms(2)]
  have "no_dot_segments (url_path (cr_url C) (fw_url fw))"
    using url(4) assms(3,4) unfolding url_normalizes_def by metis
  then have "no_dot_segments rest"
    by (simp add: url(3) suf no_dot_segments_below)
  with url(1-3) suf rest route_prepare_InrD(3,5) [OF prep] show ?thesis by simp
qed

theorem forwarded_below_fixed_base_witness:
  "\<exists>fw. rr_sent (serve plain_axum plain_crates plain_gateway (spawn []) [] []
        \<lparr>rq_method = ''GET'', rq_path = ''/v1/models'', rq_query = Some ''a=1'',
         rq_headers = [(''x-meter-key'', ''k''), (''accept'', ''x'')]\<rparr> ([] :: unit poll list) [] SendErr) =
      Some fw \<and>
    url_path plain_url (fw_url fw) = ''/api/models'' \<and> fw_headers fw = [(''accept'', ''x'')]"
proof -
  let ?req = "\<lparr>rq_method = ''GET'', rq_path = ''/v1/models'', rq_query = Some ''a=1'',
         rq_headers = [(''x-meter-key'', ''k''), (''accept'', ''x'')]\<rparr>"
  let ?s = "rr_sent (serve plain_axum plain_crates plain_gateway (spawn []) [] [] ?req
    ([] :: unit poll list) [] SendErr)"
  have u: "cr_url plain_crates = plain_url" by (simp add: plain_crates_def)
  have sch: "url_scheme (cr_url plain_crates) (upstream_base plain_gateway) \<in> {''http'', ''https''}"
    by (simp add: plain_crates_def plain_url_def)
  have "?s \<noteq> None" by code_simp
  then obtain fw where fw: "?s = Some fw" by blast
  note facts = forwarded_below_fixed_base [OF plain_axum_ok plain_url_ok [folded u] sch fw]
  have b: "trim_end_matches (CHR ''/'') (url_path plain_url (upstream_base plain_gateway)) = ''/api''"
    and h: "forward_request_headers plain_http (rq_headers ?req) = [(''accept'', ''x'')]"
    by code_simp+
  from facts have "url_path plain_url (fw_url fw) = ''/api/models'' \<and> fw_headers fw = [(''accept'', ''x'')]"
    using b h by (auto simp: plain_crates_def)
  with fw show ?thesis by blast
qed

text \<open>
  (C16) The caller's response is the upstream's, and auditing cannot change it (fail-open): for a
  forwarded request the response is the upstream's status with the filtered headers and the streamed
  body, or the local 502; response, forwarded request and streaming task are the same whatever the
  state of the audit writer, full, failed or gone.
\<close>

theorem response_independent_of_audit:
  "let R = route_v1 C gw w ev now req polls later answer;
       R' = route_v1 C gw w' ev' now' req polls later answer
   in rr_response R = rr_response R' \<and> rr_sent R = rr_sent R' \<and> rr_task R = rr_task R' \<and>
      (case rr_sent R of
         None \<Rightarrow> rr_task R = None
       | Some fw \<Rightarrow> rr_response R =
           (case answer of
              SendErr \<Rightarrow> LocalResponse 502 ''upstream unreachable''
            | SendOk status hs _ _ \<Rightarrow>
                (let filtered = filtered_response_headers (cr_http C) hs
                 in if response_builder_ok (cr_http C) status filtered
                    then StreamedResponse status filtered else unauthorized)))"
  by (auto simp: route_v1_def Let_def split: sum.splits send_answer.splits)

text \<open>
  (C4) At most one audit record per request, and only for the Responses endpoints: on
  \<open>/v1/responses\<close> and \<open>/v1/responses/compact\<close> a forwarded request that gets no response offers one
  well-formed \<open>transport_error\<close> record at once, and one that gets a response offers nothing before
  its task ends and then exactly one well-formed record, for the authenticated machine, the endpoint
  and the upstream's status. Any other path never offers a record. This is about a request whose caller
  waits for the response head: the handler of one who leaves before it is dropped at \<open>send()\<close>, without
  a task and without a record, which the steps of \<open>System\<close> account for.
\<close>

theorem one_record_per_request:
  "let R = route_v1 C gw w ev now req polls later answer in
     (if rr_sent R \<noteq> None \<and> answer = SendErr \<and> operation_of (rq_path req) \<noteq> None
      then rr_task R = None \<and>
        (\<exists>r. rr_audit R = try_record w r \<and> record_fits C gw req r \<and> outcome r = TransportError)
      else rr_audit R = w) \<and>
     (\<forall>t st. rr_task R = Some t \<and> pump_reach (cr_effort C) (cr_json C) (cr_sse C) t st \<longrightarrow>
        (if pm_phase st = Finished \<and> operation_of (rq_path req) \<noteq> None
         then \<exists>r status hs chunks clean. pm_recorded st = [r] \<and> record_fits C gw req r \<and>
                answer = SendOk status hs chunks clean \<and> upstream_status r = Some status
         else pm_recorded st = []))"
  unfolding Let_def
  by (intro conjI allI impI route_v1_audit [unfolded Let_def]) (elim conjE, rule route_v1_task_records)

theorem one_record_per_request_witness:
  "let R = route_v1 plain_crates plain_gateway (spawn []) [] []
       \<lparr>rq_method = ''POST'', rq_path = ''/v1/responses'', rq_query = None,
        rq_headers = [(''x-meter-key'', ''k'')]\<rparr>
       ([] :: unit poll list) [] (SendOk 200 [] [''x''] True) in
   \<exists>t st r. rr_task R = Some t \<and> pump_reach inert_effort inert_json inert_sse t st \<and>
     pm_recorded st = [r] \<and> record_ok r \<and> operation r = Response \<and> upstream_status r = Some 200"
proof -
  let ?req = "\<lparr>rq_method = ''POST'', rq_path = ''/v1/responses'', rq_query = None,
        rq_headers = [(''x-meter-key'', ''k'')]\<rparr>"
  let ?R = "route_v1 plain_crates plain_gateway (spawn []) [] [] ?req
       ([] :: unit poll list) [] (SendOk 200 [] [''x''] True)"
  let ?t = "pump_init ''m1'' (Some Response) 200 True None (Some (RequestEffort_new None))
    ([] :: unit poll list) [''x''] True"
  have t: "rr_task ?R = Some ?t" by code_simp
  have oper: "operation_of (rq_path ?req) = Some Response" by (simp add: operation_of_def)
  obtain st where st: "pump_reach inert_effort inert_json inert_sse ?t st" "pm_phase st = Finished"
    by (rule full_delivery)
  then have "\<exists>r. pm_recorded st = [r] \<and> record_fits plain_crates plain_gateway ?req r \<and>
      upstream_status r = Some 200"
    using conjunct2 [OF one_record_per_request [of plain_crates plain_gateway "spawn []" "[]" "[]"
        ?req "[]" "[]" "SendOk 200 [] [''x''] True", unfolded Let_def], rule_format, of ?t st] t oper
    by (auto simp: plain_crates_def)
  with t st(1) oper show ?thesis by (auto simp: Let_def record_fits_def)
qed

end
