(* ===== verification/Net_Addr.thy ===== *)
theory Net_Addr
  imports Rust_Std
begin

text \<open>
  \<open>str::parse::<SocketAddr>\<close> of the standard library, which the configuration uses for its listen
  address: the recursive-descent parser over the remaining input, for IPv4 and IPv6 (with embedded
  IPv4 part, \<open>::\<close> and scope id). A reader returns the value and the rest of the input.
\<close>

type_synonym 'a reader = "string \<Rightarrow> ('a \<times> string) option"

datatype SocketAddr = V4 "nat list" u16 | V6 "nat list" nat u16

definition hex_value :: "char \<Rightarrow> nat option" where
  "hex_value c = (let n = of_char c :: nat in
     if 48 \<le> n \<and> n \<le> 57 then Some (n - 48)
     else if 97 \<le> n \<and> n \<le> 102 then Some (n - 87)
     else if 65 \<le> n \<and> n \<le> 70 then Some (n - 55)
     else None)"

definition to_digit :: "nat \<Rightarrow> char \<Rightarrow> nat option" where
  "to_digit radix c =
     (case hex_value c of None \<Rightarrow> None | Some d \<Rightarrow> if d < radix then Some d else None)"

text \<open>The digits at the start of the input, their value and the rest.\<close>

fun scan_digits :: "nat \<Rightarrow> string \<Rightarrow> nat \<Rightarrow> nat \<Rightarrow> nat \<times> nat \<times> string" where
  "scan_digits radix [] val cnt = (val, cnt, [])"
| "scan_digits radix (c # s) val cnt =
     (case to_digit radix c of
        None \<Rightarrow> (val, cnt, c # s)
      | Some d \<Rightarrow> scan_digits radix s (val * radix + d) (Suc cnt))"

text \<open>
  \<open>read_number\<close>: at most \<open>max_digits\<close> digits if given, no zero prefix unless allowed, and the value
  below \<open>bound\<close>. The checked arithmetic of the unbounded variant fails exactly when the value of the
  digits read reaches the bound.
\<close>

definition read_number :: "nat \<Rightarrow> nat option \<Rightarrow> bool \<Rightarrow> nat \<Rightarrow> nat reader" where
  "read_number radix max_digits allow_zero_prefix bound s =
     (let (val, cnt, rest) = scan_digits radix s 0 0;
          leading_zero = (case s of [] \<Rightarrow> False | c # _ \<Rightarrow> c = CHR ''0'')
      in if (case max_digits of None \<Rightarrow> False | Some m \<Rightarrow> m < cnt) then None
         else if cnt = 0 then None
         else if \<not> allow_zero_prefix \<and> leading_zero \<and> 1 < cnt then None
         else if val < bound then Some (val, rest) else None)"

definition read_given_char :: "char \<Rightarrow> unit reader" where
  "read_given_char ch s = (case s of [] \<Rightarrow> None | c # r \<Rightarrow> if c = ch then Some ((), r) else None)"

definition read_separator :: "char \<Rightarrow> nat \<Rightarrow> 'a reader \<Rightarrow> 'a reader" where
  "read_separator sep i inner s =
     (if 0 < i then case read_given_char sep s of None \<Rightarrow> None | Some (_, r) \<Rightarrow> inner r else inner s)"

fun read_octets :: "nat \<Rightarrow> nat \<Rightarrow> nat list reader" where
  "read_octets i 0 s = Some ([], s)"
| "read_octets i (Suc n) s =
     (case read_separator (CHR ''.'') i (read_number 10 (Some 3) False 256) s of
        None \<Rightarrow> None
      | Some (o1, r) \<Rightarrow>
          (case read_octets (Suc i) n r of None \<Rightarrow> None | Some (os, r') \<Rightarrow> Some (o1 # os, r')))"

definition read_ipv4_addr :: "nat list reader" where
  "read_ipv4_addr = read_octets 0 4"

text \<open>
  \<open>read_groups\<close>: up to \<open>limit - i\<close> further groups; whether they end in an embedded IPv4 address.
\<close>

fun read_groups :: "nat \<Rightarrow> nat \<Rightarrow> string \<Rightarrow> nat list \<times> bool \<times> string" where
  "read_groups i 0 s = ([], False, s)"
| "read_groups i (Suc left) s =
     (case (if 0 < left then read_separator (CHR '':'') i read_ipv4_addr s else None) of
        Some (os, r) \<Rightarrow> ([os ! 0 * 256 + os ! 1, os ! 2 * 256 + os ! 3], True, r)
      | None \<Rightarrow>
          (case read_separator (CHR '':'') i (read_number 16 (Some 4) True 65536) s of
             None \<Rightarrow> ([], False, s)
           | Some (g, r) \<Rightarrow>
               (case read_groups (Suc i) left r of (gs, v4, r') \<Rightarrow> (g # gs, v4, r'))))"

definition read_ipv6_addr :: "nat list reader" where
  "read_ipv6_addr s =
     (case read_groups 0 8 s of
        (front, front_v4, r) \<Rightarrow>
          if length front = 8 then Some (front, r)
          else if front_v4 then None
          else case read_given_char (CHR '':'') r of
                 None \<Rightarrow> None
               | Some (_, r1) \<Rightarrow>
                   (case read_given_char (CHR '':'') r1 of
                      None \<Rightarrow> None
                    | Some (_, r2) \<Rightarrow>
                        (case read_groups 0 (8 - (length front + 1)) r2 of
                           (back, _, r3) \<Rightarrow>
                             Some (front @ replicate (8 - length front - length back) 0 @ back, r3))))"

definition read_port :: "u16 reader" where
  "read_port s =
     (case read_given_char (CHR '':'') s of
        None \<Rightarrow> None
      | Some (_, r) \<Rightarrow>
          (case read_number 10 None True 65536 r of
             None \<Rightarrow> None
           | Some (p, r') \<Rightarrow> Some (of_nat p, r')))"

definition read_scope_id :: "nat reader" where
  "read_scope_id s =
     (case read_given_char (CHR ''%'') s of
        None \<Rightarrow> None
      | Some (_, r) \<Rightarrow> read_number 10 None True (2 ^ 32) r)"

definition read_socket_addr_v4 :: "SocketAddr reader" where
  "read_socket_addr_v4 s =
     (case read_ipv4_addr s of
        None \<Rightarrow> None
      | Some (ip, r) \<Rightarrow> (case read_port r of None \<Rightarrow> None | Some (p, r') \<Rightarrow> Some (V4 ip p, r')))"

definition read_socket_addr_v6 :: "SocketAddr reader" where
  "read_socket_addr_v6 s =
     (case read_given_char (CHR ''['') s of
        None \<Rightarrow> None
      | Some (_, r) \<Rightarrow>
          (case read_ipv6_addr r of
             None \<Rightarrow> None
           | Some (ip, r1) \<Rightarrow>
               (let (scope, r2) = (case read_scope_id r1 of None \<Rightarrow> (0, r1) | Some (sc, r') \<Rightarrow> (sc, r'))
                in case read_given_char (CHR '']'') r2 of
                     None \<Rightarrow> None
                   | Some (_, r3) \<Rightarrow>
                       (case read_port r3 of None \<Rightarrow> None | Some (p, r4) \<Rightarrow> Some (V6 ip scope p, r4)))))"

definition parse_socket_addr :: "string \<Rightarrow> SocketAddr option" where
  "parse_socket_addr s =
     (case (case read_socket_addr_v4 s of None \<Rightarrow> read_socket_addr_v6 s | Some x \<Rightarrow> Some x) of
        None \<Rightarrow> None
      | Some (addr, rest) \<Rightarrow> if rest = [] then Some addr else None)"

text \<open>The display form of an IPv4 socket address.\<close>

definition show_v4 :: "nat list \<Rightarrow> u16 \<Rightarrow> string" where
  "show_v4 ip p =
     show_nat (ip ! 0) @ ''.'' @ show_nat (ip ! 1) @ ''.'' @ show_nat (ip ! 2) @ ''.'' @
     show_nat (ip ! 3) @ '':'' @ show_nat (unat p)"

text \<open>
  The display form of the other addresses: segments in lowercase hexadecimal without padding, the
  first longest run of at least two zero segments as \<open>::\<close>, an embedded IPv4 part for IPv4-mapped
  addresses, and a scope id other than zero.
\<close>

fun show_hex :: "nat \<Rightarrow> string" where
  "show_hex n =
     (let d = (\<lambda>k. if k < 10 then char_of (48 + k) else char_of (87 + k))
      in if n < 16 then [d n] else show_hex (n div 16) @ [d (n mod 16)])"

declare show_hex.simps [simp del]

fun zero_runs :: "nat \<Rightarrow> nat list \<Rightarrow> nat \<times> nat \<Rightarrow> nat \<times> nat \<Rightarrow> nat \<times> nat" where
  "zero_runs i [] current longest = longest"
| "zero_runs i (g # gs) current longest =
     (if g = 0
      then let current1 = (if snd current = 0 then (i, 1) else (fst current, snd current + 1))
           in zero_runs (Suc i) gs current1 (if snd longest < snd current1 then current1 else longest)
      else zero_runs (Suc i) gs (0, 0) longest)"

fun join_segments :: "nat list \<Rightarrow> string" where
  "join_segments [] = []"
| "join_segments [g] = show_hex g"
| "join_segments (g # h # gs) = show_hex g @ CHR '':'' # join_segments (h # gs)"

definition show_ipv4 :: "nat list \<Rightarrow> string" where
  "show_ipv4 ip =
     show_nat (ip ! 0) @ ''.'' @ show_nat (ip ! 1) @ ''.'' @ show_nat (ip ! 2) @ ''.'' @ show_nat (ip ! 3)"

definition show_ipv6 :: "nat list \<Rightarrow> string" where
  "show_ipv6 ip =
     (if take 6 ip = [0, 0, 0, 0, 0, 65535]
      then ''::ffff:'' @ show_ipv4 [ip ! 6 div 256, ip ! 6 mod 256, ip ! 7 div 256, ip ! 7 mod 256]
      else let (start, len) = zero_runs 0 ip (0, 0) (0, 0)
           in if 1 < len
              then join_segments (take start ip) @ ''::'' @ join_segments (drop (start + len) ip)
              else join_segments ip)"

definition show_socket_addr :: "SocketAddr \<Rightarrow> string" where
  "show_socket_addr a =
     (case a of
        V4 ip p \<Rightarrow> show_v4 ip p
      | V6 ip scope p \<Rightarrow>
          ''['' @ show_ipv6 ip @ (if scope = 0 then [] else ''%'' @ show_nat scope) @ '']:'' @
          show_nat (unat p))"

section \<open>Round trip\<close>

lemma to_digit_decimal: "d < 10 \<Longrightarrow> to_digit 10 (char_of (48 + d)) = Some d"
  by (simp add: to_digit_def hex_value_def Let_def of_char_of)

lemma scan_show_nat:
  "scan_digits 10 (show_nat n @ s) val cnt =
    scan_digits 10 s (val * 10 ^ length (show_nat n) + n) (cnt + length (show_nat n))"
proof (induction n arbitrary: s val cnt rule: show_nat.induct)
  case (1 n)
  show ?case
  proof (cases "n < 10")
    case True
    then show ?thesis by (simp add: show_nat.simps [of n] to_digit_decimal)
  next
    case False
    have "(val * 10 ^ length (show_nat (n div 10)) + n div 10) * 10 + n mod 10 =
        val * 10 ^ Suc (length (show_nat (n div 10))) + n"
      by (simp add: algebra_simps)
    with False "1.IH" [OF False, of "char_of (48 + n mod 10) # s"] show ?thesis
      by (simp add: show_nat.simps [of n] to_digit_decimal algebra_simps)
  qed
qed

lemma scan_digits_stop:
  "(case s of [] \<Rightarrow> True | c # _ \<Rightarrow> to_digit 10 c = None) \<Longrightarrow> scan_digits 10 s val cnt = (val, cnt, s)"
  by (cases s) simp_all

lemma length_show_nat: "n < 10 ^ Suc k \<Longrightarrow> length (show_nat n) \<le> Suc k"
proof (induction k arbitrary: n)
  case 0
  then show ?case by (simp add: show_nat.simps [of n])
next
  case (Suc k)
  show ?case
  proof (cases "n < 10")
    case False
    have "n div 10 < 10 ^ Suc k" using Suc.prems by simp
    with Suc.IH [of "n div 10"] False show ?thesis by (simp add: show_nat.simps [of n])
  qed (simp add: show_nat.simps [of n])
qed

lemma show_nat_zero_prefix: "show_nat n = CHR ''0'' # s \<Longrightarrow> n = 0 \<and> s = []"
proof (induction n arbitrary: s rule: show_nat.induct)
  case (1 n)
  show ?case
  proof (cases "n < 10")
    case True
    with "1.prems" have "char_of (48 + n) = CHR ''0''" "s = []" by (simp_all add: show_nat.simps [of n])
    then have "(of_char (char_of (48 + n)) :: nat) = of_char CHR ''0''" by simp
    with True \<open>s = []\<close> show ?thesis by (simp add: of_char_of)
  next
    case False
    obtain c r where cr: "show_nat (n div 10) = c # r" by (cases "show_nat (n div 10)") simp_all
    with "1.prems" False have "c = CHR ''0''" by (simp add: show_nat.simps [of n])
    with "1.IH" [OF False] cr have "n div 10 = 0" by simp
    with False show ?thesis by simp
  qed
qed

lemma read_number_show_nat:
  assumes "case s of [] \<Rightarrow> True | c # _ \<Rightarrow> to_digit 10 c = None" and "n < bound"
    and "case m of None \<Rightarrow> True | Some k \<Rightarrow> 0 < k \<and> n < 10 ^ k"
  shows "read_number 10 m z bound (show_nat n @ s) = Some (n, s)"
proof -
  obtain c r where cr: "show_nat n = c # r" by (cases "show_nat n") simp_all
  have "length (show_nat n) \<le> k" if "m = Some k" for k
    using that assms(3) length_show_nat [of n "k - 1"] by simp
  moreover have "c = CHR ''0'' \<Longrightarrow> length (show_nat n) = 1"
    using show_nat_zero_prefix [of n r] cr by simp
  moreover have "scan_digits 10 (show_nat n @ s) 0 0 = (n, length (show_nat n), s)"
    using assms(1) by (simp add: scan_show_nat scan_digits_stop)
  ultimately show ?thesis
    using assms(2) cr by (auto simp: read_number_def split: option.splits)
qed

lemma dot_colon_no_digit: "to_digit 10 CHR ''.'' = None" "to_digit 10 CHR '':'' = None"
  by (simp_all add: to_digit_def hex_value_def)

lemma parse_show_v4:
  assumes "length ip = 4" and "\<forall>b \<in> set ip. b < 256"
  shows "parse_socket_addr (show_v4 ip p) = Some (V4 ip p)"
proof -
  from assms(1) obtain a b c d where ip: "ip = [a, b, c, d]"
    by (auto simp: numeral_eq_Suc length_Suc_conv)
  with assms(2) have lt: "a < 256" "b < 256" "c < 256" "d < 256" by simp_all
  have num: "read_number 10 (Some 3) False 256 (show_nat n @ ch # s) = Some (n, ch # s)"
    if "n < 256" "ch \<in> {CHR ''.'', CHR '':''}" for n ch s
    using that dot_colon_no_digit by (intro read_number_show_nat) auto
  have port: "read_number 10 None True 65536 (show_nat (unat p)) = Some (unat p, [])"
    using read_number_show_nat [of "[]" "unat p" 65536 None True] unsigned_less [of p] by simp
  have "read_ipv4_addr (show_v4 ip p) = Some (ip, '':'' @ show_nat (unat p))"
    using lt num
    by (simp add: ip show_v4_def read_ipv4_addr_def numeral_eq_Suc read_separator_def
        read_given_char_def)
  then show ?thesis
    using port
    by (simp add: parse_socket_addr_def read_socket_addr_v4_def read_port_def read_given_char_def)
qed

end
