(* ===== verification/Config.thy ===== *)
theory Config
  imports Gateway Net_Addr
begin

text \<open>
  The startup configuration of \<^verbatim>\<open>src/src/config.rs\<close>: loading, validation and the error texts. The
  TOML crate is an argument; reading the file is its result. A \<open>PathBuf\<close> is its text.
\<close>

section \<open>Data\<close>

record Config =
  cfg_listen :: SocketAddr
  cfg_machine_keys :: MachineKeys
  cfg_usage_file :: string

record RawConfig =
  raw_listen :: string
  raw_usage_file :: string
  raw_machine_keys :: "(string, string) btree_map"

text \<open>\<open>toml::from_str\<close> at \<open>RawConfig\<close> (unknown fields are denied) and the message of its errors.\<close>

record 'e toml_lib =
  toml_from_str :: "string \<Rightarrow> 'e + RawConfig"
  toml_message :: "'e \<Rightarrow> string"

text \<open>A deserialised \<open>BTreeMap\<close> is one: its keys are strictly sorted.\<close>

definition toml_ok :: "'e toml_lib \<Rightarrow> bool" where
  "toml_ok T \<longleftrightarrow> (\<forall>s raw. toml_from_str T s = Inr raw \<longrightarrow> bt_invar (raw_machine_keys raw))"

datatype 'e ErrorKind =
    Io string string
  | Parse string 'e
  | Validation string string

record 'e ConfigError =
  error_kind :: "'e ErrorKind"

definition display_error :: "'e toml_lib \<Rightarrow> 'e ConfigError \<Rightarrow> string" where
  "display_error T err =
     (case error_kind err of
        Io path source \<Rightarrow> ''cannot read config '' @ path @ '': '' @ source
      | Parse path source \<Rightarrow> ''invalid TOML in '' @ path @ '': '' @ toml_message T source
      | Validation path message \<Rightarrow> ''invalid config in '' @ path @ '': '' @ message)"

section \<open>Validation\<close>

definition is_hex_byte :: "char \<Rightarrow> bool" where
  "is_hex_byte b \<longleftrightarrow> (let n = of_char b :: nat in (48 \<le> n \<and> n \<le> 57) \<or> (97 \<le> n \<and> n \<le> 102))"

definition is_digest_hex :: "string \<Rightarrow> bool" where
  "is_digest_hex s \<longleftrightarrow> length s = 64 \<and> list_all is_hex_byte s"

definition LISTEN_MESSAGE :: string where
  "LISTEN_MESSAGE = ''listen must be a valid IP:port address, e.g. '' @ [CHR 0x22] @ ''127.0.0.1:8787'' @ [CHR 0x22]"

definition USAGE_FILE_MESSAGE :: string where
  "USAGE_FILE_MESSAGE = ''usage_file must be a non-empty file path''"

definition NO_KEYS_MESSAGE :: string where
  "NO_KEYS_MESSAGE = ''machine_keys must map at least one meter key digest to a machine id''"

definition DIGEST_MESSAGE :: string where
  "DIGEST_MESSAGE = ''machine_keys entry must be a 64-character lowercase hex SHA-256 digest''"

definition MACHINE_ID_MESSAGE :: string where
  "MACHINE_ID_MESSAGE = ''machine id must not be blank''"

text \<open>The loop over the entries, in the order of the map; \<open>Inl\<close> is the validation message.\<close>

fun check_keys :: "(string \<times> string) list \<Rightarrow> MachineKeys \<Rightarrow> string + MachineKeys" where
  "check_keys [] acc = Inr acc"
| "check_keys ((digest, mid) # rest) acc =
     (if \<not> is_digest_hex digest then Inl DIGEST_MESSAGE
      else if trim mid = [] then Inl MACHINE_ID_MESSAGE
      else check_keys rest (bt_insert digest mid acc))"

definition try_from :: "RawConfig \<Rightarrow> string \<Rightarrow> 'e ConfigError + Config" where
  "try_from raw path =
     (let validation = (\<lambda>message. \<lparr>error_kind = Validation path message\<rparr>)
      in case parse_socket_addr (raw_listen raw) of
           None \<Rightarrow> Inl (validation LISTEN_MESSAGE)
         | Some addr \<Rightarrow>
             if raw_usage_file raw = [] then Inl (validation USAGE_FILE_MESSAGE)
             else if raw_machine_keys raw = [] then Inl (validation NO_KEYS_MESSAGE)
             else case check_keys (raw_machine_keys raw) [] of
                    Inl message \<Rightarrow> Inl (validation message)
                  | Inr keys \<Rightarrow>
                      Inr \<lparr>cfg_listen = addr, cfg_machine_keys = keys,
                           cfg_usage_file = raw_usage_file raw\<rparr>)"

text \<open>\<open>read\<close> is the result of \<open>fs::read_to_string\<close>: the text of the error or the contents.\<close>

definition load :: "'e toml_lib \<Rightarrow> string \<Rightarrow> string + string \<Rightarrow> 'e ConfigError + Config" where
  "load T path read =
     (case read of
        Inl source \<Rightarrow> Inl \<lparr>error_kind = Io path source\<rparr>
      | Inr contents \<Rightarrow>
          (case toml_from_str T contents of
             Inl source \<Rightarrow> Inl \<lparr>error_kind = Parse path source\<rparr>
           | Inr raw \<Rightarrow> try_from raw path))"

section \<open>Lemmas\<close>

definition entry_ok :: "string \<times> string \<Rightarrow> bool" where
  "entry_ok e \<longleftrightarrow> is_digest_hex (fst e) \<and> trim (snd e) \<noteq> []"

lemma check_keys_eq:
  "check_keys es acc =
     (case find (\<lambda>e. \<not> entry_ok e) es of
        None \<Rightarrow> Inr (foldl (\<lambda>m (d, i). bt_insert d i m) acc es)
      | Some e \<Rightarrow> Inl (if is_digest_hex (fst e) then MACHINE_ID_MESSAGE else DIGEST_MESSAGE))"
  by (induction es acc rule: check_keys.induct) (auto simp: entry_ok_def split: option.splits)

lemma reinsert_invar: "bt_invar acc \<Longrightarrow> bt_invar (foldl (\<lambda>m (d, i). bt_insert d i m) acc es)"
  by (induction es arbitrary: acc) (auto simp: bt_invar_insert split: prod.splits)

lemma reinsert_get:
  "bt_invar acc \<Longrightarrow> distinct (map fst es) \<Longrightarrow>
     bt_get (foldl (\<lambda>m (d, i). bt_insert d i m) acc es) k =
       (case map_of es k of None \<Rightarrow> bt_get acc k | Some v \<Rightarrow> Some v)"
proof (induction es arbitrary: acc)
  case (Cons e es)
  obtain d i where e: "e = (d, i)" by force
  with Cons have "map_of es d = None" by (simp add: map_of_eq_None_iff)
  with Cons e show ?case by (auto simp: bt_invar_insert bt_get_insert split: option.splits)
qed simp

text \<open>Rebuilding a map entry by entry gives the map.\<close>

lemma reinsert_same: "bt_invar m \<Longrightarrow> foldl (\<lambda>m (d, i). bt_insert d i m) [] m = m"
proof (rule bt.entries_determined)
  assume m: "bt_invar m"
  then show "bt_invar m" .
  show "bt_invar (foldl (\<lambda>m (d, i). bt_insert d i m) [] m)"
    by (rule reinsert_invar) (rule bt.invar_empty)
  have "distinct (map fst m)" using m by (rule bt.entries_distinct)
  then show "bt_get (foldl (\<lambda>m (d, i). bt_insert d i m) [] m) = bt_get m"
    using m reinsert_get [of "[]" m]
    by (auto simp: fun_eq_iff bt.invar_empty bt_get_eq_map_of split: option.splits)
qed

lemma check_keys_Inr_iff:
  assumes "bt_invar m"
  shows "check_keys m [] = Inr keys \<longleftrightarrow> list_all entry_ok m \<and> keys = m"
  using find_None_iff [of "\<lambda>e. \<not> entry_ok e" m]
  by (auto simp: check_keys_eq reinsert_same [OF assms] list_all_iff split: option.splits)

lemma try_from_Inr_iff:
  assumes "bt_invar (raw_machine_keys raw)"
  shows "try_from raw path = Inr cfg \<longleftrightarrow>
      parse_socket_addr (raw_listen raw) = Some (cfg_listen cfg) \<and>
      raw_usage_file raw \<noteq> [] \<and> cfg_usage_file cfg = raw_usage_file raw \<and>
      raw_machine_keys raw \<noteq> [] \<and> list_all entry_ok (raw_machine_keys raw) \<and>
      cfg_machine_keys cfg = raw_machine_keys raw"
proof (cases "check_keys (raw_machine_keys raw) []")
  case (Inl message)
  with check_keys_Inr_iff [OF assms, of "raw_machine_keys raw"]
  have "\<not> list_all entry_ok (raw_machine_keys raw)" by simp
  with Inl show ?thesis by (simp add: try_from_def Let_def split: option.split)
next
  case (Inr keys)
  with check_keys_Inr_iff [OF assms, of keys]
  have "list_all entry_ok (raw_machine_keys raw)" "keys = raw_machine_keys raw" by simp_all
  with Inr show ?thesis by (cases cfg) (auto simp: try_from_def Let_def split: option.split)
qed

lemma load_Inr_iff:
  "load T path read = Inr cfg \<longleftrightarrow>
     (\<exists>contents raw. read = Inr contents \<and> toml_from_str T contents = Inr raw \<and>
        try_from raw path = (Inr cfg :: 'e ConfigError + Config))"
  for T :: "'e toml_lib"
  by (auto simp: load_def split: sum.splits)

lemma toml_okD: "toml_ok T \<Longrightarrow> toml_from_str T s = Inr raw \<Longrightarrow> bt_invar (raw_machine_keys raw)"
  by (simp add: toml_ok_def)

lemma hex_digit_is_hex: "d < 16 \<Longrightarrow> is_hex_byte (hex_digit d)"
  by (auto simp: is_hex_byte_def hex_digit_def Let_def of_char_of)

lemma hex_of_byte_ok: "length (hex_of_byte b) = 2" "list_all is_hex_byte (hex_of_byte b)"
proof -
  have "of_char b div 16 < (16 :: nat)" by (simp add: less_mult_imp_div_less)
  then show "length (hex_of_byte b) = 2" "list_all is_hex_byte (hex_of_byte b)"
    by (simp_all add: hex_of_byte_def Let_def hex_digit_is_hex)
qed

lemma length_concat_hex: "length (concat (map hex_of_byte bs)) = 2 * length bs"
  by (induction bs) (simp_all add: hex_of_byte_ok)

lemma digest_shape: "digest_ok X \<Longrightarrow> is_digest_hex (digest_hex X k)"
  using hex_of_byte_ok(2)
  by (auto simp: digest_ok_def is_digest_hex_def digest_hex_def length_concat_hex list_all_iff)

definition sample_digest :: digest_lib where
  "sample_digest =
     \<lparr>sha256 = \<lambda>_. replicate 32 (CHR 0xAA), hex_encode = \<lambda>bs. concat (map hex_of_byte bs)\<rparr>"

lemma sample_digest_ok: "digest_ok sample_digest"
  by (simp add: digest_ok_def sample_digest_def)

section \<open>Properties\<close>

text \<open>
  (C21) Startup is fail-closed: a configuration is accepted exactly when the file could be read and
  parsed, the listen address is valid, the usage file path is not empty, there is at least one key
  and every entry maps a 64-digit lowercase hex digest to a machine id that is not blank; and what
  is accepted is what the file says, the key map unchanged.
\<close>

theorem load_accepts_iff:
  assumes "toml_ok T"
  shows "load T path read = Inr cfg \<longleftrightarrow>
    (\<exists>contents raw. read = Inr contents \<and> toml_from_str T contents = Inr raw \<and>
       parse_socket_addr (raw_listen raw) = Some (cfg_listen cfg) \<and>
       raw_usage_file raw \<noteq> [] \<and> cfg_usage_file cfg = raw_usage_file raw \<and>
       raw_machine_keys raw \<noteq> [] \<and> list_all entry_ok (raw_machine_keys raw) \<and>
       cfg_machine_keys cfg = raw_machine_keys raw)"
  unfolding load_Inr_iff using assms try_from_Inr_iff [of _ path cfg]
  by (blast dest: toml_okD)

text \<open>A configuration with one key, as the smoke test writes it.\<close>

definition sample_raw :: RawConfig where
  "sample_raw =
     \<lparr>raw_listen = ''127.0.0.1:80'', raw_usage_file = ''u'',
      raw_machine_keys = [(replicate 64 (CHR ''a''), ''m1'')]\<rparr>"

definition sample_toml :: "unit toml_lib" where
  "sample_toml = \<lparr>toml_from_str = \<lambda>_. Inr sample_raw, toml_message = \<lambda>_. []\<rparr>"

lemma show_sample: "show_v4 [127, 0, 0, 1] 80 = ''127.0.0.1:80''"
proof -
  have "show_nat 127 = ''127''" "show_nat 0 = ''0''" "show_nat 1 = ''1''" "show_nat 80 = ''80''"
    by code_simp+
  then show ?thesis by (simp add: show_v4_def)
qed

lemma sample_toml_ok: "toml_ok sample_toml"
  by (simp add: toml_ok_def sample_toml_def sample_raw_def bt_invar_def)

lemma sample_valid:
  "parse_socket_addr (raw_listen sample_raw) = Some (V4 [127, 0, 0, 1] 80)"
  "list_all entry_ok (raw_machine_keys sample_raw)"
  "toml_from_str sample_toml s = Inr sample_raw"
proof -
  show "parse_socket_addr (raw_listen sample_raw) = Some (V4 [127, 0, 0, 1] 80)"
    using parse_show_v4 [of "[127, 0, 0, 1]" 80] show_sample by (simp add: sample_raw_def)
  show "list_all entry_ok (raw_machine_keys sample_raw)" by code_simp
  show "toml_from_str sample_toml s = Inr sample_raw" by (simp add: sample_toml_def)
qed

definition sample_config :: Config where
  "sample_config =
     \<lparr>cfg_listen = V4 [127, 0, 0, 1] 80, cfg_machine_keys = raw_machine_keys sample_raw,
      cfg_usage_file = ''u''\<rparr>"

lemma load_sample: "load sample_toml path (Inr s) = Inr sample_config"
  unfolding load_Inr_iff
  by (intro exI conjI, rule refl, rule sample_valid(3),
      subst try_from_Inr_iff [OF toml_okD [OF sample_toml_ok sample_valid(3)]])
    (use sample_valid(1,2) in \<open>simp_all add: sample_config_def sample_raw_def\<close>)

theorem load_accepts_iff_witness: "load sample_toml ''c'' (Inr ''x'') = Inr sample_config"
  by (rule load_accepts_iff [OF sample_toml_ok, THEN iffD2])
    (intro exI conjI, rule refl, rule sample_valid(3),
      use sample_valid(1,2) in \<open>simp_all add: sample_config_def sample_raw_def\<close>)

text \<open>
  (C34) Errors never echo configuration content: the text of a rejected but well-formed file is the
  path and one of five fixed messages, the first rule violated in the order listen, usage file,
  empty map, entries.
\<close>

theorem validation_errors_static:
  "case load T path (Inr contents) of
     Inr cfg \<Rightarrow> True
   | Inl err \<Rightarrow>
       (case toml_from_str T contents of
          Inl source \<Rightarrow> display_error T err = ''invalid TOML in '' @ path @ '': '' @ toml_message T source
        | Inr raw \<Rightarrow>
            display_error T err = ''invalid config in '' @ path @ '': '' @
              (if parse_socket_addr (raw_listen raw) = None then LISTEN_MESSAGE
               else if raw_usage_file raw = [] then USAGE_FILE_MESSAGE
               else if raw_machine_keys raw = [] then NO_KEYS_MESSAGE
               else if is_digest_hex (fst (the (find (\<lambda>e. \<not> entry_ok e) (raw_machine_keys raw))))
               then MACHINE_ID_MESSAGE else DIGEST_MESSAGE))"
  by (auto simp: load_def try_from_def display_error_def Let_def check_keys_eq
      split: sum.splits option.splits if_splits)

end
