(* ===== verification/Smoke_Cli.thy ===== *)
theory Smoke_Cli
  imports Rust_Std
begin

text \<open>
  The arguments of the load-smoke command, from \<^verbatim>\<open>src/src/smoke.rs\<close>: \<open>SmokeParams\<close>, \<open>parse_smoke\<close>,
  \<open>parse_uint\<close> and the resolution of the load generator's path; with the error type \<open>CliError\<close> of
  \<^verbatim>\<open>src/src/main.rs\<close> that it shares with the main command line.
\<close>

datatype CliError = Help | UnknownOption | MissingValue | SmokeHelp | SmokeError string

definition DEFAULT_COUNT :: u64 where "DEFAULT_COUNT = 100"
definition DEFAULT_CONCURRENCY :: u64 where "DEFAULT_CONCURRENCY = 10"
definition DEFAULT_RESPONSE_BYTES :: u64 where "DEFAULT_RESPONSE_BYTES = 4096"
definition DEFAULT_DELAY_MS :: u64 where "DEFAULT_DELAY_MS = 5"
definition DEFAULT_PORT :: u16 where "DEFAULT_PORT = 0"

record SmokeParams =
  sm_count :: u64
  sm_concurrency :: u64
  sm_response_bytes :: u64
  sm_delay_ms :: u64
  sm_oha :: "string option"
  sm_port :: u16

definition SmokeParams_default :: SmokeParams where
  "SmokeParams_default =
     \<lparr>sm_count = DEFAULT_COUNT, sm_concurrency = DEFAULT_CONCURRENCY,
      sm_response_bytes = DEFAULT_RESPONSE_BYTES, sm_delay_ms = DEFAULT_DELAY_MS,
      sm_oha = None, sm_port = DEFAULT_PORT\<rparr>"

section \<open>Parsing\<close>

definition quoted :: "string \<Rightarrow> string" where
  "quoted s = [CHR 0x27] @ s @ [CHR 0x27]"

definition parse_uint :: "string \<Rightarrow> string \<Rightarrow> CliError + u64" where
  "parse_uint name value =
     (case parse_unsigned 64 value of
        None \<Rightarrow> Inl (SmokeError (name @ '' requires a non-negative integer, got '' @ quoted value))
      | Some n \<Rightarrow> Inr (of_nat n))"

text \<open>The closure \<open>take_value\<close>: the value and the arguments after it.\<close>

definition take_value :: "string \<Rightarrow> string list \<Rightarrow> CliError + string \<times> string list" where
  "take_value name rest =
     (case rest of
        [] \<Rightarrow> Inl (SmokeError (name @ '' requires a value''))
      | value # rest1 \<Rightarrow>
          if starts_with ''-'' value
          then Inl (SmokeError (name @ '' requires a value, got option-like '' @ quoted value))
          else Inr (value, rest1))"

definition smoke_options :: "string list" where
  "smoke_options =
     [''--count'', ''--concurrency'', ''--response-bytes'', ''--delay-ms'', ''--oha'', ''--port'']"

text \<open>The arms of the match: what an option does with its value.\<close>

definition apply_option :: "string \<Rightarrow> string \<Rightarrow> SmokeParams \<Rightarrow> CliError + SmokeParams" where
  "apply_option arg value p =
     (if arg = ''--oha'' then Inr (p\<lparr>sm_oha := Some value\<rparr>)
      else if arg = ''--port'' then
        (case parse_unsigned 16 value of
           None \<Rightarrow> Inl (SmokeError (''--port requires an integer port 0..65535, got '' @ quoted value))
         | Some n \<Rightarrow> Inr (p\<lparr>sm_port := of_nat n\<rparr>))
      else
        (case parse_uint arg value of
           Inl err \<Rightarrow> Inl err
         | Inr n \<Rightarrow>
             Inr (if arg = ''--count'' then p\<lparr>sm_count := n\<rparr>
                  else if arg = ''--concurrency'' then p\<lparr>sm_concurrency := n\<rparr>
                  else if arg = ''--response-bytes'' then p\<lparr>sm_response_bytes := n\<rparr>
                  else p\<lparr>sm_delay_ms := n\<rparr>)))"

function smoke_args :: "string list \<Rightarrow> SmokeParams \<Rightarrow> CliError + SmokeParams" where
  "smoke_args [] p = Inr p"
| "smoke_args (arg # rest) p =
     (if arg = ''-h'' \<or> arg = ''--help'' then Inl SmokeHelp
      else if arg \<notin> set smoke_options then Inl (SmokeError (''unknown option '' @ quoted arg))
      else case take_value arg rest of
             Inl err \<Rightarrow> Inl err
           | Inr (value, rest1) \<Rightarrow>
               (case apply_option arg value p of
                  Inl err \<Rightarrow> Inl err
                | Inr p1 \<Rightarrow> smoke_args rest1 p1))"
  by pat_completeness auto
termination
  by (relation "measure (\<lambda>(args, p). length args)")
    (auto simp: take_value_def split: list.splits if_splits)

definition parse_smoke :: "string list \<Rightarrow> CliError + SmokeParams" where
  "parse_smoke args =
     (case smoke_args args SmokeParams_default of
        Inl err \<Rightarrow> Inl err
      | Inr p \<Rightarrow>
          if sm_count p = 0 then Inl (SmokeError ''--count must be at least 1'')
          else if sm_concurrency p = 0 then Inl (SmokeError ''--concurrency must be at least 1'')
          else if sm_response_bytes p = 0 then Inl (SmokeError ''--response-bytes must be at least 1'')
          else Inr p)"

section \<open>The load generator\<close>

text \<open>\<open>Path::join\<close> with a relative name.\<close>

definition path_join :: "string \<Rightarrow> string \<Rightarrow> string" where
  "path_join dir name =
     (if dir = [] then name
      else if last dir = CHR ''/'' then dir @ name
      else dir @ ''/'' @ name)"

text \<open>\<open>find_in_path\<close>; \<open>path_var\<close> is \<open>PATH\<close>, which \<open>split_paths\<close> cuts at colons.\<close>

definition find_in_path :: "(string \<Rightarrow> bool) \<Rightarrow> string option \<Rightarrow> string \<Rightarrow> string option" where
  "find_in_path is_file path_var name =
     (case path_var of
        None \<Rightarrow> None
      | Some v \<Rightarrow> find is_file (map (\<lambda>dir. path_join dir name) (split_on (CHR '':'') v)))"

definition resolve_oha ::
  "(string \<Rightarrow> bool) \<Rightarrow> string option \<Rightarrow> string option \<Rightarrow> string option \<Rightarrow> string + string" where
  "resolve_oha is_file oha_bin path_var explicit =
     (case explicit of
        Some path \<Rightarrow>
          if \<not> is_file path then Inl (''oha not found at '' @ quoted path) else Inr path
      | None \<Rightarrow>
          (case oha_bin of
             Some path \<Rightarrow>
               if is_file path then Inr path
               else Inl (''OHA_BIN points to a missing oha: '' @ quoted path)
           | None \<Rightarrow>
               (case find_in_path is_file path_var ''oha'' of
                  Some path \<Rightarrow> Inr path
                | None \<Rightarrow> Inl ''oha not found; set OHA_BIN or pass --oha'')))"

section \<open>Lemmas\<close>

definition params_ok :: "SmokeParams \<Rightarrow> bool" where
  "params_ok p \<longleftrightarrow> sm_count p \<noteq> 0 \<and> sm_concurrency p \<noteq> 0 \<and> sm_response_bytes p \<noteq> 0"

text \<open>The command line that asks for given parameters.\<close>

definition args_of :: "SmokeParams \<Rightarrow> string list" where
  "args_of p =
     [''--count'', show_nat (unat (sm_count p)), ''--concurrency'', show_nat (unat (sm_concurrency p)),
      ''--response-bytes'', show_nat (unat (sm_response_bytes p)),
      ''--delay-ms'', show_nat (unat (sm_delay_ms p)), ''--port'', show_nat (unat (sm_port p))] @
     (case sm_oha p of None \<Rightarrow> [] | Some path \<Rightarrow> [''--oha'', path])"

lemma show_nat_not_option: "\<not> starts_with ''-'' (show_nat n)"
proof
  assume "starts_with ''-'' (show_nat n)"
  then have "CHR ''-'' \<in> set (show_nat n)" by (auto simp: starts_with_iff prefix_def)
  then show False using digit_value_set_show_nat [of "CHR ''-''" n] by (simp add: digit_value_def)
qed

lemma take_value_number [simp]: "take_value arg (show_nat n # rest) = Inr (show_nat n, rest)"
  by (simp add: take_value_def show_nat_not_option)

lemma parse_uint_number [simp]: "parse_uint name (show_nat (unat n)) = Inr n"
  using unat_u64_less [of n] by (simp add: parse_uint_def parse_unsigned_show_nat)

lemma parse_port_number [simp]: "parse_unsigned 16 (show_nat (unat (n :: u16))) = Some (unat n)"
  using unsigned_less [of n] by (intro parse_unsigned_show_nat) simp

lemma smoke_args_args_of:
  assumes "case sm_oha p of None \<Rightarrow> sm_oha q = None | Some path \<Rightarrow> \<not> starts_with ''-'' path"
  shows "smoke_args (args_of p) q = Inr p"
  using assms
  by (cases "sm_oha p")
    (simp_all add: args_of_def smoke_options_def apply_option_def take_value_def show_nat_not_option)

section \<open>Properties\<close>

text \<open>
  (C37) Accepted smoke parameters are usable and every usable combination can be asked for: what
  \<open>parse_smoke\<close> accepts has non-zero count, concurrency and body size, and spelling any such
  parameters out on the command line (with a load generator path that does not look like an option)
  gives exactly them back.
\<close>

theorem smoke_params_roundtrip:
  assumes "params_ok p" and "case sm_oha p of None \<Rightarrow> True | Some path \<Rightarrow> \<not> starts_with ''-'' path"
  shows "parse_smoke (args_of p) = Inr p \<and> (\<forall>args q. parse_smoke args = Inr q \<longrightarrow> params_ok q)"
proof -
  have "smoke_args (args_of p) SmokeParams_default = Inr p"
    by (rule smoke_args_args_of)
      (use assms(2) in \<open>simp add: SmokeParams_default_def split: option.splits\<close>)
  then have "parse_smoke (args_of p) = Inr p"
    using assms(1) by (simp add: parse_smoke_def params_ok_def)
  then show ?thesis
    by (auto simp: parse_smoke_def params_ok_def split: sum.splits if_splits)
qed

theorem smoke_params_roundtrip_witness:
  "let p = SmokeParams_default\<lparr>sm_count := 3, sm_oha := Some ''/usr/bin/oha''\<rparr> in
     parse_smoke (args_of p) = Inr p"
proof -
  let ?p = "SmokeParams_default\<lparr>sm_count := 3, sm_oha := Some ''/usr/bin/oha''\<rparr>"
  have "params_ok ?p"
    by (simp add: params_ok_def SmokeParams_default_def DEFAULT_CONCURRENCY_def
        DEFAULT_RESPONSE_BYTES_def)
  then show ?thesis
    using smoke_params_roundtrip [of ?p] by (simp add: Let_def starts_with_def)
qed

text \<open>
  A rejected number is echoed: the error for an option whose value is not a number repeats the
  value between quotes, for every value the user may have typed there.
\<close>

lemma smoke_errors_echo_values:
  assumes "parse_unsigned 64 v = None" and "\<not> starts_with ''-'' v"
  shows "parse_smoke [''--count'', v] =
    Inl (SmokeError (''--count requires a non-negative integer, got '' @ [CHR 0x27] @ v @ [CHR 0x27]))"
  using assms
  by (simp add: parse_smoke_def smoke_options_def take_value_def apply_option_def parse_uint_def
      quoted_def)

lemma smoke_errors_echo_values_witness:
  "parse_smoke [''--count'', ''many''] =
    Inl (SmokeError (''--count requires a non-negative integer, got '' @ [CHR 0x27] @ ''many'' @ [CHR 0x27]))"
proof -
  have "parse_unsigned 64 ''many'' = None" "\<not> starts_with ''-'' ''many''"
    by (simp_all add: parse_unsigned_def digit_value_def starts_with_def)
  then show ?thesis by (rule smoke_errors_echo_values)
qed

end
