(* ===== verification/Float64.thy ===== *)
theory Float64
  imports Complex_Main Rust_Std
begin

text \<open>
  The double-precision arithmetic of the percentage and latency reports. A finite \<open>f64\<close> is the
  rational number it denotes, and an operation is the exact rational operation followed by
  \<open>f64_of\<close>, rounding to 53 significant bits, ties to even. The exponent range is not bounded: the
  program's values (counts below \<open>2 ^ 64\<close> and their ratios) stay far inside the normal range.
\<close>

definition pow2 :: "int \<Rightarrow> rat" where
  "pow2 e = (if 0 \<le> e then 2 ^ nat e else 1 / 2 ^ nat (- e))"

fun floor_log2 :: "nat \<Rightarrow> nat" where
  "floor_log2 n = (if n < 2 then 0 else Suc (floor_log2 (n div 2)))"

declare floor_log2.simps [simp del]

text \<open>The exponent \<open>e\<close> with \<open>2 ^ e \<le> n / d < 2 ^ (e + 1)\<close>.\<close>

definition binade :: "nat \<Rightarrow> nat \<Rightarrow> int" where
  "binade n d =
     (let e = int (floor_log2 n) - int (floor_log2 d)
      in if rat_of_nat n < pow2 e * rat_of_nat d then e - 1 else e)"

definition round_half_even :: "rat \<Rightarrow> int" where
  "round_half_even x =
     (let f = \<lfloor>x\<rfloor>; r = x - of_int f
      in if r < 1 / 2 then f else if 1 / 2 < r then f + 1 else if even f then f else f + 1)"

definition f64_of :: "rat \<Rightarrow> rat" where
  "f64_of x =
     (if x = 0 then 0
      else let (n, d) = quotient_of \<bar>x\<bar>;
               e = binade (nat n) (nat d) - 52;
               m = round_half_even (\<bar>x\<bar> / pow2 e)
           in sgn x * of_int m * pow2 e)"

definition f64_mul :: "rat \<Rightarrow> rat \<Rightarrow> rat" where
  "f64_mul a b = f64_of (a * b)"

definition f64_div :: "rat \<Rightarrow> rat \<Rightarrow> rat" where
  "f64_div a b = f64_of (a / b)"

text \<open>The cast \<open>n as f64\<close> of a \<open>u64\<close>.\<close>

definition u64_as_f64 :: "u64 \<Rightarrow> rat" where
  "u64_as_f64 n = f64_of (rat_of_nat (unat n))"

text \<open>Formatting \<open>{:.1}\<close> and \<open>{:.2}\<close> of a non-negative value: exact decimal rounding, ties to even.\<close>

definition fmt_fixed :: "nat \<Rightarrow> rat \<Rightarrow> string" where
  "fmt_fixed k x =
     (let n = nat (round_half_even (x * 10 ^ k));
          frac = show_nat (n mod 10 ^ k)
      in show_nat (n div 10 ^ k) @ ''.'' @ replicate (k - length frac) (CHR ''0'') @ frac)"

text \<open>
  \<open>str::parse::<f64>\<close>: an optional sign, then digits with an optional fraction and exponent, or the
  words for infinity and not-a-number in any case. The last two are \<open>NonFinite\<close>.
\<close>

datatype f64_value = Finite rat | NonFinite

definition is_digit :: "char \<Rightarrow> bool" where
  "is_digit c \<longleftrightarrow> digit_value c \<noteq> None"

definition take_sign :: "string \<Rightarrow> bool \<times> string" where
  "take_sign s =
     (case s of
        [] \<Rightarrow> (False, [])
      | c # r \<Rightarrow> if c = CHR ''-'' then (True, r) else if c = CHR ''+'' then (False, r) else (False, s))"

definition pow10 :: "int \<Rightarrow> rat" where
  "pow10 e = (if 0 \<le> e then 10 ^ nat e else 1 / 10 ^ nat (- e))"

definition parse_exponent :: "string \<Rightarrow> int option" where
  "parse_exponent s =
     (case s of
        [] \<Rightarrow> Some 0
      | c # r \<Rightarrow>
          if ascii_lower c \<noteq> CHR ''e'' then None
          else let (neg, ds) = take_sign r
               in if ds = [] then None
                  else map_option (\<lambda>n. if neg then - int n else int n) (digits_value 0 ds))"

definition parse_f64 :: "string \<Rightarrow> f64_value option" where
  "parse_f64 s =
     (let (neg, r) = take_sign s
      in if to_ascii_lowercase r \<in> {''inf'', ''infinity'', ''nan''} then Some NonFinite
         else let ip = takeWhile is_digit r;
                  r1 = dropWhile is_digit r;
                  has_dot = (r1 \<noteq> [] \<and> hd r1 = CHR ''.'');
                  fp = (if has_dot then takeWhile is_digit (tl r1) else []);
                  r2 = (if has_dot then dropWhile is_digit (tl r1) else r1)
              in if ip = [] \<and> fp = [] then None
                 else case (digits_value 0 (ip @ fp), parse_exponent r2) of
                        (Some n, Some e) \<Rightarrow>
                          Some (Finite ((if neg then - 1 else 1) *
                            f64_of (rat_of_nat n * pow10 (e - int (length fp)))))
                      | _ \<Rightarrow> None)"

section \<open>Exactness on small integers\<close>

lemma floor_log2_bounds: "0 < n \<Longrightarrow> 2 ^ floor_log2 n \<le> n \<and> n < 2 ^ Suc (floor_log2 n)"
proof (induction n rule: floor_log2.induct)
  case (1 n)
  show ?case
  proof (cases "n < 2")
    case True
    with "1.prems" show ?thesis by (simp add: floor_log2.simps [of n])
  next
    case False
    with "1.IH" show ?thesis by (auto simp: floor_log2.simps [of n])
  qed
qed

lemma round_half_even_int [simp]: "round_half_even (of_int k) = k"
  by (simp add: round_half_even_def)

lemma pow2_pos [simp]: "0 < pow2 e"
  by (simp add: pow2_def)

lemma floor_log2_1 [simp]: "floor_log2 (Suc 0) = 0"
  by (simp add: floor_log2.simps [of "Suc 0"])

lemma binade_nat: "0 < n \<Longrightarrow> binade n (Suc 0) = int (floor_log2 n)"
proof -
  assume "0 < n"
  then have "(2::rat) ^ floor_log2 n \<le> rat_of_nat n"
    using floor_log2_bounds [of n] of_nat_mono [of "2 ^ floor_log2 n" n, where ?'a = rat] by simp
  then show ?thesis
    by (simp add: binade_def pow2_def)
qed

lemma quotient_of_nat: "quotient_of (rat_of_nat n) = (int n, 1)"
  using quotient_of_int [of "int n"] by simp

lemma f64_of_nat_exact: "n < 2 ^ 53 \<Longrightarrow> f64_of (rat_of_nat n) = rat_of_nat n"
proof (cases "n = 0")
  case True
  then show ?thesis by (simp add: f64_of_def)
next
  case False
  assume n: "n < 2 ^ 53"
  from False have "2 ^ floor_log2 n \<le> n" using floor_log2_bounds [of n] by simp
  with n have "(2::nat) ^ floor_log2 n < 2 ^ 53" by simp
  then have l: "floor_log2 n < 53" using power_less_imp_less_exp [of 2 "floor_log2 n" 53] by simp
  define e where "e = int (floor_log2 n) - 52"
  from l have p: "pow2 e = 1 / 2 ^ nat (- e)" by (auto simp: pow2_def e_def)
  have "rat_of_nat n / pow2 e = of_int (int n * 2 ^ nat (- e))" by (simp add: p)
  then have "round_half_even (rat_of_nat n / pow2 e) = int n * 2 ^ nat (- e)"
    by (simp only: round_half_even_int)
  with False show ?thesis
    by (simp add: f64_of_def quotient_of_nat binade_nat Let_def flip: e_def) (simp add: p)
qed

lemma f64_of_100: "f64_of 100 = 100"
  using f64_of_nat_exact [of 100] by simp

end
