(* ===== verification/Summary.thy ===== *)
theory Summary
  imports Libraries BTree Float64
begin

text \<open>
  The summary command of \<^verbatim>\<open>src/src/summary.rs\<close>: reading the usage file line by line
  (\<open>read_usage_file\<close>), the grouped totals (\<open>accumulate_usage\<close>, \<open>add\<close>), the coverage, the rendered
  table and the warnings. The specification is stated over the canonical records of the file, and
  the grouping facts come from the ordered-map interface.
\<close>

section \<open>Data\<close>

type_synonym GroupKey = "string \<times> string option"
type_synonym EffortKey = "string option"

record GroupTotals =
  tot_records :: u64
  tot_input_total :: "u64 option"
  tot_uncached :: "u64 option"
  tot_cache_read :: "u64 option"
  tot_cache_write :: "u64 option"
  tot_output_total :: "u64 option"
  tot_reasoning :: "u64 option"
  tot_total :: "u64 option"

definition GroupTotals_default :: GroupTotals where
  "GroupTotals_default =
     \<lparr>tot_records = 0, tot_input_total = None, tot_uncached = None, tot_cache_read = None,
      tot_cache_write = None, tot_output_total = None, tot_reasoning = None, tot_total = None\<rparr>"

record ReadWarnings =
  partial_tail :: bool
  unparseable :: u64

record Coverage =
  cov_accepted :: u64
  cov_metered :: u64

text \<open>\<open>Coverage::unmetered\<close>: the subtraction would panic or wrap below zero.\<close>

definition unmetered :: "Coverage \<Rightarrow> u64" where
  "unmetered c = cov_accepted c - cov_metered c"

definition percentage :: "Coverage \<Rightarrow> rat option" where
  "percentage c =
     (if cov_accepted c = 0 then None
      else Some (f64_div (f64_mul (u64_as_f64 (cov_metered c)) 100) (u64_as_f64 (cov_accepted c))))"

section \<open>Accumulation\<close>

definition add :: "u64 option \<Rightarrow> u64 option \<Rightarrow> u64 option" where
  "add acc v =
     (case v of
        None \<Rightarrow> acc
      | Some n \<Rightarrow> Some (saturating_add (case acc of None \<Rightarrow> 0 | Some s \<Rightarrow> s) n))"

definition accumulate_usage :: "GroupTotals \<Rightarrow> Usage \<Rightarrow> GroupTotals" where
  "accumulate_usage t u =
     t\<lparr>tot_records := tot_records t + 1,
       tot_input_total := add (tot_input_total t) (input_total u),
       tot_uncached := add (tot_uncached t) (uncached u),
       tot_cache_read := add (tot_cache_read t) (cache_read u),
       tot_cache_write := add (tot_cache_write t) (cache_write u),
       tot_output_total := add (tot_output_total t) (output_total u),
       tot_reasoning := add (tot_reasoning t) (reasoning u),
       tot_total := add (tot_total t) (total u)\<rparr>"

section \<open>Reading the file\<close>

text \<open>The variables of \<open>read_usage_file\<close>, which are also its result.\<close>

record summary =
  groups :: "(GroupKey, GroupTotals) btree_map"
  effort_groups :: "(EffortKey, GroupTotals) btree_map"
  coverage :: Coverage
  warnings :: ReadWarnings

definition summary_init :: summary where
  "summary_init =
     \<lparr>groups = [], effort_groups = [], coverage = \<lparr>cov_accepted = 0, cov_metered = 0\<rparr>,
      warnings = \<lparr>partial_tail = False, unparseable = 0\<rparr>\<rparr>"

text \<open>The arm of the match for a canonical record.\<close>

definition count_record :: "summary \<Rightarrow> AuditRecord \<Rightarrow> summary" where
  "count_record st r =
     (let cov1 = (coverage st)\<lparr>cov_accepted := cov_accepted (coverage st) + 1\<rparr>;
          cov2 = (if usage r \<noteq> None then cov1\<lparr>cov_metered := cov_metered cov1 + 1\<rparr> else cov1);
          st1 = st\<lparr>coverage := cov2\<rparr>
      in case usage r of
           None \<Rightarrow> st1
         | Some u \<Rightarrow>
             st1\<lparr>groups := bt_update (machine_id r, model r) GroupTotals_default
                    (\<lambda>t. accumulate_usage t u) (groups st1),
                 effort_groups := bt_update (reasoning_effort r) GroupTotals_default
                    (\<lambda>t. accumulate_usage t u) (effort_groups st1)\<rparr>)"

definition terminated :: "bytes \<Rightarrow> bool" where
  "terminated line \<longleftrightarrow> line \<noteq> [] \<and> last line = CHR 0x0A"

text \<open>The record bytes of a line: without its line feed and one carriage return before it.\<close>

definition record_bytes :: "bytes \<Rightarrow> bytes" where
  "record_bytes line =
     (let rec1 = (if terminated line then butlast line else line)
      in case strip_suffix [CHR 0x0D] rec1 of Some stripped \<Rightarrow> stripped | None \<Rightarrow> rec1)"

text \<open>The body of the reading loop for one line that was read.\<close>

definition process_line :: "record_codec \<Rightarrow> summary \<Rightarrow> bytes \<Rightarrow> summary" where
  "process_line C st line =
     (let rec = record_bytes line
      in case record_from_slice C rec of
           Some r \<Rightarrow>
             if schema_version r = SCHEMA_VERSION \<and> kind r = KIND then count_record st r else st
         | None \<Rightarrow>
             if terminated line
             then st\<lparr>warnings := (warnings st)\<lparr>unparseable := unparseable (warnings st) + 1\<rparr>\<rparr>
             else if \<not> list_all is_ascii_whitespace rec
             then st\<lparr>warnings := (warnings st)\<lparr>partial_tail := True\<rparr>\<rparr>
             else st)"

text \<open>
  \<open>BufRead::read_until\<close> a line feed. The rest of the file is \<open>rd\<close>; \<open>err\<close> is the error, if any, that
  reading past it gives instead of the end of file.
\<close>

definition read_until :: "bytes \<Rightarrow> string option \<Rightarrow> string + (bytes \<times> bytes)" where
  "read_until rd err =
     (if CHR 0x0A \<in> set rd
      then Inr (takeWhile (\<lambda>c. c \<noteq> CHR 0x0A) rd @ [CHR 0x0A], tl (dropWhile (\<lambda>c. c \<noteq> CHR 0x0A) rd))
      else case err of Some e \<Rightarrow> Inl e | None \<Rightarrow> Inr (rd, []))"

lemma read_until_shrinks:
  "read_until rd err = Inr (line, rest) \<Longrightarrow> line \<noteq> [] \<Longrightarrow> length rest < length rd"
proof -
  assume r: "read_until rd err = Inr (line, rest)" and ne: "line \<noteq> []"
  show ?thesis
  proof (cases "CHR 0x0A \<in> set rd")
    case True
    then have "rest = tl (dropWhile (\<lambda>c. c \<noteq> CHR 0x0A) rd)" "dropWhile (\<lambda>c. c \<noteq> CHR 0x0A) rd \<noteq> []"
      using r by (auto simp: read_until_def)
    then show ?thesis
      using length_dropWhile_le [of "\<lambda>c. c \<noteq> CHR 0x0A" rd]
      by (cases "dropWhile (\<lambda>c. c \<noteq> CHR 0x0A) rd") auto
  next
    case False
    then show ?thesis using r ne by (auto simp: read_until_def split: option.splits)
  qed
qed

function read_loop :: "record_codec \<Rightarrow> summary \<Rightarrow> bytes \<Rightarrow> string option \<Rightarrow> string + summary" where
  "read_loop C st rd err =
     (case read_until rd err of
        Inl e \<Rightarrow> Inl e
      | Inr (line, rest) \<Rightarrow>
          if line = [] then Inr st
          else let st1 = process_line C st line
               in if terminated line then read_loop C st1 rest err else Inr st1)"
  by pat_completeness auto
termination
  by (relation "measure (\<lambda>(C, st, rd, err). length rd)") (auto dest: read_until_shrinks)

declare read_loop.simps [simp del]

text \<open>
  \<open>read_usage_file\<close>; \<open>opened\<close> is the result of opening \<open>path\<close>: the text of the error, or the
  content with the error that ends it, if any.
\<close>

definition read_usage_file ::
  "record_codec \<Rightarrow> string \<Rightarrow> string + (bytes \<times> string option) \<Rightarrow> string + summary" where
  "read_usage_file C path opened =
     (let fail = (\<lambda>err. ''cannot read usage file '' @ path @ '': '' @ err)
      in case opened of
           Inl err \<Rightarrow> Inl (fail err)
         | Inr (content, rerr) \<Rightarrow>
             (case read_loop C summary_init content rerr of
                Inl err \<Rightarrow> Inl (fail err)
              | Inr st \<Rightarrow> Inr st))"

section \<open>Rendering\<close>

definition MACHINE_W :: nat where "MACHINE_W = 14"
definition MODEL_W :: nat where "MODEL_W = 16"
definition RECORDS_W :: nat where "RECORDS_W = 8"
definition COUNTER_W :: nat where "COUNTER_W = 12"

text \<open>
  Padding counts characters: the bytes of a UTF-8 string that do not continue a character. \<open>{:<w$}\<close>
  is \<open>pad_right\<close> and \<open>{:>w$}\<close> is \<open>pad_left\<close>.
\<close>

definition char_count :: "string \<Rightarrow> nat" where
  "char_count s = length (filter (\<lambda>c. (of_char c :: nat) div 64 \<noteq> 2) s)"

definition pad_right :: "nat \<Rightarrow> string \<Rightarrow> string" where
  "pad_right w s = s @ replicate (w - char_count s) (CHR '' '')"

definition pad_left :: "nat \<Rightarrow> string \<Rightarrow> string" where
  "pad_left w s = replicate (w - char_count s) (CHR '' '') @ s"

definition show_u64 :: "u64 \<Rightarrow> string" where
  "show_u64 n = show_nat (unat n)"

definition cell :: "u64 option \<Rightarrow> string" where
  "cell v = (case v of Some n \<Rightarrow> show_u64 n | None \<Rightarrow> ''-'')"

definition counter_cells :: "string list \<Rightarrow> string" where
  "counter_cells cs = concat (map (\<lambda>c. '' '' @ pad_left COUNTER_W c) cs)"

definition totals_cells :: "GroupTotals \<Rightarrow> string" where
  "totals_cells t =
     pad_left RECORDS_W (show_u64 (tot_records t)) @
     counter_cells (map cell [tot_input_total t, tot_uncached t, tot_cache_read t,
       tot_cache_write t, tot_output_total t, tot_reasoning t, tot_total t])"

definition heading_cells :: string where
  "heading_cells =
     pad_left RECORDS_W ''records'' @
     counter_cells [''input'', ''uncached'', ''cache_read'', ''cache_write'', ''output'',
       ''reasoning'', ''total'']"

text \<open>The lines \<open>render\<close> writes, in order; each \<open>writeln!\<close> ends one line.\<close>

definition render_lines ::
  "(GroupKey, GroupTotals) btree_map \<Rightarrow> (EffortKey, GroupTotals) btree_map \<Rightarrow> Coverage \<Rightarrow> string list" where
  "render_lines gs egs cov =
     [pad_right MACHINE_W ''machine'' @ pad_right MODEL_W ''model'' @ heading_cells] @
     map (\<lambda>((machine, mdl), t).
       pad_right MACHINE_W machine @
       pad_right MODEL_W (case mdl of Some m \<Rightarrow> m | None \<Rightarrow> ''-'') @ totals_cells t) gs @
     [[]] @
     [pad_right MACHINE_W ''effort'' @ heading_cells] @
     map (\<lambda>(eff, t).
       pad_right MACHINE_W (case eff of Some e \<Rightarrow> e | None \<Rightarrow> ''-'') @ totals_cells t) egs @
     [''- = not recorded in any record; totals sum only recorded values''] @
     [''coverage: accepted='' @ show_u64 (cov_accepted cov) @ '' metered='' @
        show_u64 (cov_metered cov) @ '' unmetered='' @ show_u64 (unmetered cov) @ '' '' @
        (case percentage cov of
           Some pct \<Rightarrow> ''('' @ fmt_fixed 1 pct @ ''%)''
         | None \<Rightarrow> ''(no accepted lifecycles)'')]"

text \<open>The complete text.\<close>

definition render ::
  "(GroupKey, GroupTotals) btree_map \<Rightarrow> (EffortKey, GroupTotals) btree_map \<Rightarrow> Coverage \<Rightarrow> string" where
  "render gs egs cov = concat (map (\<lambda>l. l @ [CHR 0x0A]) (render_lines gs egs cov))"

definition print_warnings :: "ReadWarnings \<Rightarrow> string list" where
  "print_warnings w =
     (if partial_tail w
      then [''debitmetre: summary: ignored 1 unfinished trailing line (possible crash partial write)'']
      else []) @
     (if 0 < unparseable w
      then [''debitmetre: summary: skipped '' @ show_u64 (unparseable w) @
            '' unparseable record(s); only complete canonical records are counted'']
      else [])"

text \<open>
  \<open>print_summary\<close> with the stream it prints to: what reached the stream, and the error or the lines
  on stderr. A write that fails leaves what was written before it.
\<close>

definition print_summary ::
  "record_codec \<Rightarrow> string \<Rightarrow> string + (bytes \<times> string option) \<Rightarrow> sink \<Rightarrow>
     string \<times> (string + string list)" where
  "print_summary C path opened out =
     (case read_usage_file C path opened of
        Inl err \<Rightarrow> ([], Inl err)
      | Inr st \<Rightarrow>
          (case write_lines out (render_lines (groups st) (effort_groups st) (coverage st)) of
             (written, Some err) \<Rightarrow> (written, Inl (''cannot write summary: '' @ err))
           | (written, None) \<Rightarrow> (written, Inr (print_warnings (warnings st)))))"

section \<open>Sums of recorded values\<close>

text \<open>
  The total of a counter over a list of records: null when no record has it, otherwise the exact
  sum, capped at the largest \<open>u64\<close>.
\<close>

definition sat_sum :: "u64 option list \<Rightarrow> u64 option" where
  "sat_sum xs =
     (let vs = List.map_filter id xs
      in if vs = [] then None
         else Some (of_nat (min (sum_list (map unat vs)) (2 ^ 64 - 1))))"

lemma unat_of_nat_min: "unat (of_nat (min n (2 ^ 64 - 1)) :: u64) = min n (2 ^ 64 - 1)"
  by (simp add: unsigned_of_nat take_bit_eq_mod)

lemma add_sat_sum: "add (sat_sum xs) x = sat_sum (xs @ [x])"
proof (cases x)
  case None
  then show ?thesis by (simp add: add_def sat_sum_def map_filter_append List.map_filter_def)
next
  case (Some n)
  define vs where "vs = List.map_filter id xs"
  have vs: "List.map_filter id (xs @ [Some n]) = vs @ [n]"
    by (simp add: vs_def map_filter_append List.map_filter_def)
  have "saturating_add (of_nat (min (sum_list (map unat vs)) (2 ^ 64 - 1))) n =
      of_nat (min (sum_list (map unat (vs @ [n]))) (2 ^ 64 - 1))"
    using unat_of_nat_min by (intro word_unat_eq_iff [THEN iffD2]) (simp add: unat_saturating_add)
  then show ?thesis
    by (cases "vs = []") (simp_all add: add_def sat_sum_def Some vs Let_def flip: vs_def)
qed

lemma foldl_add: "foldl add None xs = sat_sum xs"
  by (induction xs rule: rev_induct) (simp_all add: add_sat_sum, simp add: sat_sum_def List.map_filter_def)

text \<open>The totals of a group, read off its records.\<close>

definition totals_of :: "Usage list \<Rightarrow> GroupTotals" where
  "totals_of us =
     \<lparr>tot_records = of_nat (length us), tot_input_total = sat_sum (map input_total us),
      tot_uncached = sat_sum (map uncached us), tot_cache_read = sat_sum (map cache_read us),
      tot_cache_write = sat_sum (map cache_write us), tot_output_total = sat_sum (map output_total us),
      tot_reasoning = sat_sum (map reasoning us), tot_total = sat_sum (map total us)\<rparr>"

lemma accumulate_totals_of: "accumulate_usage (totals_of us) u = totals_of (us @ [u])"
  by (simp add: accumulate_usage_def totals_of_def add_sat_sum)

lemma foldl_accumulate: "foldl accumulate_usage GroupTotals_default us = totals_of us"
proof (induction us rule: rev_induct)
  case Nil
  show ?case by (simp add: GroupTotals_default_def totals_of_def sat_sum_def List.map_filter_def)
next
  case (snoc u us)
  then show ?case by (simp add: accumulate_totals_of)
qed

section \<open>What the reader computes\<close>

text \<open>The lines of a file: a last line without a line feed counts only if it is not empty.\<close>

definition pieces :: "bytes \<Rightarrow> bytes list" where
  "pieces content =
     (let ps = split_on (CHR 0x0A) content in if last ps = [] then butlast ps else ps)"

definition strip_cr :: "bytes \<Rightarrow> bytes" where
  "strip_cr p = (case strip_suffix [CHR 0x0D] p of Some q \<Rightarrow> q | None \<Rightarrow> p)"

text \<open>The canonical records of a file, in order.\<close>

definition file_records :: "record_codec \<Rightarrow> bytes \<Rightarrow> AuditRecord list" where
  "file_records C content =
     filter canonical (List.map_filter (\<lambda>p. record_from_slice C (strip_cr p)) (pieces content))"

text \<open>The part of the reader's variables that the printed table is made of.\<close>

definition counts ::
  "summary \<Rightarrow> (GroupKey, GroupTotals) btree_map \<times> (EffortKey, GroupTotals) btree_map \<times> Coverage" where
  "counts st = (groups st, effort_groups st, coverage st)"

lemma record_bytes_simps:
  "record_bytes (p @ [CHR 0x0A]) = strip_cr p"
  "CHR 0x0A \<notin> set p \<Longrightarrow> record_bytes p = strip_cr p"
  by (auto simp: record_bytes_def strip_cr_def terminated_def Let_def) (metis last_in_set)+

lemma terminated_simps [simp]:
  "terminated (p @ [CHR 0x0A])" "CHR 0x0A \<notin> set p \<Longrightarrow> \<not> terminated p"
  by (auto simp: terminated_def) (metis last_in_set)

lemma read_until_split:
  assumes "CHR 0x0A \<in> set rd"
  obtains a rest where "rd = a @ CHR 0x0A # rest" and "CHR 0x0A \<notin> set a"
    and "read_until rd err = Inr (a @ [CHR 0x0A], rest)"
proof -
  obtain a rest where rd: "rd = a @ CHR 0x0A # rest" and a: "CHR 0x0A \<notin> set a"
    using split_list_first [OF assms] by blast
  moreover have "takeWhile (\<lambda>c. c \<noteq> CHR 0x0A) rd = a"
    and "dropWhile (\<lambda>c. c \<noteq> CHR 0x0A) rd = CHR 0x0A # rest"
    using a by (simp_all add: rd takeWhile_neq_append dropWhile_neq_append)
  ultimately show thesis by (intro that) (simp_all add: read_until_def)
qed

lemma read_loop_pieces:
  "read_loop C st rd None =
     Inr (let ps = split_on (CHR 0x0A) rd;
              st1 = foldl (\<lambda>s p. process_line C s (p @ [CHR 0x0A])) st (butlast ps)
          in if last ps = [] then st1 else process_line C st1 (last ps))"
proof (induction "length rd" arbitrary: rd st rule: less_induct)
  case less
  show ?case
  proof (cases "CHR 0x0A \<in> set rd")
    case True
    then obtain a rest where rd: "rd = a @ CHR 0x0A # rest" "CHR 0x0A \<notin> set a"
      and ru: "read_until rd None = Inr (a @ [CHR 0x0A], rest)" by (rule read_until_split)
    have "read_loop C st rd None = read_loop C (process_line C st (a @ [CHR 0x0A])) rest None"
      by (subst read_loop.simps) (simp add: ru)
    also have "\<dots> = Inr (let ps = split_on (CHR 0x0A) rest;
        st1 = foldl (\<lambda>s p. process_line C s (p @ [CHR 0x0A])) (process_line C st (a @ [CHR 0x0A])) (butlast ps)
        in if last ps = [] then st1 else process_line C st1 (last ps))"
      by (rule less) (simp add: rd)
    finally show ?thesis using rd by (simp add: Let_def)
  next
    case False
    then show ?thesis by (simp add: read_loop.simps [of C st rd] read_until_def)
  qed
qed

lemma counts_count_record_cong:
  "counts st = counts st' \<Longrightarrow> counts (count_record st r) = counts (count_record st' r)"
  by (simp add: counts_def count_record_def Let_def split: option.splits)

lemma counts_foldl_cong:
  "counts st = counts st' \<Longrightarrow> counts (foldl count_record st rs) = counts (foldl count_record st' rs)"
proof (induction rs arbitrary: st st')
  case (Cons r rs)
  from Cons.prems have "counts (count_record st r) = counts (count_record st' r)"
    by (rule counts_count_record_cong)
  from Cons.IH [OF this] show ?case by simp
qed simp

lemma counts_process_line:
  "counts (process_line C st line) =
     counts (foldl count_record st
       (filter canonical (List.map_filter (record_from_slice C) [record_bytes line])))"
  by (auto simp: process_line_def counts_def canonical_def List.map_filter_def Let_def
      split: option.splits)

lemma counts_foldl_process:
  "counts (foldl (\<lambda>s p. process_line C s (p @ [CHR 0x0A])) st ps) =
     counts (foldl count_record st
       (filter canonical (List.map_filter (\<lambda>p. record_from_slice C (strip_cr p)) ps)))"
proof (induction ps rule: rev_induct)
  case Nil
  show ?case by (simp add: List.map_filter_def)
next
  case (snoc p ps)
  then show ?case
    by (auto simp: counts_process_line record_bytes_simps map_filter_append List.map_filter_def
        split: option.splits intro: counts_foldl_cong counts_count_record_cong)
qed

lemma last_split_on_no_sep: "c \<notin> set (last (split_on c s))"
  using split_on_pieces [of "last (split_on c s)" c s] by simp

lemma read_loop_counts:
  "\<exists>st. read_loop C summary_init content None = Inr st \<and>
     counts st = counts (foldl count_record summary_init (file_records C content))"
proof -
  define ps where "ps = split_on (CHR 0x0A) content"
  define st1 where "st1 = foldl (\<lambda>s p. process_line C s (p @ [CHR 0x0A])) summary_init (butlast ps)"
  have no: "CHR 0x0A \<notin> set (last ps)" unfolding ps_def by (rule last_split_on_no_sep)
  have ps: "ps = butlast ps @ [last ps]" by (simp add: ps_def)
  have 1: "counts st1 = counts (foldl count_record summary_init
      (filter canonical (List.map_filter (\<lambda>p. record_from_slice C (strip_cr p)) (butlast ps))))"
    unfolding st1_def by (rule counts_foldl_process)
  have 2: "counts (process_line C st1 (last ps)) = counts (foldl count_record summary_init
      (filter canonical (List.map_filter (\<lambda>p. record_from_slice C (strip_cr p)) ps)))"
    using counts_foldl_cong [OF 1] no
    by (subst ps) (simp add: counts_process_line record_bytes_simps map_filter_append List.map_filter_def
        split: option.splits)
  have "read_loop C summary_init content None =
      Inr (if last ps = [] then st1 else process_line C st1 (last ps))"
    by (simp add: read_loop_pieces st1_def ps_def Let_def)
  then show ?thesis
    using 1 2 by (auto simp: file_records_def pieces_def ps_def Let_def)
qed

section \<open>Grouping and coverage\<close>

text \<open>The totals the records of \<open>ms\<close> with key \<open>k\<close> amount to; a key no record has is absent.\<close>

definition group_totals :: "(AuditRecord \<Rightarrow> 'k) \<Rightarrow> AuditRecord list \<Rightarrow> 'k \<Rightarrow> GroupTotals option" where
  "group_totals key ms k =
     (let ys = filter (\<lambda>r. key r = k) ms
      in if ys = [] then None else Some (totals_of (map (\<lambda>r. the (usage r)) ys)))"

abbreviation group_key :: "AuditRecord \<Rightarrow> GroupKey" where
  "group_key r \<equiv> (machine_id r, model r)"

definition is_metered :: "AuditRecord \<Rightarrow> bool" where
  "is_metered r \<longleftrightarrow> usage r \<noteq> None"

definition group_step ::
  "(AuditRecord \<Rightarrow> 'k::linorder) \<Rightarrow> ('k, GroupTotals) btree_map \<Rightarrow> AuditRecord \<Rightarrow> ('k, GroupTotals) btree_map" where
  "group_step key m r =
     bt_update (key r) GroupTotals_default (\<lambda>t. accumulate_usage t (the (usage r))) m"

lemma count_record_fields:
  "groups (count_record st r) = (if is_metered r then group_step group_key (groups st) r else groups st)"
  "effort_groups (count_record st r) =
     (if is_metered r then group_step reasoning_effort (effort_groups st) r else effort_groups st)"
  "cov_accepted (coverage (count_record st r)) = cov_accepted (coverage st) + 1"
  "cov_metered (coverage (count_record st r)) = cov_metered (coverage st) + of_bool (is_metered r)"
  by (auto simp: count_record_def group_step_def is_metered_def Let_def split: option.splits)

lemma foldl_count_record_fields:
  "groups (foldl count_record st rs) = foldl (group_step group_key) (groups st) (filter is_metered rs)"
  "effort_groups (foldl count_record st rs) =
     foldl (group_step reasoning_effort) (effort_groups st) (filter is_metered rs)"
  "cov_accepted (coverage (foldl count_record st rs)) = cov_accepted (coverage st) + of_nat (length rs)"
  "cov_metered (coverage (foldl count_record st rs)) =
     cov_metered (coverage st) + of_nat (length (filter is_metered rs))"
  by (induction rs arbitrary: st) (simp_all add: count_record_fields)

lemma foldl_usage_map: "foldl (\<lambda>t r. accumulate_usage t (the (usage r))) t rs =
    foldl accumulate_usage t (map (\<lambda>r. the (usage r)) rs)"
  by (induction rs arbitrary: t) simp_all

lemma group_fold_get:
  "bt_get (foldl (group_step key) [] ms) k = group_totals key ms k"
  using bt.group_get [of key GroupTotals_default "\<lambda>r t. accumulate_usage t (the (usage r))" ms k]
  by (simp add: group_step_def [abs_def] group_totals_def foldl_usage_map foldl_accumulate Let_def)

lemma group_fold_invar: "bt_invar (foldl (group_step key) [] ms)"
  using bt.group_invar [OF bt.invar_empty, of key GroupTotals_default "\<lambda>r t. accumulate_usage t (the (usage r))" ms]
  by (simp add: group_step_def [abs_def])

lemma sum_records_update:
  "(\<Sum>(k, t) \<leftarrow> group_step key m r. tot_records t) = (\<Sum>(k, t) \<leftarrow> m. tot_records t) + 1"
proof -
  have "(\<Sum>(k, t) \<leftarrow> bt_update k GroupTotals_default (\<lambda>t. accumulate_usage t u) m. tot_records t) =
      (\<Sum>(k, t) \<leftarrow> m. tot_records t) + 1" for k :: 'a and u
    by (induction k GroupTotals_default "\<lambda>t. accumulate_usage t u" m rule: bt_update.induct)
      (auto simp: accumulate_usage_def GroupTotals_default_def)
  then show ?thesis by (simp add: group_step_def)
qed

lemma sum_records_fold:
  "(\<Sum>(k, t) \<leftarrow> foldl (group_step key) m ms. tot_records t) =
     (\<Sum>(k, t) \<leftarrow> m. tot_records t) + of_nat (length ms)"
  by (induction ms arbitrary: m) (simp_all add: sum_records_update)

lemma length_pieces: "length (pieces content) \<le> length content"
  using length_split_on_last [of "CHR 0x0A" content]
  by (cases "last (split_on (CHR 0x0A) content)") (auto simp: pieces_def Let_def)

lemma length_file_records: "length (file_records C content) \<le> length content"
proof -
  have "length (file_records C content) \<le> length (pieces content)"
    unfolding file_records_def List.map_filter_def
    by (intro order.trans [OF length_filter_le]) (simp add: length_filter_le)
  then show ?thesis using length_pieces [of content] by linarith
qed

lemma unat_of_nat_u64: "n < 2 ^ 64 \<Longrightarrow> unat (of_nat n :: u64) = n"
  by (simp add: unsigned_of_nat take_bit_eq_mod)

lemma read_usage_file_ok:
  obtains st where "read_usage_file C path (Inr (content, None)) = Inr st"
    and "groups st = foldl (group_step group_key) [] (filter is_metered (file_records C content))"
    and "effort_groups st = foldl (group_step reasoning_effort) [] (filter is_metered (file_records C content))"
    and "cov_accepted (coverage st) = of_nat (length (file_records C content))"
    and "cov_metered (coverage st) = of_nat (length (filter is_metered (file_records C content)))"
proof -
  obtain st where "read_loop C summary_init content None = Inr st"
    and c: "counts st = counts (foldl count_record summary_init (file_records C content))"
    using read_loop_counts [of C content] by blast
  then show thesis
    using foldl_count_record_fields [of summary_init "file_records C content"]
    by (intro that [of st]) (simp_all add: read_usage_file_def counts_def, simp_all add: summary_init_def)
qed

section \<open>The percentage\<close>

lemma u64_as_f64_exact: "unat n < 2 ^ 53 \<Longrightarrow> u64_as_f64 n = rat_of_nat (unat n)"
  by (simp only: u64_as_f64_def f64_of_nat_exact)

lemma percentage_rounded:
  assumes "unat (cov_accepted c) < 2 ^ 46" and "unat (cov_metered c) \<le> unat (cov_accepted c)"
  shows "percentage c =
    (if cov_accepted c = 0 then None
     else Some (f64_of (rat_of_nat (unat (cov_metered c) * 100) / rat_of_nat (unat (cov_accepted c)))))"
proof -
  have l: "unat (cov_metered c) * 100 < 2 ^ 53" "unat (cov_metered c) < 2 ^ 53"
      "unat (cov_accepted c) < 2 ^ 53"
    using assms by simp_all
  have h: "(100::rat) = rat_of_nat 100" by simp
  have m: "f64_mul (u64_as_f64 (cov_metered c)) 100 = rat_of_nat (unat (cov_metered c) * 100)"
    by (simp only: f64_mul_def u64_as_f64_def f64_of_nat_exact [OF l(2)] h
        f64_of_nat_exact [OF l(1)] flip: of_nat_mult)
  show ?thesis
    by (simp only: percentage_def m f64_div_def u64_as_f64_exact [OF l(3)])
qed

lemma fmt_100: "fmt_fixed 1 100 = ''100.0''"
proof -
  have r: "round_half_even 1000 = 1000" using round_half_even_int [of 1000] by simp
  have "show_nat 100 = ''100''" "show_nat 0 = ''0''" by code_simp+
  with r show ?thesis by (simp add: fmt_fixed_def Let_def)
qed

lemma full_ratio: "a \<noteq> 0 \<Longrightarrow> rat_of_nat (unat a * 100) / rat_of_nat (unat a) = 100"
  for a :: u64
  by (simp add: unat_eq_zero del: of_nat_unat)

section \<open>An unfinished tail\<close>

lemma pieces_of_terminated:
  assumes "content = [] \<or> last content = CHR 0x0A"
  obtains ps where "split_on (CHR 0x0A) content = ps @ [[]]"
    and "\<And>t. CHR 0x0A \<notin> set t \<Longrightarrow> split_on (CHR 0x0A) (content @ t) = ps @ [t]"
proof (cases "content = []")
  case True
  then show thesis by (intro that [of "[]"]) simp_all
next
  case False
  with assms obtain c where c: "content = c @ [CHR 0x0A]" by (metis append_butlast_last_id)
  show thesis
    by (rule that [of "split_on (CHR 0x0A) c"])
      (simp_all add: c split_on_append_sep [of _ _ "[]", simplified] split_on_append_sep)
qed

lemma process_line_tail:
  assumes "CHR 0x0A \<notin> set tail" and "record_from_slice C (strip_cr tail) = None"
  shows "process_line C st tail =
    st\<lparr>warnings := (warnings st)\<lparr>partial_tail :=
      (partial_tail (warnings st) \<or> \<not> list_all is_ascii_whitespace (strip_cr tail))\<rparr>\<rparr>"
  using assms by (simp add: process_line_def record_bytes_simps)

lemma read_usage_file_tail:
  assumes "content = [] \<or> last content = CHR 0x0A" and "CHR 0x0A \<notin> set tail"
    and "tail \<noteq> []" and "record_from_slice C (strip_cr tail) = None"
  obtains st where "read_usage_file C path (Inr (content, None)) = Inr st"
    and "read_usage_file C path (Inr (content @ tail, None)) =
      Inr (st\<lparr>warnings := (warnings st)\<lparr>partial_tail :=
        (partial_tail (warnings st) \<or> \<not> list_all is_ascii_whitespace (strip_cr tail))\<rparr>\<rparr>)"
proof -
  obtain ps where ps: "split_on (CHR 0x0A) content = ps @ [[]]"
    and pst: "split_on (CHR 0x0A) (content @ tail) = ps @ [tail]"
    using pieces_of_terminated [OF assms(1)] assms(2) by metis
  show thesis
    using assms(3) process_line_tail [OF assms(2,4)]
    by (intro that [of "foldl (\<lambda>s p. process_line C s (p @ [CHR 0x0A])) summary_init ps"])
      (simp_all add: read_usage_file_def read_loop_pieces ps pst Let_def)
qed

section \<open>Properties\<close>

text \<open>
  (C8) The summary is exact: a file that can be read is summarised, and the two tables hold, for
  every key and in key order, exactly the totals of the canonical records with that key and a usage
  object: the number of records, and for each counter the sum of the recorded values (capped at the
  largest \<open>u64\<close>), absent when no record has it. Coverage counts the canonical records and those
  with usage.
\<close>

theorem summary_exact:
  "\<exists>st. read_usage_file C path (Inr (content, None)) = Inr st \<and>
     (let rs = file_records C content; ms = filter is_metered rs in
        bt_invar (groups st) \<and> (\<forall>k. bt_get (groups st) k = group_totals group_key ms k) \<and>
        bt_invar (effort_groups st) \<and>
        (\<forall>k. bt_get (effort_groups st) k = group_totals reasoning_effort ms k) \<and>
        cov_accepted (coverage st) = of_nat (length rs) \<and>
        cov_metered (coverage st) = of_nat (length ms))"
  by (rule read_usage_file_ok [of C path content])
    (simp add: Let_def group_fold_get group_fold_invar)

text \<open>
  The two tables are views of the same facts: the record counts of the machine-and-model table
  and those of the effort table both add up to the metered count of the coverage line.
\<close>

lemma summary_views_agree:
  "\<exists>st. read_usage_file C path (Inr (content, None)) = Inr st \<and>
     (\<Sum>(k, t) \<leftarrow> groups st. tot_records t) = cov_metered (coverage st) \<and>
     (\<Sum>(k, t) \<leftarrow> effort_groups st. tot_records t) = cov_metered (coverage st)"
  by (rule read_usage_file_ok [of C path content]) (simp add: sum_records_fold)

text \<open>
  Coverage never underflows: for a file shorter than \<open>2 ^ 64\<close> bytes the metered count is at most
  the accepted count, no counter wrapped, and the unmetered count printed is the number of canonical
  records without usage.
\<close>

lemma coverage_no_underflow:
  assumes "length content < 2 ^ 64"
  shows "\<exists>st. read_usage_file C path (Inr (content, None)) = Inr st \<and>
     unat (cov_accepted (coverage st)) = length (file_records C content) \<and>
     unat (cov_metered (coverage st)) \<le> unat (cov_accepted (coverage st)) \<and>
     unat (unmetered (coverage st)) = length (filter (\<lambda>r. usage r = None) (file_records C content))"
proof (rule read_usage_file_ok [of C path content])
  fix st
  assume st: "read_usage_file C path (Inr (content, None)) = Inr st"
    and a: "cov_accepted (coverage st) = of_nat (length (file_records C content))"
    and m: "cov_metered (coverage st) = of_nat (length (filter is_metered (file_records C content)))"
  let ?rs = "file_records C content"
  have "length ?rs < 2 ^ 64" using assms length_file_records [of C content] by linarith
  moreover have le: "length (filter is_metered ?rs) \<le> length ?rs" by (rule length_filter_le)
  ultimately have ua: "unat (cov_accepted (coverage st)) = length ?rs"
    and um: "unat (cov_metered (coverage st)) = length (filter is_metered ?rs)"
    by (simp_all only: a m unat_of_nat_u64)
  have "length (filter (\<lambda>r. usage r = None) ?rs) = length ?rs - length (filter is_metered ?rs)"
    using sum_length_filter_compl [of is_metered ?rs] by (simp add: is_metered_def)
  with ua um le show ?thesis
    using st by (simp add: unmetered_def unat_sub_u64)
qed

lemma coverage_no_underflow_witness:
  "length ''x'' < 2 ^ 64 \<and>
   (\<exists>st. read_usage_file \<lparr>record_to_vec = \<lambda>_. None, record_from_slice = \<lambda>_. None\<rparr> ''u'' (Inr (''x'', None)) = Inr st \<and>
     unat (cov_metered (coverage st)) \<le> unat (cov_accepted (coverage st)))"
proof -
  have h: "length ''x'' < (2::nat) ^ 64" by simp
  show ?thesis
    using h coverage_no_underflow [OF h, of "\<lparr>record_to_vec = \<lambda>_. None, record_from_slice = \<lambda>_. None\<rparr>" "''u''"]
    by blast
qed

text \<open>
  (C33) An unfinished trailing line is ignored: appending to a file of complete lines a tail without a
  line feed that does not parse leaves tables, coverage and the unparseable count as they were; only
  the partial-tail warning is raised, and only when the tail is not blank.
\<close>

theorem crash_tail_ignored:
  assumes "content = [] \<or> last content = CHR 0x0A" and "CHR 0x0A \<notin> set tail" and "tail \<noteq> []"
    and "record_from_slice C (strip_cr tail) = None"
  shows "\<exists>st st'. read_usage_file C path (Inr (content, None)) = Inr st \<and>
     read_usage_file C path (Inr (content @ tail, None)) = Inr st' \<and>
     groups st' = groups st \<and> effort_groups st' = effort_groups st \<and> coverage st' = coverage st \<and>
     unparseable (warnings st') = unparseable (warnings st) \<and>
     partial_tail (warnings st') =
       (partial_tail (warnings st) \<or> \<not> list_all is_ascii_whitespace (strip_cr tail))"
  by (rule read_usage_file_tail [OF assms, of path]) simp

theorem crash_tail_ignored_witness:
  "\<exists>st st'. read_usage_file \<lparr>record_to_vec = \<lambda>_. None, record_from_slice = \<lambda>_. None\<rparr> ''u''
       (Inr (''{}'' @ [CHR 0x0A], None)) = Inr st \<and>
     read_usage_file \<lparr>record_to_vec = \<lambda>_. None, record_from_slice = \<lambda>_. None\<rparr> ''u''
       (Inr ((''{}'' @ [CHR 0x0A]) @ ''{cut'', None)) = Inr st' \<and> coverage st' = coverage st"
proof -
  let ?C = "\<lparr>record_to_vec = \<lambda>_. None, record_from_slice = \<lambda>_. None :: AuditRecord option\<rparr>"
  have "''{}'' @ [CHR 0x0A] = [] \<or> last (''{}'' @ [CHR 0x0A]) = CHR 0x0A"
    "CHR 0x0A \<notin> set ''{cut''" "''{cut'' \<noteq> []" "record_from_slice ?C (strip_cr ''{cut'') = None"
    by simp_all
  from crash_tail_ignored [OF this, of "''u''"] show ?thesis by blast
qed

text \<open>
  (C32) The percentage of the coverage line: there is none without accepted lifecycles, and for fewer
  than \<open>2 ^ 46\<close> of them it is the exact ratio rounded once to double precision; full coverage
  prints as 100.0.
\<close>

theorem percentage_correct:
  assumes "unat (cov_accepted c) < 2 ^ 46" and "unat (cov_metered c) \<le> unat (cov_accepted c)"
  shows "percentage c =
      (if cov_accepted c = 0 then None
       else Some (f64_of (rat_of_nat (unat (cov_metered c) * 100) / rat_of_nat (unat (cov_accepted c))))) \<and>
    (cov_accepted c \<noteq> 0 \<and> cov_metered c = cov_accepted c \<longrightarrow>
      map_option (fmt_fixed 1) (percentage c) = Some ''100.0'')"
proof -
  have "map_option (fmt_fixed 1) (percentage c) = Some ''100.0''"
    if "cov_accepted c \<noteq> 0" "cov_metered c = cov_accepted c"
    unfolding percentage_rounded [OF assms] that(2)
    using that(1) full_ratio [OF that(1)] by (simp only: if_False option.map f64_of_100 fmt_100)
  with percentage_rounded [OF assms] show ?thesis by blast
qed

theorem percentage_correct_witness:
  "map_option (fmt_fixed 1) (percentage \<lparr>cov_accepted = 7, cov_metered = 7\<rparr>) = Some ''100.0''"
proof -
  define c where "c = \<lparr>cov_accepted = 7, cov_metered = 7\<rparr>"
  have "unat (cov_accepted c) < 2 ^ 46" "unat (cov_metered c) \<le> unat (cov_accepted c)"
    and "cov_accepted c \<noteq> 0" "cov_metered c = cov_accepted c"
    by (simp_all add: c_def)
  with percentage_correct [of c] have "map_option (fmt_fixed 1) (percentage c) = Some ''100.0''" by blast
  then show ?thesis by (simp only: c_def)
qed

end
