(* ===== verification/Smoke_Run.thy ===== *)
theory Smoke_Run
  imports Smoke_Cli Summary
begin

text \<open>
  The load-smoke run of \<^verbatim>\<open>src/src/smoke.rs\<close>: the mock upstream's response, the audit counter, the
  reading of the load generator's report, the resident-set sampling, the checks of a run with the
  processes it owns, and the printed report. What the operating system and the child processes answer
  is an environment record.
\<close>

section \<open>The mock upstream\<close>

definition MOCK_METER_KEY :: string where "MOCK_METER_KEY = ''dm-smoke-synthetic-meter-key''"
definition MOCK_MACHINE_ID :: string where "MOCK_MACHINE_ID = ''machine-smoke''"
definition MOCK_MODEL :: string where "MOCK_MODEL = ''mock-model''"

definition LF :: string where "LF = [CHR 0x0A]"

definition mock_terminal :: string where
  "mock_terminal =
     ''event: response.completed'' @ LF @
     ''data: {\"type\":\"response.completed\",\"response\":{\"id\":\"resp_mock\",\"model\":\"'' @
     MOCK_MODEL @
     ''\",\"usage\":{\"input_tokens\":20,\"input_tokens_details\":{\"cached_tokens\":5,\"cache_write_tokens\":5},\"output_tokens\":15,\"output_tokens_details\":{\"reasoning_tokens\":5},\"total_tokens\":35}}}'' @
     LF @ LF"

definition mock_delta :: "u64 \<Rightarrow> nat \<Rightarrow> string" where
  "mock_delta sq n =
     ''data: {\"type\":\"response.output_text.delta\",\"seq\":'' @ show_u64 sq @ '',\"delta\":\"'' @
     replicate n (CHR ''d'') @ ''\"}'' @ LF @ LF"

lemma remaining_decreases:
  fixes r :: u64
  assumes "r \<noteq> 0"
  shows "unat (r - min r 512) < unat r"
proof -
  from assms have "unat (min r 512) \<le> unat r" "0 < unat (min r 512)" "0 < unat r"
    by (auto simp: min_def word_le_nat_alt unat_gt_0)
  then show ?thesis by (simp add: unat_sub_u64)
qed

function mock_deltas :: "u64 \<Rightarrow> u64 \<Rightarrow> string list" where
  "mock_deltas remaining sq =
     (if remaining = 0 then []
      else let this = min remaining 512
           in mock_delta sq (unat this) # mock_deltas (remaining - this) (sq + 1))"
  by pat_completeness auto
termination
  by (relation "measure (\<lambda>(r, sq). unat r)") (auto simp only: in_measure wf_measure split_conv intro: remaining_decreases)

declare mock_deltas.simps [simp del]

definition mock_chunks :: "u64 \<Rightarrow> string list" where
  "mock_chunks response_bytes =
     (let padding = saturating_sub response_bytes (of_nat (length mock_terminal))
      in mock_deltas padding 0 @ [mock_terminal])"

section \<open>The gateway under test\<close>

definition smoke_digest_hex :: "digest_lib \<Rightarrow> string \<Rightarrow> string" where
  "smoke_digest_hex X key = hex_encode X (sha256 X key)"

definition smoke_config :: "string \<Rightarrow> u16 \<Rightarrow> string \<Rightarrow> string" where
  "smoke_config digest port usage_file =
     ''listen = \"127.0.0.1:'' @ show_nat (unat port) @ ''\"'' @ LF @
     ''usage_file = \"'' @ usage_file @ ''\"'' @ LF @ LF @
     ''[machine_keys]'' @ LF @ ''\"'' @ digest @ ''\" = \"'' @ MOCK_MACHINE_ID @ ''\"'' @ LF"

definition oha_args :: "u16 \<Rightarrow> u64 \<Rightarrow> u64 \<Rightarrow> string list" where
  "oha_args port count concurrency =
     [''-n'', show_u64 count, ''-c'', show_u64 concurrency, ''--no-tui'', ''--output-format'', ''json'',
      ''-m'', ''POST'', ''-H'', ''X-Meter-Key: '' @ MOCK_METER_KEY, ''-d'', ''opaque-smoke-body'',
      ''-T'', ''application/json'', ''http://127.0.0.1:'' @ show_nat (unat port) @ ''/v1/responses'']"

text \<open>\<open>process_rss_kb\<close>; \<open>status\<close> is the text of the status file, if it could be read.\<close>

fun rss_of_lines :: "string list \<Rightarrow> u64 option" where
  "rss_of_lines [] = None"
| "rss_of_lines (line # rest) =
     (case strip_prefix ''VmRSS:'' line of
        None \<Rightarrow> rss_of_lines rest
      | Some r \<Rightarrow>
          (case split_whitespace r of
             [] \<Rightarrow> None
           | kb # _ \<Rightarrow> map_option of_nat (parse_unsigned 64 kb)))"

definition process_rss_kb :: "string option \<Rightarrow> u64 option" where
  "process_rss_kb status = Option.bind status (\<lambda>s. rss_of_lines (lines s))"

text \<open>The high-water mark of a list of readings; zero means that there was none.\<close>

definition peak_of :: "u64 \<Rightarrow> string option list \<Rightarrow> u64 option" where
  "peak_of start samples =
     (let peak = foldl (\<lambda>m st. case process_rss_kb st of None \<Rightarrow> m | Some rss \<Rightarrow> max m rss) start samples
      in if peak = 0 then None else Some peak)"

definition sample_peak_rss :: "u64 option \<Rightarrow> string option list \<Rightarrow> u64 option" where
  "sample_peak_rss baseline samples = peak_of (case baseline of None \<Rightarrow> 0 | Some b \<Rightarrow> b) samples"

definition sample_rss_settle :: "string option list \<Rightarrow> u64 option" where
  "sample_rss_settle samples = peak_of 0 samples"

section \<open>Counting the audit\<close>

definition count_line :: "'v json_lib \<Rightarrow> u64 \<times> u64 \<Rightarrow> string \<Rightarrow> u64 \<times> u64" where
  "count_line J tally line =
     (let (accepted, metered) = tally; l = trim line
      in if l = [] then tally
         else case json_from_str J l of
                None \<Rightarrow> tally
              | Some v \<Rightarrow>
                  if Option.bind (json_get J v ''schema_version'') (json_as_u64 J) \<noteq> Some 1 then tally
                  else if Option.bind (json_get J v ''kind'') (json_as_str J) \<noteq> Some ''request'' then tally
                  else (accepted + 1,
                        if (case json_get J v ''usage'' of None \<Rightarrow> False | Some u \<Rightarrow> \<not> json_is_null J u)
                        then metered + 1 else metered))"

text \<open>\<open>count_audit\<close>; \<open>read\<close> is the result of reading the bytes of the file.\<close>

definition count_audit :: "'v json_lib \<Rightarrow> string \<Rightarrow> string + bytes \<Rightarrow> string + u64 \<times> u64" where
  "count_audit J path read =
     (case read_to_string read of
        Inl err \<Rightarrow> Inl (''cannot read audit file '' @ path @ '': '' @ err)
      | Inr content \<Rightarrow> Inr (foldl (count_line J) (0, 0) (lines content)))"

text \<open>\<open>wait_audit_count\<close>: the reads made until the deadline.\<close>

fun wait_audit_count ::
  "'v json_lib \<Rightarrow> string \<Rightarrow> u64 \<Rightarrow> (string + bytes) list \<Rightarrow> (u64 \<times> u64) option" where
  "wait_audit_count J path expected [] = None"
| "wait_audit_count J path expected (read # rest) =
     (case count_audit J path read of
        Inr (accepted, metered) \<Rightarrow>
          if expected \<le> accepted then Some (accepted, metered)
          else wait_audit_count J path expected rest
      | Inl _ \<Rightarrow> wait_audit_count J path expected rest)"

text \<open>\<open>wait_ready\<close>: the status codes of the attempts made until the deadline.\<close>

definition wait_ready :: "u16 option list \<Rightarrow> bool" where
  "wait_ready attempts \<longleftrightarrow> Some 200 \<in> set attempts"

section \<open>The load generator's report\<close>

record OhaResult =
  oha_completed :: u64
  oha_errors :: u64
  oha_rps :: rat
  oha_p50_ms :: rat
  oha_p95_ms :: rat
  oha_p99_ms :: rat
  oha_all_2xx :: bool

text \<open>\<open>F\<close> is \<open>Value::as_f64\<close>, and \<open>Null\<close> the JSON null that stands for a missing object.\<close>

definition get_f64 :: "'v json_lib \<Rightarrow> ('v \<Rightarrow> rat option) \<Rightarrow> 'v option \<Rightarrow> string \<Rightarrow> rat option" where
  "get_f64 J F v key = Option.bind (Option.bind v (\<lambda>x. json_get J x key)) F"

definition get_ms :: "'v json_lib \<Rightarrow> ('v \<Rightarrow> rat option) \<Rightarrow> 'v option \<Rightarrow> string \<Rightarrow> rat" where
  "get_ms J F v key =
     (case Option.bind v (\<lambda>x. json_get J x key) of
        Some x \<Rightarrow> f64_mul (case F x of Some r \<Rightarrow> r | None \<Rightarrow> 0) 1000
      | None \<Rightarrow> 0)"

definition success_of :: "'v json_lib \<Rightarrow> ('v \<Rightarrow> rat option) \<Rightarrow> 'v \<Rightarrow> f64_value option" where
  "success_of J F candidate =
     (case json_get J candidate ''successRate'' of
        None \<Rightarrow> None
      | Some value \<Rightarrow>
          (case F value of
             Some num \<Rightarrow> Some (Finite num)
           | None \<Rightarrow>
               (case json_as_str J value of
                  None \<Rightarrow> None
                | Some s \<Rightarrow>
                    (case parse_f64 (trim_end_matches (CHR ''%'') s) of
                       None \<Rightarrow> None
                     | Some (Finite num) \<Rightarrow> Some (Finite (f64_div num 100))
                     | Some NonFinite \<Rightarrow> Some NonFinite))))"

definition success_rate :: "'v json_lib \<Rightarrow> ('v \<Rightarrow> rat option) \<Rightarrow> 'v \<Rightarrow> f64_value option" where
  "success_rate J F doc =
     (case success_of J F doc of
        Some r \<Rightarrow> Some r
      | None \<Rightarrow> Option.bind (json_get J doc ''summary'') (success_of J F))"

text \<open>\<open>(fraction - 1.0).abs() < 1e-9\<close>.\<close>

definition is_one :: "f64_value \<Rightarrow> bool" where
  "is_one v = (case v of Finite x \<Rightarrow> \<bar>f64_of (x - 1)\<bar> < f64_of (1 / 10 ^ 9) | NonFinite \<Rightarrow> False)"

definition count_status :: "'v json_lib \<Rightarrow> u64 \<times> u64 \<Rightarrow> string \<times> 'v \<Rightarrow> u64 \<times> u64" where
  "count_status J tally entry =
     (let (completed, errors) = tally; (key, value) = entry;
          code = (case parse_unsigned 16 key of Some n \<Rightarrow> n | None \<Rightarrow> 0);
          count = (case json_as_u64 J value of Some n \<Rightarrow> n | None \<Rightarrow> 0)
      in if 200 \<le> code \<and> code < 300 then (completed + count, errors)
         else (completed, errors + count))"

definition parse_oha ::
  "'v json_lib \<Rightarrow> ('v \<Rightarrow> rat option) \<Rightarrow> string + 'v \<Rightarrow> string + OhaResult" where
  "parse_oha J F parsed =
     (case parsed of
        Inl err \<Rightarrow> Inl (''cannot parse oha JSON output: '' @ err)
      | Inr doc \<Rightarrow>
          (let summ = (case json_get J doc ''summary'' of Some s \<Rightarrow> s | None \<Rightarrow> doc);
               rps = (case get_f64 J F (Some summ) ''requestsPerSec'' of Some r \<Rightarrow> r | None \<Rightarrow> 0);
               latency = json_get J doc ''latencyPercentiles'';
               tally = (case Option.bind (json_get J doc ''statusCodeDistribution'') (json_as_object J) of
                           None \<Rightarrow> (0, 0)
                         | Some codes \<Rightarrow> foldl (count_status J) (0, 0) codes);
               errors = (case Option.bind (json_get J doc ''errorDistribution'') (json_as_object J) of
                           None \<Rightarrow> snd tally
                         | Some errs \<Rightarrow>
                             foldl (\<lambda>e (_, value). e + (case json_as_u64 J value of Some n \<Rightarrow> n | None \<Rightarrow> 0))
                               (snd tally) errs);
               all_2xx = (errors = 0 \<and>
                 (case success_rate J F doc of Some fraction \<Rightarrow> is_one fraction | None \<Rightarrow> False))
           in Inr \<lparr>oha_completed = fst tally, oha_errors = errors, oha_rps = rps,
                   oha_p50_ms = get_ms J F latency ''p50'', oha_p95_ms = get_ms J F latency ''p95'',
                   oha_p99_ms = get_ms J F latency ''p99'', oha_all_2xx = all_2xx\<rparr>))"

text \<open>The checks of \<open>run_oha_and_sample\<close> on the parsed result.\<close>

definition check_load :: "SmokeParams \<Rightarrow> OhaResult \<Rightarrow> string + OhaResult" where
  "check_load params result =
     (if 0 < oha_errors result
      then Inl (''oha reported '' @ show_u64 (oha_errors result) @ '' error(s); load failed'')
      else if \<not> oha_all_2xx result then Inl ''oha reported non-2xx responses; load failed''
      else if saturating_add (oha_completed result) (oha_errors result) \<noteq> sm_count params
      then Inl (''oha accounting mismatch: completed='' @ show_u64 (oha_completed result) @
        '' errors='' @ show_u64 (oha_errors result) @ '' != requested count='' @
        show_u64 (sm_count params))
      else Inr result)"

section \<open>The report\<close>

definition REPORT_OHALINE :: string where "REPORT_OHALINE = ''oha version/workload''"
definition REPORT_RPS :: string where "REPORT_RPS = ''reference rps/p50/p95/p99''"
definition REPORT_RSS :: string where "REPORT_RSS = ''gateway rss baseline/peak/end''"
definition REPORT_AUDIT :: string where "REPORT_AUDIT = ''audit accepted/metered''"

text \<open>The second word of the combined output of \<open>oha --version\<close>.\<close>

definition oha_version :: "string + string \<Rightarrow> string + string" where
  "oha_version output =
     (case output of
        Inl err \<Rightarrow> Inl (''cannot run oha --version: '' @ err)
      | Inr combined \<Rightarrow>
          (case split_whitespace combined of
             _ # v # _ \<Rightarrow> Inr v
           | _ \<Rightarrow> Inr ''unknown''))"

definition render_report ::
  "string \<Rightarrow> SmokeParams \<Rightarrow> OhaResult \<Rightarrow> u64 option \<Rightarrow> u64 option \<Rightarrow> u64 option \<Rightarrow> u64 \<Rightarrow> u64 \<Rightarrow> string" where
  "render_report version params result baseline peak end_rss accepted metered =
     (let kb = (\<lambda>v. case v of Some x \<Rightarrow> show_u64 x | None \<Rightarrow> ''-'') in
      ''debitmetre smoke: '' @ REPORT_OHALINE @ '': oha='' @ version @
      '' count='' @ show_u64 (sm_count params) @ '' concurrency='' @ show_u64 (sm_concurrency params) @
      '' response_bytes='' @ show_u64 (sm_response_bytes params) @
      '' delay_ms='' @ show_u64 (sm_delay_ms params) @ LF @
      ''debitmetre smoke: completed='' @ show_u64 (oha_completed result) @
      '' success='' @ show_u64 (oha_completed result) @
      '' errors='' @ show_u64 (oha_errors result) @ LF @
      ''debitmetre smoke: '' @ REPORT_RPS @ '': rps='' @ fmt_fixed 2 (oha_rps result) @
      '' p50='' @ fmt_fixed 2 (oha_p50_ms result) @ ''ms p95='' @ fmt_fixed 2 (oha_p95_ms result) @
      ''ms p99='' @ fmt_fixed 2 (oha_p99_ms result) @ ''ms'' @ LF @
      ''debitmetre smoke: '' @ REPORT_RSS @ '': baseline='' @ kb baseline @ ''kB peak='' @ kb peak @
      ''kB end='' @ kb end_rss @ ''kB'' @ LF @
      ''debitmetre smoke: '' @ REPORT_AUDIT @ '': accepted='' @ show_u64 accepted @
      '' metered='' @ show_u64 metered @ LF @
      ''debitmetre smoke: PASS'')"

section \<open>The run\<close>

text \<open>
  What the run owns: its directory, the mock upstream's task and the gateway process, which is gone
  when it has ended and was reaped.
\<close>

record resources =
  r_workdir :: bool
  r_mock :: bool
  r_gateway :: bool

text \<open>
  \<open>SmokeProcs::shutdown\<close> and the drop of \<open>WorkDir\<close> with the results they ignore. After a failed kill
  the wait still reaps a process that has ended, and one that fails leaves it behind; the child was
  taken out of the guard, so nothing tries again. A directory that cannot be removed stays.
\<close>

definition SmokeProcs_shutdown :: "string + unit \<Rightarrow> string + unit \<Rightarrow> resources \<Rightarrow> resources" where
  "SmokeProcs_shutdown killed waited r = r\<lparr>r_gateway := r_gateway r \<and> isl waited, r_mock := False\<rparr>"

definition WorkDir_drop :: "string + unit \<Rightarrow> resources \<Rightarrow> resources" where
  "WorkDir_drop removed r = r\<lparr>r_workdir := r_workdir r \<and> isl removed\<rparr>"

text \<open>\<open>spawn_mock_upstream\<close> and \<open>pick_free_port\<close>: the listener is bound, then asked for its address.\<close>

definition spawn_mock_upstream :: "string + unit \<Rightarrow> string + string \<Rightarrow> string + string" where
  "spawn_mock_upstream bound addr =
     (case bound of
        Inl err \<Rightarrow> Inl (''cannot bind mock upstream: '' @ err)
      | Inr _ \<Rightarrow>
          (case addr of
             Inl err \<Rightarrow> Inl (''cannot resolve mock upstream address: '' @ err)
           | Inr a \<Rightarrow> Inr (''http://'' @ a)))"

definition pick_free_port :: "string + unit \<Rightarrow> string + u16 \<Rightarrow> string + u16" where
  "pick_free_port bound addr =
     (case bound of
        Inl err \<Rightarrow> Inl (''cannot find a free port: '' @ err)
      | Inr _ \<Rightarrow>
          (case addr of
             Inl err \<Rightarrow> Inl (''cannot resolve a free port: '' @ err)
           | Inr port \<Rightarrow> Inr port))"

text \<open>
  \<open>spawn_gateway\<close>: the configuration is written, then the binary started; the result is the text of
  the configuration and the usage file.
\<close>

definition spawn_gateway ::
  "digest_lib \<Rightarrow> string + unit \<Rightarrow> string + unit \<Rightarrow> u16 \<Rightarrow> string \<Rightarrow> string + string \<times> string" where
  "spawn_gateway X written spawned port workdir =
     (let usage_file = path_join workdir ''usage.jsonl'';
          digest = smoke_digest_hex X MOCK_METER_KEY;
          config = smoke_config digest port usage_file
      in case written of
           Inl err \<Rightarrow> Inl (''cannot write smoke gateway config: '' @ err)
         | Inr _ \<Rightarrow>
             (case spawned of
                Inl err \<Rightarrow> Inl (''cannot spawn the gateway: '' @ err)
              | Inr _ \<Rightarrow> Inr (config, usage_file)))"

text \<open>\<open>run_oha_process\<close>: the process could not be run, or ended with a status and its output.\<close>

datatype oha_output = OhaNotRun string | OhaExit bool string string string

definition run_oha_process :: "oha_output \<Rightarrow> string + string" where
  "run_oha_process out =
     (case out of
        OhaNotRun err \<Rightarrow> Inl (''cannot run oha: '' @ err)
      | OhaExit success status stdout stderr \<Rightarrow>
          if \<not> success then Inl (''oha exited non-zero ('' @ status @ ''): '' @ stderr)
          else Inr stdout)"

text \<open>What the environment answers, in the order in which the run asks.\<close>

record 'v smoke_env =
  env_is_file :: "string \<Rightarrow> bool"
  env_oha_bin :: "string option"
  env_path :: "string option"
  env_version :: "string + string"
  env_temp_dir :: string
  env_pid :: nat
  env_uuid :: string
  env_create_dir :: "string + unit"
  env_mock_bind :: "string + unit"
  env_mock_addr :: "string + string"
  env_port_bind :: "string + unit"
  env_port_addr :: "string + u16"
  env_exe :: "string + string"
  env_config_write :: "string + unit"
  env_spawn :: "string + unit"
  env_ready :: "u16 option list"
  env_baseline :: "string option"
  env_samples :: "string option list"
  env_oha_join :: "string option"
  env_oha :: oha_output
  env_sample_join :: "string option"
  env_json :: "string \<Rightarrow> string + 'v"
  env_settle :: "string option list"
  env_end :: "string option"
  env_audit_reads :: "(string + bytes) list"
  env_audit_final :: "string + bytes"
  env_kill :: "string + unit"
  env_wait :: "string + unit"
  env_remove_dir :: "string + unit"

text \<open>\<open>WorkDir::new\<close>: the directory's name and how it was created.\<close>

definition WorkDir_new :: "string \<Rightarrow> nat \<Rightarrow> string \<Rightarrow> string + unit \<Rightarrow> string + string" where
  "WorkDir_new temp_dir pid uuid created =
     (let path = path_join temp_dir (''debitmetre-smoke-'' @ show_nat pid @ ''-'' @ uuid)
      in case created of
           Inl err \<Rightarrow> Inl (''cannot create smoke workspace: '' @ err)
         | Inr _ \<Rightarrow> Inr path)"

text \<open>
  \<open>run_oha_and_sample\<close>: the load on a blocking thread and the sampling task beside it; either may
  fail to be joined. The sampler stops when the load has ended.
\<close>

definition run_oha_and_sample ::
  "'v json_lib \<Rightarrow> ('v \<Rightarrow> rat option) \<Rightarrow> 'v smoke_env \<Rightarrow> SmokeParams \<Rightarrow> u64 option \<Rightarrow>
     string + OhaResult \<times> u64 option" where
  "run_oha_and_sample J F e params baseline =
     (case env_oha_join e of
        Some err \<Rightarrow> Inl (''oha task failed: '' @ err)
      | None \<Rightarrow>
     (case run_oha_process (env_oha e) of
        Inl err \<Rightarrow> Inl err
      | Inr json \<Rightarrow>
     (case env_sample_join e of
        Some err \<Rightarrow> Inl (''rss sampling task failed: '' @ err)
      | None \<Rightarrow>
     (case parse_oha J F (env_json e json) of
        Inl err \<Rightarrow> Inl err
      | Inr result \<Rightarrow>
     (case check_load params result of
        Inl err \<Rightarrow> Inl err
      | Inr checked \<Rightarrow> Inr (checked, sample_peak_rss baseline (env_samples e)))))))"

text \<open>
  The part of \<open>run\<close> after the gateway was started, while \<open>SmokeProcs\<close> owns the processes. The result
  comes with what is still owned when the explicit shutdown was or was not reached; the guards run
  after it.
\<close>

definition run_load ::
  "'v json_lib \<Rightarrow> ('v \<Rightarrow> rat option) \<Rightarrow> 'v smoke_env \<Rightarrow> SmokeParams \<Rightarrow> string \<Rightarrow> string \<Rightarrow> string + string" where
  "run_load J F e params version usage_file =
     (if \<not> wait_ready (env_ready e) then Inl ''smoke gateway never became ready''
      else let baseline = process_rss_kb (env_baseline e) in
        case run_oha_and_sample J F e params baseline of
          Inl err \<Rightarrow> Inl err
        | Inr (result, peak0) \<Rightarrow>
            (let settle = sample_rss_settle (env_settle e);
                 peak = (case (peak0, settle) of
                           (Some p, Some s) \<Rightarrow> Some (max p s)
                         | (None, _) \<Rightarrow> settle
                         | (Some p, None) \<Rightarrow> Some p);
                 end_rss = process_rss_kb (env_end e)
             in case wait_audit_count J usage_file (oha_completed result) (env_audit_reads e) of
                  None \<Rightarrow> Inl ''audit records fell short of completed requests; metering was lost''
                | Some _ \<Rightarrow>
                    (case count_audit J usage_file (env_audit_final e) of
                       Inl err \<Rightarrow> Inl err
                     | Inr (accepted, metered) \<Rightarrow>
                         if accepted \<noteq> oha_completed result
                         then Inl (''audit accepted='' @ show_u64 accepted @
                           '' != oha completed='' @ show_u64 (oha_completed result) @ '' (mismatch)'')
                         else if metered \<noteq> accepted
                         then Inl (''audit metered='' @ show_u64 metered @ '' != accepted='' @
                           show_u64 accepted @ '' (unexpected metering loss)'')
                         else Inr (render_report version params result baseline peak end_rss
                           accepted metered))))"

text \<open>
  \<open>run\<close> with the resources left when it has returned. An early return after the mock upstream was
  started and before \<open>SmokeProcs\<close> exists only drops the join handle, which does not stop the task.
\<close>

definition smoke_run ::
  "'v json_lib \<Rightarrow> ('v \<Rightarrow> rat option) \<Rightarrow> digest_lib \<Rightarrow> 'v smoke_env \<Rightarrow> SmokeParams \<Rightarrow>
     (string + string) \<times> resources" where
  "smoke_run J F X e params =
     (let none = \<lparr>r_workdir = False, r_mock = False, r_gateway = False\<rparr> in
      case resolve_oha (env_is_file e) (env_oha_bin e) (env_path e) (sm_oha params) of
        Inl err \<Rightarrow> (Inl err, none)
      | Inr oha_bin \<Rightarrow>
     (case oha_version (env_version e) of
        Inl err \<Rightarrow> (Inl err, none)
      | Inr version \<Rightarrow>
     (case WorkDir_new (env_temp_dir e) (env_pid e) (env_uuid e) (env_create_dir e) of
        Inl err \<Rightarrow> (Inl err, none)
      | Inr workdir \<Rightarrow>
     (let own1 = none\<lparr>r_workdir := True\<rparr> in
      case spawn_mock_upstream (env_mock_bind e) (env_mock_addr e) of
        Inl err \<Rightarrow> (Inl err, WorkDir_drop (env_remove_dir e) own1)
      | Inr mock_upstream \<Rightarrow>
     (let own2 = own1\<lparr>r_mock := True\<rparr> in
      case (if sm_port params = 0 then pick_free_port (env_port_bind e) (env_port_addr e)
            else Inr (sm_port params)) of
        Inl err \<Rightarrow> (Inl err, WorkDir_drop (env_remove_dir e) own2)
      | Inr port \<Rightarrow>
     (case env_exe e of
        Inl err \<Rightarrow> (Inl (''cannot locate the binary: '' @ err), WorkDir_drop (env_remove_dir e) own2)
      | Inr exe \<Rightarrow>
     (case spawn_gateway X (env_config_write e) (env_spawn e) port workdir of
        Inl err \<Rightarrow> (Inl err, WorkDir_drop (env_remove_dir e) own2)
      | Inr (config, usage_file) \<Rightarrow>
          (let own3 = own2\<lparr>r_gateway := True\<rparr>
           in (run_load J F e params version usage_file,
               WorkDir_drop (env_remove_dir e) (SmokeProcs_shutdown (env_kill e) (env_wait e) own3))))))))))"

section \<open>Lemmas\<close>

lemma length_mock_delta: "n < length (mock_delta sq n)"
  by (simp add: mock_delta_def)

text \<open>The payload of the delta chunks is the padding, and each carries at most 512 bytes of it.\<close>

lemma length_mock_deltas:
  "remaining \<noteq> 0 \<Longrightarrow> unat remaining < length (concat (mock_deltas remaining sq))"
proof (induction remaining sq rule: mock_deltas.induct)
  case (1 remaining sq)
  define this where "this = min remaining 512"
  have le: "unat this \<le> unat remaining" by (simp add: this_def min_def word_le_nat_alt)
  have "unat (remaining - this) \<le> length (concat (mock_deltas (remaining - this) (sq + 1)))"
    using "1.IH" [OF "1.prems" this_def] by (cases "remaining - this = 0") simp_all
  with "1.prems" le length_mock_delta [of "unat this" sq] show ?case
    by (simp add: mock_deltas.simps [of remaining] Let_def unat_sub_u64 flip: this_def)
qed

lemma length_mock_terminal: "length mock_terminal = 292"
  by (simp add: mock_terminal_def MOCK_MODEL_def LF_def)

lemma check_load_InrD:
  assumes "check_load params result = Inr r"
  shows "r = result" and "oha_errors r = 0" and "oha_all_2xx r" and "oha_completed r = sm_count params"
  using assms unat_u64_less [of "oha_completed result"]
  by (auto simp: check_load_def saturating_add_def word_gt_0 split: if_splits)

lemma run_load_InrD:
  assumes "run_load J F e params version usage_file = Inr report"
  obtains json result accepted where "run_oha_process (env_oha e) = Inr json"
    and "parse_oha J F (env_json e json) = Inr result"
    and "check_load params result = Inr result"
    and "count_audit J usage_file (env_audit_final e) = Inr (accepted, accepted)"
    and "accepted = oha_completed result" and "Some 200 \<in> set (env_ready e)"
  using assms check_load_InrD(1)
  by (fastforce simp: run_load_def run_oha_and_sample_def wait_ready_def Let_def
      split: if_splits sum.splits option.splits prod.splits)

lemma length_mock_chunks:
  "length (concat (mock_chunks n)) =
     length (concat (mock_deltas (saturating_sub n 292) 0)) + 292"
  by (simp add: mock_chunks_def Let_def length_mock_terminal)

section \<open>Properties\<close>

text \<open>
  (C35) A smoke run passes only on a clean and fully audited load, and it leaves nothing behind: when a
  report is returned, the load generator reported no error and only 2xx responses, completed exactly
  the requested number of requests, and the audit file read after the shutdown holds exactly that
  many accepted records, all of them metered; the mock upstream is gone. After every run, passed or failed,
  the gateway was reaped unless waiting for it failed, and the working directory is removed unless
  removing it failed.
\<close>

theorem smoke_pass_sound:
  "case smoke_run J F X e params of
     (res, r) \<Rightarrow>
       (case env_remove_dir e of Inl err \<Rightarrow> True | Inr _ \<Rightarrow> \<not> r_workdir r) \<and>
       (case env_wait e of Inl err \<Rightarrow> True | Inr _ \<Rightarrow> \<not> r_gateway r) \<and>
       (case res of
          Inl err \<Rightarrow> True
        | Inr report \<Rightarrow>
            \<not> r_mock r \<and>
            (\<exists>json result usage_file. run_oha_process (env_oha e) = Inr json \<and>
               parse_oha J F (env_json e json) = Inr result \<and>
               oha_errors result = 0 \<and> oha_all_2xx result \<and>
               oha_completed result = sm_count params \<and>
               count_audit J usage_file (env_audit_final e) = Inr (sm_count params, sm_count params)))"
proof -
  have pass: "\<exists>json result. run_oha_process (env_oha e) = Inr json \<and>
      parse_oha J F (env_json e json) = Inr result \<and>
      oha_errors result = 0 \<and> oha_all_2xx result \<and> oha_completed result = sm_count params \<and>
      count_audit J usage_file (env_audit_final e) = Inr (sm_count params, sm_count params)"
    if "run_load J F e params version usage_file = Inr report" for version usage_file report
    using that by (rule run_load_InrD) (use check_load_InrD in metis)
  show ?thesis
    by (auto simp: smoke_run_def WorkDir_drop_def SmokeProcs_shutdown_def Let_def
        split: sum.splits) (blast dest: pass)+
qed

text \<open>
  Which runs leave the mock upstream running: exactly those that fail between starting it and
  owning it, that is when no free port is found, the binary cannot be located or the gateway cannot
  be started.
\<close>

lemma smoke_mock_left_running:
  "r_mock (snd (smoke_run J F X e params)) \<longleftrightarrow>
     \<not> isl (resolve_oha (env_is_file e) (env_oha_bin e) (env_path e) (sm_oha params)) \<and>
     \<not> isl (oha_version (env_version e)) \<and> \<not> isl (env_create_dir e) \<and>
     \<not> isl (env_mock_bind e) \<and> \<not> isl (env_mock_addr e) \<and>
     ((sm_port params = 0 \<and> (isl (env_port_bind e) \<or> isl (env_port_addr e))) \<or>
      isl (env_exe e) \<or> isl (env_config_write e) \<or> isl (env_spawn e))"
  by (auto simp: smoke_run_def WorkDir_drop_def SmokeProcs_shutdown_def Let_def
      WorkDir_new_def spawn_mock_upstream_def pick_free_port_def spawn_gateway_def split: sum.splits)

text \<open>
  The size of the mock response: its last chunk is the terminal event, and the body is never
  shorter than the requested number of bytes, but it has exactly that size only for the length of
  the terminal event alone; in every other case framing makes it larger.
\<close>

lemma mock_response_size:
  "last (mock_chunks n) = mock_terminal \<and>
   unat n \<le> length (concat (mock_chunks n)) \<and>
   (length (concat (mock_chunks n)) = unat n \<longleftrightarrow> n = 292)"
proof -
  have pad: "unat (saturating_sub n 292) = unat n - 292" by (simp add: unat_saturating_sub)
  have "unat n \<le> length (concat (mock_chunks n)) \<and>
      (length (concat (mock_chunks n)) = unat n \<longleftrightarrow> unat n = 292)"
  proof (cases "saturating_sub n 292 = 0")
    case True
    then have "unat n \<le> 292" using pad by simp
    with True show ?thesis by (auto simp: length_mock_chunks mock_deltas.simps)
  next
    case False
    then have "292 < unat n" using pad by (metis unat_eq_zero not_less diff_is_0_eq)
    with False pad show ?thesis
      using length_mock_deltas [OF False, of 0] by (simp only: length_mock_chunks) linarith
  qed
  moreover have "unat n = 292 \<longleftrightarrow> n = 292"
    using word_unat_eq_iff [of n 292] by simp
  ultimately show ?thesis by (simp add: mock_chunks_def Let_def)
qed

end
