(* ===== verification/Diagnostics.thy ===== *)
theory Diagnostics
  imports Gateway
begin

text \<open>
  The diagnostic events of the request path: the \<open>tracing\<close> calls of \<^verbatim>\<open>src/src/lib.rs\<close> and
  \<^verbatim>\<open>src/src/usage.rs\<close> with their level, fields and message, in the order in which one request emits
  them, and the subscriber that \<open>init_logging\<close> of \<^verbatim>\<open>src/src/main.rs\<close> installs. How a subscriber prints an
  event and which levels it shows is the crate's, a parameter.
\<close>

section \<open>Events\<close>

datatype Level = TRACE | DEBUG | INFO | WARN | ERROR

record log_event =
  ev_level :: Level
  ev_fields :: "(string \<times> string) list"
  ev_message :: string

definition event :: "Level \<Rightarrow> (string \<times> string) list \<Rightarrow> string \<Rightarrow> log_event" where
  "event level fs message = \<lparr>ev_level = level, ev_fields = fs, ev_message = message\<rparr>"

text \<open>Levels are ordered by verbosity, as in the \<open>tracing\<close> crate: an error is the least.\<close>

fun verbosity :: "Level \<Rightarrow> nat" where
  "verbosity ERROR = 0"
| "verbosity WARN = 1"
| "verbosity INFO = 2"
| "verbosity DEBUG = 3"
| "verbosity TRACE = 4"

lemma verbosity_inj: "verbosity a = verbosity b \<Longrightarrow> a = b"
  by (cases a; cases b) simp_all

instantiation Level :: linorder
begin

definition less_eq_Level :: "Level \<Rightarrow> Level \<Rightarrow> bool" where
  "less_eq_Level a b \<longleftrightarrow> verbosity a \<le> verbosity b"

definition less_Level :: "Level \<Rightarrow> Level \<Rightarrow> bool" where
  "less_Level a b \<longleftrightarrow> verbosity a < verbosity b"

instance
  by standard (auto simp: less_eq_Level_def less_Level_def intro: verbosity_inj)

end

section \<open>The subscriber\<close>

datatype out_stream = Stdout | Stderr

record subscriber =
  sb_max_level :: Level
  sb_ansi :: bool
  sb_target :: bool
  sb_writer :: out_stream

text \<open>The crate: the builder that \<open>fmt()\<close> returns, which levels are shown, and the line of an event.\<close>

record subscriber_lib =
  fmt_default :: subscriber
  fmt_shows :: "subscriber \<Rightarrow> Level \<Rightarrow> bool"
  fmt_line :: "subscriber \<Rightarrow> log_event \<Rightarrow> string"

definition init_logging :: "subscriber_lib \<Rightarrow> subscriber" where
  "init_logging L = (fmt_default L)\<lparr>sb_writer := Stderr, sb_ansi := False, sb_target := False\<rparr>"

text \<open>The lines that events leave on a stream.\<close>

definition printed :: "subscriber_lib \<Rightarrow> subscriber \<Rightarrow> out_stream \<Rightarrow> log_event list \<Rightarrow> string list" where
  "printed L sb stream es =
     (if sb_writer sb = stream then map (fmt_line L sb) (filter (\<lambda>e. fmt_shows L sb (ev_level e)) es) else [])"

text \<open>Documented behaviour: the default level is info, and what is more verbose than the level is not shown.\<close>

definition subscriber_ok :: "subscriber_lib \<Rightarrow> bool" where
  "subscriber_ok L \<longleftrightarrow>
     sb_max_level (fmt_default L) = INFO \<and> (\<forall>sb l. fmt_shows L sb l \<longleftrightarrow> l \<le> sb_max_level sb)"

lemma printed_stdout [simp]: "printed L (init_logging L) Stdout es = []"
  by (simp add: printed_def init_logging_def)

lemma printed_stderr:
  "subscriber_ok L \<Longrightarrow> printed L (init_logging L) Stderr es =
     map (fmt_line L (init_logging L)) (filter (\<lambda>e. ev_level e \<le> INFO) es)"
  by (simp add: printed_def init_logging_def subscriber_ok_def)

section \<open>Up to the response head\<close>

text \<open>The two reasons for which \<open>route_v1\<close> refuses a target, which it logs apart.\<close>

datatype url_judgement = UrlInvalid | UrlNotPreserved | UrlAccepted

definition url_verdict :: "'u url_lib \<Rightarrow> 'u \<Rightarrow> string \<Rightarrow> string option \<Rightarrow> url_judgement" where
  "url_verdict U base rel query =
     (let candidate = candidate_path U base rel;
          query_part = (case query of None \<Rightarrow> [] | Some q \<Rightarrow> CHR ''?'' # q)
      in case url_parse U (fixed_origin U base @ candidate @ query_part) of
           None \<Rightarrow> UrlInvalid
         | Some parsed \<Rightarrow>
             (let origin_fixed = (url_scheme U parsed = url_scheme U base \<and>
                                  url_host_str U parsed = url_host_str U base)
              in if \<not> origin_fixed \<or> url_path U parsed \<noteq> candidate then UrlNotPreserved
                 else UrlAccepted))"

text \<open>
  How the meter key is judged. Only an unknown key is logged: a missing, repeated or unreadable one is
  refused without an event.
\<close>

datatype key_judgement = KeyUnusable | KeyUnknown | KeyKnown string

definition key_verdict :: "('u, 'd, 'v) crates \<Rightarrow> 'u Gateway \<Rightarrow> headers \<Rightarrow> key_judgement" where
  "key_verdict C gw hs =
     (case get_all hs ''x-meter-key'' of
        [key] \<Rightarrow>
          (case value_to_str (cr_http C) key of
             None \<Rightarrow> KeyUnusable
           | Some k \<Rightarrow>
               (case bt_get (machine_keys gw) (digest_hex (cr_digest C) k) of
                  None \<Rightarrow> KeyUnknown
                | Some mid \<Rightarrow> KeyKnown mid))
      | _ \<Rightarrow> KeyUnusable)"

definition route_label :: "string \<Rightarrow> string" where
  "route_label path = trim_start_matches (CHR ''/'') (path_suffix path)"

text \<open>The event about the upstream's answer.\<close>

definition answer_log :: "http_lib \<Rightarrow> string \<Rightarrow> string \<Rightarrow> string \<Rightarrow> send_answer \<Rightarrow> log_event" where
  "answer_log H label meth mid answer =
     (let request = [(''route'', label), (''method'', meth), (''machine_id'', mid)] in
      case answer of
        SendOk status _ _ _ \<Rightarrow>
          if status_is_success H status
          then event INFO ((''event'', ''upstream_response'') # request @
                 [(''status'', show_nat (unat status))]) ''upstream response''
          else event WARN ((''event'', ''upstream_http_error'') # request @
                 [(''status'', show_nat (unat status))]) ''upstream error''
      | SendErr \<Rightarrow>
          event ERROR ((''event'', ''upstream_transport_error'') # request) ''upstream transport error'')"

definition route_v1_log ::
  "('u, 'd, 'v) crates \<Rightarrow> 'u Gateway \<Rightarrow> Request \<Rightarrow> send_answer \<Rightarrow> log_event list" where
  "route_v1_log C gw req answer =
     (case key_verdict C gw (rq_headers req) of
        KeyUnusable \<Rightarrow> []
      | KeyUnknown \<Rightarrow> [event INFO [] ''request rejected: missing or invalid meter key'']
      | KeyKnown mid \<Rightarrow>
          event INFO [(''method'', rq_method req), (''machine_id'', mid)] ''request accepted'' #
          (case url_verdict (cr_url C) (upstream_base gw) (path_suffix (rq_path req)) (rq_query req) of
             UrlInvalid \<Rightarrow> [event WARN [] ''request rejected: invalid upstream URL'']
           | UrlNotPreserved \<Rightarrow>
               [event WARN [] ''request rejected: path is not preserved under the fixed upstream base'']
           | UrlAccepted \<Rightarrow>
               [answer_log (cr_http C) (route_label (rq_path req)) (rq_method req) mid answer]))"

definition serve_log ::
  "axum_lib \<Rightarrow> ('u, 'd, 'v) crates \<Rightarrow> 'u Gateway \<Rightarrow> Request \<Rightarrow> send_answer \<Rightarrow> log_event list" where
  "serve_log A C gw req answer =
     (case router A req of
        RouteV1 \<Rightarrow> route_v1_log C gw req answer
      | RouteHealthz \<Rightarrow> [event DEBUG [] ''health check'']
      | RouteMethodNotAllowed \<Rightarrow> []
      | RouteNotFound \<Rightarrow> [])"

section \<open>At the end of the lifecycle\<close>

definition debug_metering_error :: "MeteringError \<Rightarrow> string" where
  "debug_metering_error e =
     (case e of
        MissingUsage \<Rightarrow> ''MissingUsage''
      | MalformedUsage \<Rightarrow> ''MalformedUsage''
      | EventTooLarge \<Rightarrow> ''EventTooLarge'')"

definition metering_warning :: "MeteringError \<Rightarrow> log_event" where
  "metering_warning e =
     event WARN [(''metering_error'', debug_metering_error e)]
       ''usage metering failed; the upstream response is unaffected''"

definition record_audit_log :: "bool \<Rightarrow> StreamUsageParser \<Rightarrow> log_event list" where
  "record_audit_log is_success parser =
     (if is_success
      then case res_metering_error (parser_finish parser) of
             Some e \<Rightarrow> [metering_warning e]
           | None \<Rightarrow> []
      else [])"

text \<open>The event of \<open>effective_model\<close>, which chooses between the header's and the body's model.\<close>

definition effective_model_log :: "string option \<Rightarrow> string option \<Rightarrow> log_event list" where
  "effective_model_log header_mod body_mod =
     (case (header_mod, body_mod) of
        (Some header, Some body) \<Rightarrow>
          if header \<noteq> body
          then [event TRACE [] ''openai-model response header overrides the terminal-body model'']
          else []
      | _ \<Rightarrow> [])"

text \<open>
  The body's model that reaches \<open>effective_model\<close>: the last one of a terminal event, or the one of a
  body that is a single JSON object.
\<close>

definition observed_model :: "'v json_lib \<Rightarrow> sse_lib \<Rightarrow> bytes \<Rightarrow> string option" where
  "observed_model J E mirror =
     (let events = sse_events E mirror;
          st = foldl (scan_event J) scan_init events
      in if terminal_seen st then body_model st
         else if events \<noteq> [] then None
         else case Option.bind (json_from_slice J mirror) (json_as_object J) of
                None \<Rightarrow> None
              | Some root \<Rightarrow> Option.bind (map_of root ''model'') (json_as_str J))"

definition finalize_log :: "'v json_lib \<Rightarrow> sse_lib \<Rightarrow> StreamUsageParser \<Rightarrow> log_event list" where
  "finalize_log J E p =
     (if sp_parsed p = None
      then effective_model_log (sp_header_model p) (observed_model J E (sp_mirror p))
      else [])"

text \<open>The events of the end of a response task.\<close>

definition pump_record_log :: "'v json_lib \<Rightarrow> sse_lib \<Rightarrow> 'e pump \<Rightarrow> log_event list" where
  "pump_record_log J E st =
     (case (pm_parser st, pm_operation st) of
        (Some parser, Some _) \<Rightarrow>
          finalize_log J E parser @ record_audit_log (pm_success st) (finalize J E parser)
      | _ \<Rightarrow> [])"

text \<open>
  What a response task has logged so far, read off its state, and the diagnostics of a request whose
  task, if it has one, is in state \<open>t\<close>.
\<close>

definition record_log :: "AuditRecord \<Rightarrow> log_event list" where
  "record_log r = (case metering_error r of Some e \<Rightarrow> [metering_warning e] | None \<Rightarrow> [])"

definition parser_log :: "'v json_lib \<Rightarrow> sse_lib \<Rightarrow> StreamUsageParser option \<Rightarrow> log_event list" where
  "parser_log J E parser =
     (case parser of
        None \<Rightarrow> []
      | Some p \<Rightarrow> effective_model_log (sp_header_model p) (observed_model J E (sp_mirror p)))"

definition task_log :: "'v json_lib \<Rightarrow> sse_lib \<Rightarrow> 'e pump \<Rightarrow> log_event list" where
  "task_log J E t =
     (if pm_phase t = Finished then parser_log J E (pm_parser t) else []) @
     concat (map record_log (pm_recorded t))"

definition request_log ::
  "axum_lib \<Rightarrow> ('u, 'd, 'v) crates \<Rightarrow> 'u Gateway \<Rightarrow> Request \<Rightarrow> send_answer \<Rightarrow> 'e pump option \<Rightarrow>
     log_event list" where
  "request_log A C gw req answer t =
     serve_log A C gw req answer @
     (case t of None \<Rightarrow> [] | Some st \<Rightarrow> task_log (cr_json C) (cr_sse C) st)"

section \<open>Lemmas\<close>

lemma url_verdict_accepted:
  "url_verdict U base rel query = UrlAccepted \<longleftrightarrow> upstream_url U base rel query \<noteq> None"
  by (auto simp: url_verdict_def upstream_url_def Let_def split: option.splits)

lemma key_verdict_known: "key_verdict C gw hs = KeyKnown mid \<longleftrightarrow> authenticate C gw hs = Some mid"
  by (auto simp: key_verdict_def authenticate_def split: list.splits option.splits)

lemma key_verdict_refused:
  "authenticate C gw hs = None \<Longrightarrow> key_verdict C gw hs = KeyUnusable \<or> key_verdict C gw hs = KeyUnknown"
  by (cases "key_verdict C gw hs") (simp_all add: key_verdict_known)

text \<open>The events follow the handler: an answer is logged exactly when a request was sent.\<close>

lemma route_v1_log_sent:
  "length (route_v1_log C gw req answer) = 2 \<and> ev_fields (last (route_v1_log C gw req answer)) \<noteq> [] \<longleftrightarrow>
     rr_sent (route_v1 C gw w ev now req polls later answer) \<noteq> None"
proof (cases "authenticate C gw (rq_headers req)")
  case None
  with key_verdict_refused [OF None] show ?thesis
    by (auto simp: route_v1_log_def route_v1_def route_prepare_def)
next
  case (Some mid)
  let ?u = "upstream_url (cr_url C) (upstream_base gw) (path_suffix (rq_path req)) (rq_query req)"
  let ?v = "url_verdict (cr_url C) (upstream_base gw) (path_suffix (rq_path req)) (rq_query req)"
  have "rr_sent (route_v1 C gw w ev now req polls later answer) \<noteq> None \<longleftrightarrow> ?u \<noteq> None"
    using Some by (auto simp: route_v1_def route_prepare_def Let_def split: option.splits send_answer.splits)
  moreover have "length (route_v1_log C gw req answer) = 2 \<and>
      ev_fields (last (route_v1_log C gw req answer)) \<noteq> [] \<longleftrightarrow> ?v = UrlAccepted"
    using Some [folded key_verdict_known]
    by (auto simp: route_v1_log_def event_def answer_log_def Let_def
        split: url_judgement.splits send_answer.splits)
  ultimately show ?thesis by (simp add: url_verdict_accepted)
qed

text \<open>The warning of \<open>record_audit\<close> is a function of the record it offers.\<close>

lemma record_audit_log_eq:
  "record_audit_log s p = record_log (audit_record ev now mid oper status s oc p eff)"
  by (simp add: record_audit_log_def record_log_def audit_record_def AuditRecord_new_def Let_def)

text \<open>Reading the events off the state is right: a step of the task adds exactly what it logs.\<close>

lemma parsed_pushes: "sp_parsed (foldl push p cs) = sp_parsed p"
  by (induction cs arbitrary: p) (simp_all add: push_def)

lemma unfinished_task:
  assumes "pump_reach D J E (pump_init mid oper status s h eff polls chunks clean) st"
    and "pm_phase st \<noteq> Finished"
  shows "pm_recorded st = []" and "pm_parser st = Some p \<Longrightarrow> sp_parsed p = None"
  using pump_reach_inv [OF assms(1) refl] assms(2)
  by (auto simp: pump_inv_def record_inv_def pump_init_def parsed_pushes StreamUsageParser_new_def
      split: if_splits)

lemma pump_record_logs:
  assumes "pm_recorded st = []" and "\<And>p. pm_parser st = Some p \<Longrightarrow> sp_parsed p = None"
    and "pm_parser st = None \<longleftrightarrow> pm_operation st = None"
  shows "task_log J E (pump_record D J E ev now st) = pump_record_log J E st"
proof (cases "pm_parser st")
  case None
  then show ?thesis
    using assms(1) by (simp add: task_log_def pump_record_def pump_record_log_def parser_log_def)
next
  case (Some p)
  moreover from this assms(3) obtain oper where "pm_operation st = Some oper" by auto
  moreover have "record_log (audit_record ev now mid oper status s oc q eff) = record_audit_log s q"
    for mid status s oc q eff using record_audit_log_eq by metis
  ultimately show ?thesis
    using assms(1) assms(2) [OF Some]
    by (simp add: task_log_def pump_record_def pump_record_log_def parser_log_def finalize_log_def
        finalize_def Let_def split: prod.split)
qed

lemma task_log_step:
  assumes "pump_reach D J E (pump_init mid oper status s h eff polls chunks clean) st"
    and "pump_step D J E st st'"
  shows "task_log J E st' = task_log J E st @
    (if pm_phase st \<noteq> Finished \<and> pm_phase st' = Finished then pump_record_log J E st else [])"
  using assms(2)
proof (cases rule: pump_step.cases)
  case (write_record ev now)
  have "pm_parser st = None \<longleftrightarrow> pm_operation st = None"
    using pump_reach_inv [OF assms(1) refl] write_record
    by (auto simp: pump_inv_def record_inv_def same_request_def pump_init_def split: if_splits)
  with unfinished_task [OF assms(1)] write_record show ?thesis
    by (subst write_record(1), subst pump_record_logs)
      (auto simp: task_log_def pump_record_def Let_def split: option.splits prod.splits)
qed (auto simp: task_log_def)

text \<open>What diagnostics may show of a request.\<close>

record request_view =
  view_route :: route
  view_method :: string
  view_path :: string
  view_key :: key_judgement
  view_url :: url_judgement
  view_status :: "u16 option"

definition answer_status :: "send_answer \<Rightarrow> u16 option" where
  "answer_status answer = (case answer of SendErr \<Rightarrow> None | SendOk status _ _ _ \<Rightarrow> Some status)"

definition log_view ::
  "axum_lib \<Rightarrow> ('u, 'd, 'v) crates \<Rightarrow> 'u Gateway \<Rightarrow> Request \<Rightarrow> send_answer \<Rightarrow> request_view" where
  "log_view A C gw req answer =
     \<lparr>view_route = router A req, view_method = rq_method req, view_path = rq_path req,
      view_key = key_verdict C gw (rq_headers req),
      view_url = url_verdict (cr_url C) (upstream_base gw) (path_suffix (rq_path req)) (rq_query req),
      view_status = answer_status answer\<rparr>"

lemma answer_log_status:
  "answer_status x = answer_status y \<Longrightarrow> answer_log H label meth mid x = answer_log H label meth mid y"
  by (auto simp: answer_log_def answer_status_def split: send_answer.splits)

lemma serve_log_view:
  assumes "log_view A C gw a x = log_view A C gw b y"
  shows "serve_log A C gw a x = serve_log A C gw b y"
proof -
  have view: "router A a = router A b" "rq_method a = rq_method b" "rq_path a = rq_path b"
      "key_verdict C gw (rq_headers a) = key_verdict C gw (rq_headers b)"
      "url_verdict (cr_url C) (upstream_base gw) (path_suffix (rq_path b)) (rq_query a) =
       url_verdict (cr_url C) (upstream_base gw) (path_suffix (rq_path b)) (rq_query b)"
      "answer_status x = answer_status y"
    using assms by (auto simp: log_view_def)
  show ?thesis
    by (simp only: serve_log_def route_v1_log_def view(1-5) answer_log_status [OF view(6)])
qed

text \<open>
  What diagnostics may show of a finished task: the metering errors of its records, and that header
  and body name different models.
\<close>

record finished_view =
  view_finished :: bool
  view_errors :: "MeteringError option list"
  view_conflict :: bool

definition models_conflict :: "string option \<Rightarrow> string option \<Rightarrow> bool" where
  "models_conflict header body \<longleftrightarrow> header \<noteq> None \<and> body \<noteq> None \<and> header \<noteq> body"

definition task_view :: "'v json_lib \<Rightarrow> sse_lib \<Rightarrow> 'e pump \<Rightarrow> finished_view" where
  "task_view J E t =
     \<lparr>view_finished = (pm_phase t = Finished), view_errors = map metering_error (pm_recorded t),
      view_conflict =
        (case pm_parser t of
           None \<Rightarrow> False
         | Some p \<Rightarrow> models_conflict (sp_header_model p) (observed_model J E (sp_mirror p)))\<rparr>"

lemma effective_model_log_conflict:
  "effective_model_log header body =
     (if models_conflict header body
      then [event TRACE [] ''openai-model response header overrides the terminal-body model''] else [])"
  by (auto simp: effective_model_log_def models_conflict_def split: option.splits)

lemma task_log_view:
  "task_log J E t =
     (let v = task_view J E t in
      (if view_finished v \<and> view_conflict v
       then [event TRACE [] ''openai-model response header overrides the terminal-body model''] else []) @
      concat (map (\<lambda>m. case m of Some e \<Rightarrow> [metering_warning e] | None \<Rightarrow> []) (view_errors v)))"
  by (simp add: Let_def task_log_def task_view_def parser_log_def effective_model_log_conflict comp_def
      record_log_def [abs_def] split: option.splits)

definition allowed_fields :: "string list" where
  "allowed_fields = [''event'', ''route'', ''method'', ''machine_id'', ''status'', ''metering_error'']"

definition event_allowed :: "log_event \<Rightarrow> bool" where
  "event_allowed e \<longleftrightarrow> list_all (\<lambda>f. fst f \<in> set allowed_fields) (ev_fields e)"

lemma event_allowed_event [simp]:
  "event_allowed (event l fs m) \<longleftrightarrow> list_all (\<lambda>f. fst f \<in> set allowed_fields) fs"
  by (simp add: event_allowed_def event_def)

lemma answer_log_allowed [simp]: "event_allowed (answer_log H label meth mid answer)"
  by (simp add: answer_log_def allowed_fields_def Let_def split: send_answer.split)

lemma serve_log_allowed: "list_all event_allowed (serve_log A C gw req answer)"
  by (simp add: serve_log_def route_v1_log_def split: route.split key_judgement.split url_judgement.split)
    (simp add: allowed_fields_def)

lemma record_log_allowed: "list_all event_allowed (record_log r)"
  by (simp add: record_log_def metering_warning_def allowed_fields_def split: option.splits)

lemma task_log_allowed: "list_all event_allowed (task_log J E t)"
  using record_log_allowed
  by (auto simp: task_log_def parser_log_def effective_model_log_conflict list_all_iff split: option.splits)

text \<open>
  What an operator sees of a request: the printed lines do not even tell whether header and body name
  different models, which is an event of level trace, and a health check prints nothing.
\<close>

lemma task_log_shown:
  "filter (\<lambda>e. ev_level e \<le> INFO) (task_log J E t) =
     concat (map (\<lambda>m. case m of Some e \<Rightarrow> [metering_warning e] | None \<Rightarrow> []) (map metering_error (pm_recorded t)))"
proof -
  have "filter (\<lambda>e. ev_level e \<le> INFO) (record_log r) =
      (case metering_error r of Some e \<Rightarrow> [metering_warning e] | None \<Rightarrow> [])" for r
    by (simp add: record_log_def metering_warning_def event_def less_eq_Level_def split: option.split)
  then show ?thesis
    by (simp add: task_log_def parser_log_def effective_model_log_conflict event_def less_eq_Level_def
        filter_concat comp_def split: option.split)
qed

lemma printed_log_sanitized:
  fixes s t :: "'e pump option"
  assumes "subscriber_ok L" and "log_view A C gw a x = log_view A C gw b y"
    and "map_option (\<lambda>u. map metering_error (pm_recorded u)) s = map_option (\<lambda>u. map metering_error (pm_recorded u)) t"
  shows "printed L (init_logging L) stream (request_log A C gw a x s) =
    printed L (init_logging L) stream (request_log A C gw b y t)"
proof (cases stream)
  case Stderr
  then show ?thesis
    using assms(3)
    by (cases s; cases t)
      (simp_all add: printed_stderr [OF assms(1)] request_log_def serve_log_view [OF assms(2)] task_log_shown)
qed simp

lemma health_check_prints_nothing:
  "subscriber_ok L \<Longrightarrow> router A req = RouteHealthz \<Longrightarrow>
     printed L (init_logging L) Stderr (serve_log A C gw req answer) = []"
  by (simp add: printed_stderr serve_log_def event_def less_eq_Level_def)

section \<open>Properties\<close>

text \<open>
  (C12) Diagnostics are sanitized: what a request writes to the log, from its arrival to the end of its
  response task, is determined by the route, the method, the path, the machine id or the reason of a
  refusal, whether the target was acceptable, the upstream status, the metering error and whether
  header and body name different models. Two requests that agree on these have the same log whatever
  their other headers, keys, credentials, bodies, response headers and response bodies are, and every
  field of every event has one of six fixed names.
\<close>

theorem request_log_sanitized:
  fixes s t :: "'e pump option"
  assumes "log_view A C gw a x = log_view A C gw b y"
    and "map_option (task_view (cr_json C) (cr_sse C)) s = map_option (task_view (cr_json C) (cr_sse C)) t"
  shows "request_log A C gw a x s = request_log A C gw b y t \<and>
    list_all event_allowed (request_log A C gw a x s)"
proof -
  have "(case s of None \<Rightarrow> [] | Some st \<Rightarrow> task_log (cr_json C) (cr_sse C) st) =
      (case t of None \<Rightarrow> [] | Some st \<Rightarrow> task_log (cr_json C) (cr_sse C) st)"
    using assms(2) by (cases s; cases t) (simp_all add: task_log_view)
  then show ?thesis
    using serve_log_view [OF assms(1)] serve_log_allowed [of A C gw a x] task_log_allowed
    by (simp add: request_log_def split: option.splits)
qed

theorem request_log_sanitized_witness:
  "request_log plain_axum plain_crates plain_gateway
     \<lparr>rq_method = ''POST'', rq_path = ''/v1/responses'', rq_query = None,
      rq_headers = [(''x-meter-key'', ''k''), (''authorization'', ''Bearer s1'')]\<rparr>
     (SendOk 200 [(''x-request-id'', ''r1'')] [''private''] True) (None :: unit pump option) =
   request_log plain_axum plain_crates plain_gateway
     \<lparr>rq_method = ''POST'', rq_path = ''/v1/responses'', rq_query = None,
      rq_headers = [(''authorization'', ''Bearer s2''), (''x-meter-key'', ''k'')]\<rparr>
     (SendOk 200 [] [''other'', ''body''] False) (None :: unit pump option)"
proof -
  let ?a = "\<lparr>rq_method = ''POST'', rq_path = ''/v1/responses'', rq_query = None,
      rq_headers = [(''x-meter-key'', ''k''), (''authorization'', ''Bearer s1'')]\<rparr>"
  let ?b = "\<lparr>rq_method = ''POST'', rq_path = ''/v1/responses'', rq_query = None,
      rq_headers = [(''authorization'', ''Bearer s2''), (''x-meter-key'', ''k'')]\<rparr>"
  have "key_verdict plain_crates plain_gateway (rq_headers ?a) = KeyKnown ''m1''"
    "key_verdict plain_crates plain_gateway (rq_headers ?b) = KeyKnown ''m1''"
    by code_simp+
  then have v: "log_view plain_axum plain_crates plain_gateway ?a
      (SendOk 200 [(''x-request-id'', ''r1'')] [''private''] True) =
    log_view plain_axum plain_crates plain_gateway ?b (SendOk 200 [] [''other'', ''body''] False)"
    by (simp add: log_view_def answer_status_def router_def)
  from request_log_sanitized [OF v, of "None :: unit pump option" None] show ?thesis by simp
qed

end
