(* ===== verification/Cli.thy ===== *)
theory Cli
  imports Config Smoke_Run Diagnostics
begin

text \<open>
  The command line of \<^verbatim>\<open>src/src/main.rs\<close>: argument parsing, the construction of the gateway, the
  subcommands and their exit codes, and the order of startup and shutdown. The build feature
  \<open>test-upstream-override\<close> is a flag; what files, sockets, signals and the server answer is an
  environment record. The result of a process is its output, its log events and its exit code.
\<close>

section \<open>Arguments\<close>

definition DEFAULT_CONFIG_PATH :: string where
  "DEFAULT_CONFIG_PATH = ''/etc/debitmetre/config.toml''"

datatype Command = Run string | Summary string | Smoke SmokeParams

text \<open>The display form of an error.\<close>

definition display_cli_error :: "CliError \<Rightarrow> string" where
  "display_cli_error err =
     (case err of
        Help \<Rightarrow> []
      | UnknownOption \<Rightarrow> ''unknown option (see --help)''
      | MissingValue \<Rightarrow> ''--config requires a path argument''
      | SmokeHelp \<Rightarrow> []
      | SmokeError message \<Rightarrow> message)"

text \<open>The dash of the first line of the help texts, in UTF-8.\<close>

definition EM_DASH :: string where
  "EM_DASH = [CHR 0xE2, CHR 0x80, CHR 0x94]"

definition usage_text :: "bool \<Rightarrow> string" where
  "usage_text smoke_feature =
     ''debitmetre '' @ EM_DASH @ '' central transparent proxy gateway for Codex clients'' @ LF @ LF @
     ''USAGE:'' @ LF @
     ''   debitmetre [--config <PATH>]          run the gateway'' @ LF @
     ''   debitmetre summary [--config <PATH>]  print accumulated token usage by machine and model'' @ LF @
     (if smoke_feature
      then ''   debitmetre smoke [OPTIONS]              run a mock load smoke through the real gateway'' @ LF
      else []) @ LF @
     ''OPTIONS:'' @ LF @
     ''   --config <PATH>   path to the TOML config (default: /etc/debitmetre/config.toml)'' @ LF @
     ''   -h, --help        print this help''"

definition smoke_usage_text :: string where
  "smoke_usage_text =
     ''debitmetre smoke '' @ EM_DASH @ '' run a safe mock streaming load smoke through the real gateway'' @ LF @ LF @
     ''USAGE:'' @ LF @
     ''   debitmetre smoke [OPTIONS]'' @ LF @ LF @
     ''Runs the external oha load generator through the real release gateway into'' @ LF @
     ''a loopback-only mock upstream (terminal SSE with canonical model/usage),'' @ LF @
     ''then reconciles the canonical audit records. Contacts no real upstream and'' @ LF @
     ''consumes zero model tokens.'' @ LF @ LF @
     ''OPTIONS:'' @ LF @
     ''   --count <N>            total requests (default: 100)'' @ LF @
     ''   --concurrency <C>      concurrent connections (default: 10)'' @ LF @
     ''   --response-bytes <B>   mock response body bytes (default: 4096)'' @ LF @
     ''   --delay-ms <D>         mock stream delay between chunks (default: 5)'' @ LF @
     ''   --oha <PATH>           path to the oha binary (default: OHA_BIN, then oha in PATH)'' @ LF @
     ''   --port <PORT>          gateway loopback port, 0 = free (default: 0, a free port)'' @ LF @
     ''   -h, --help             print this help''"

text \<open>The loop of \<open>parse_args\<close> with its variables \<open>config\<close> and \<open>summary_command\<close>.\<close>

fun main_args :: "string list \<Rightarrow> string option \<Rightarrow> bool \<Rightarrow> CliError + string option \<times> bool" where
  "main_args [] config summary_command = Inr (config, summary_command)"
| "main_args (arg # rest) config summary_command =
     (if arg = ''-h'' \<or> arg = ''--help'' then Inl Help
      else if arg = ''summary'' then main_args rest config True
      else if arg = ''--config'' then
        (case rest of
           [] \<Rightarrow> Inl MissingValue
         | value # rest1 \<Rightarrow> main_args rest1 (Some value) summary_command)
      else
        (case strip_prefix ''--config='' arg of
           Some value \<Rightarrow>
             if value = [] then Inl MissingValue else main_args rest (Some value) summary_command
         | None \<Rightarrow> Inl UnknownOption))"

definition parse_args :: "bool \<Rightarrow> string list \<Rightarrow> CliError + Command" where
  "parse_args smoke_feature args =
     (if smoke_feature \<and> args \<noteq> [] \<and> hd args = ''smoke''
      then (case parse_smoke (tl args) of Inl err \<Rightarrow> Inl err | Inr params \<Rightarrow> Inr (Smoke params))
      else (case main_args args None False of
              Inl err \<Rightarrow> Inl err
            | Inr (config, summary_command) \<Rightarrow>
                (let path = (case config of Some p \<Rightarrow> p | None \<Rightarrow> DEFAULT_CONFIG_PATH)
                 in if summary_command then Inr (Summary path) else Inr (Run path))))"

section \<open>Running\<close>

text \<open>How the server task ended, with the text of the error.\<close>

datatype server_end = ServerOk | ServerErr string | ServerFailed string

text \<open>
  What \<open>shutdown_signal\<close> waits for: an interrupt, also when waiting for it fails, or a termination
  signal, for which the handler may not be available.
\<close>

datatype signal_event = CtrlC | CtrlCFailed | Terminate | NoTerminateHandler

text \<open>The first event of the main task: a signal, or the end of the server.\<close>

datatype first_event = Signal signal_event | ServerEnded server_end

record 'v main_env =
  me_read_config :: "string \<Rightarrow> string + string"
  me_open_usage :: "string \<Rightarrow> string + bytes"
  me_test_upstream :: "string option"
  me_bind :: "string + unit"
  me_local_addr :: "string + string"
  me_first :: first_event
  me_drained :: server_end
  me_read_usage :: "string \<Rightarrow> string + bytes \<times> string option"
  me_stdout :: sink
  me_smoke :: "'v smoke_env"

text \<open>
  \<open>build_gateway\<close>; opening the usage file fails with a text, and a failed \<open>expect\<close> panics.
\<close>

definition build_gateway ::
  "bool \<Rightarrow> 'u url_lib \<Rightarrow> string option \<Rightarrow> Config \<Rightarrow> string + bytes \<Rightarrow>
     string startup_error + 'u Gateway \<times> AuditWriter" where
  "build_gateway smoke_feature U test_upstream cfg opened =
     (let open_usage_file = (\<lambda>gateway.
            case gateway of
              Inl (IoError err) \<Rightarrow>
                Inl (IoError (''cannot open usage file '' @ cfg_usage_file cfg @ '': '' @ err))
            | r \<Rightarrow> r)
      in if smoke_feature \<and> test_upstream \<noteq> None
         then (case url_parse U (the test_upstream) of
                 None \<Rightarrow> Inl Panicked
               | Some url \<Rightarrow> open_usage_file (for_tests url (cfg_machine_keys cfg) opened))
         else open_usage_file (production U (cfg_machine_keys cfg) opened))"

text \<open>
  What a process leaves: what reached its standard output, the lines it wrote to stderr, the events it
  gave to the log, its exit code, and the gateway it served, if any. A panic of the main task ends the
  process with code 101; the message of the panic hook is not among the lines.
\<close>

record 'u process =
  pr_stdout :: string
  pr_stderr :: "string list"
  pr_log :: "log_event list"
  pr_exit :: nat
  pr_served :: "('u Gateway \<times> AuditWriter) option"

definition exit_with :: "nat \<Rightarrow> 'u process" where
  "exit_with code = \<lparr>pr_stdout = [], pr_stderr = [], pr_log = [], pr_exit = code, pr_served = None\<rparr>"

definition server_exit :: "server_end \<Rightarrow> nat \<times> log_event" where
  "server_exit r =
     (case r of
        ServerOk \<Rightarrow> (0, event INFO [] ''gateway stopped'')
      | ServerErr err \<Rightarrow> (1, event ERROR [] (''server error: '' @ err))
      | ServerFailed err \<Rightarrow> (1, event ERROR [] (''server task failed: '' @ err)))"

text \<open>\<open>shutdown_signal\<close> returns, or panics when the handler cannot be installed.\<close>

definition shutdown_signal :: "signal_event \<Rightarrow> unit option" where
  "shutdown_signal s =
     (case s of CtrlC \<Rightarrow> Some () | CtrlCFailed \<Rightarrow> Some () | Terminate \<Rightarrow> Some () | NoTerminateHandler \<Rightarrow> None)"

text \<open>The part of \<open>run_gateway\<close> after the listener is ready: exit code and events.\<close>

definition serve_until_shutdown :: "first_event \<Rightarrow> server_end \<Rightarrow> nat \<times> log_event list" where
  "serve_until_shutdown first drained =
     (case first of
        ServerEnded r \<Rightarrow> (fst (server_exit r), [snd (server_exit r)])
      | Signal s \<Rightarrow>
          (case shutdown_signal s of
             None \<Rightarrow> (101, [])
           | Some _ \<Rightarrow>
               (fst (server_exit drained),
                [event INFO [] ''shutdown signal received; draining connections'',
                 snd (server_exit drained)])))"

definition configuration_error :: "string \<Rightarrow> log_event" where
  "configuration_error reason =
     event ERROR [(''event'', ''configuration_error''), (''reason'', reason)] ''configuration error''"

definition run_gateway ::
  "bool \<Rightarrow> 'e toml_lib \<Rightarrow> 'u url_lib \<Rightarrow> 'v main_env \<Rightarrow> string \<Rightarrow> 'u process" where
  "run_gateway smoke_feature T U e path =
     (case load T path (me_read_config e path) of
        Inl err \<Rightarrow> (exit_with 1)\<lparr>pr_log := [configuration_error (display_error T err)]\<rparr>
      | Inr cfg \<Rightarrow>
          (case build_gateway smoke_feature U (me_test_upstream e) cfg
                  (me_open_usage e (cfg_usage_file cfg)) of
             Inl Panicked \<Rightarrow> exit_with 101
           | Inl (IoError err) \<Rightarrow> (exit_with 1)\<lparr>pr_log := [configuration_error err]\<rparr>
           | Inr (gw, audit) \<Rightarrow>
               (case me_bind e of
                  Inl err \<Rightarrow>
                    (exit_with 1)\<lparr>pr_log := [event ERROR []
                      (''cannot bind '' @ show_socket_addr (cfg_listen cfg) @ '': '' @ err)]\<rparr>
                | Inr _ \<Rightarrow>
               (case me_local_addr e of
                  Inl err \<Rightarrow>
                    (exit_with 1)\<lparr>pr_log := [event ERROR [] (''cannot resolve listener address: '' @ err)]\<rparr>
                | Inr addr \<Rightarrow>
                    (let (code, events) = serve_until_shutdown (me_first e) (me_drained e)
                     in (exit_with code)
                        \<lparr>pr_log := event INFO [(''listen'', addr),
                             (''machines'', show_nat (length (cfg_machine_keys cfg)))]
                             ''gateway listening'' # events,
                         pr_served := Some (gw, audit)\<rparr>)))))"

definition run_summary ::
  "'e toml_lib \<Rightarrow> record_codec \<Rightarrow> 'v main_env \<Rightarrow> string \<Rightarrow> 'u process" where
  "run_summary T C e path =
     (case load T path (me_read_config e path) of
        Inl err \<Rightarrow> (exit_with 1)\<lparr>pr_stderr := [''debitmetre: '' @ display_error T err]\<rparr>
      | Inr cfg \<Rightarrow>
          (case print_summary C (cfg_usage_file cfg) (me_read_usage e (cfg_usage_file cfg)) (me_stdout e) of
             (out, Inr warns) \<Rightarrow> (exit_with 0)\<lparr>pr_stdout := out, pr_stderr := warns\<rparr>
           | (out, Inl err) \<Rightarrow> (exit_with 1)\<lparr>pr_stdout := out, pr_stderr := [''debitmetre: '' @ err]\<rparr>))"

text \<open>\<open>println!\<close> panics when the output cannot be written, after what it could write.\<close>

definition println :: "sink \<Rightarrow> string \<Rightarrow> 'u process" where
  "println out text =
     (case write_all out (text @ LF) of
        (written, None, _) \<Rightarrow> (exit_with 0)\<lparr>pr_stdout := written\<rparr>
      | (written, Some _, _) \<Rightarrow> (exit_with 101)\<lparr>pr_stdout := written\<rparr>)"

definition run_smoke ::
  "'v json_lib \<Rightarrow> ('v \<Rightarrow> rat option) \<Rightarrow> digest_lib \<Rightarrow> 'v main_env \<Rightarrow> SmokeParams \<Rightarrow> 'u process" where
  "run_smoke J F X e params =
     (case fst (smoke_run J F X (me_smoke e) params) of
        Inr report \<Rightarrow> println (me_stdout e) report
      | Inl err \<Rightarrow> (exit_with 1)\<lparr>pr_stderr := [''debitmetre smoke: '' @ err]\<rparr>)"

definition main ::
  "bool \<Rightarrow> 'e toml_lib \<Rightarrow> 'u url_lib \<Rightarrow> record_codec \<Rightarrow> 'v json_lib \<Rightarrow> ('v \<Rightarrow> rat option) \<Rightarrow>
     digest_lib \<Rightarrow> 'v main_env \<Rightarrow> string list \<Rightarrow> 'u process" where
  "main smoke_feature T U C J F X e args =
     (case parse_args smoke_feature args of
        Inl Help \<Rightarrow> println (me_stdout e) (usage_text smoke_feature)
      | Inl SmokeHelp \<Rightarrow> println (me_stdout e) smoke_usage_text
      | Inl err \<Rightarrow>
          (exit_with 2)\<lparr>pr_stderr := [''debitmetre: '' @ display_cli_error err, usage_text smoke_feature]\<rparr>
      | Inr (Run config) \<Rightarrow> run_gateway smoke_feature T U e config
      | Inr (Summary config) \<Rightarrow> run_summary T C e config
      | Inr (Smoke params) \<Rightarrow> run_smoke J F X e params)"

section \<open>Lemmas\<close>

lemma build_gateway_Inr:
  assumes "build_gateway f U t cfg opened = Inr (gw, audit)"
  shows "\<exists>content. opened = Inr content \<and> audit = spawn content"
    and "machine_keys gw = cfg_machine_keys cfg"
    and "\<not> f \<Longrightarrow> url_parse U PRODUCTION_UPSTREAM_BASE = Some (upstream_base gw)"
  using assms
  by (cases opened; auto simp: build_gateway_def production_def for_tests_def start_def Let_def
      split: option.splits if_splits)+

lemma run_gateway_served:
  "pr_served (run_gateway f T U e path) = Some (gw, audit) \<longleftrightarrow>
     (\<exists>cfg. load T path (me_read_config e path) = Inr cfg \<and>
        build_gateway f U (me_test_upstream e) cfg (me_open_usage e (cfg_usage_file cfg)) =
          Inr (gw, audit) \<and>
        \<not> isl (me_bind e) \<and> \<not> isl (me_local_addr e))"
  by (auto simp: run_gateway_def exit_with_def Let_def
      split: sum.splits startup_error.splits if_splits prod.splits)

text \<open>The process ends well: the server did, and waiting for signals did not panic.\<close>

definition clean_end :: "first_event \<Rightarrow> server_end \<Rightarrow> bool" where
  "clean_end first drained \<longleftrightarrow>
     (case first of
        ServerEnded s \<Rightarrow> s = ServerOk
      | Signal g \<Rightarrow> g \<noteq> NoTerminateHandler \<and> drained = ServerOk)"

lemma serve_until_shutdown_exit:
  "fst (serve_until_shutdown first drained) = 0 \<longleftrightarrow> clean_end first drained"
  by (auto simp: serve_until_shutdown_def server_exit_def shutdown_signal_def clean_end_def
      split: first_event.splits server_end.splits signal_event.splits)

lemma run_gateway_exit:
  "pr_exit (run_gateway f T U e path) = 0 \<longleftrightarrow>
     pr_served (run_gateway f T U e path) \<noteq> None \<and> clean_end (me_first e) (me_drained e)"
  by (auto simp: run_gateway_def exit_with_def Let_def serve_until_shutdown_exit [symmetric]
      split: sum.splits startup_error.splits prod.splits)

lemma run_gateway_refused:
  "pr_served (run_gateway f T U e path) = None \<Longrightarrow>
     (pr_exit (run_gateway f T U e path), map ev_level (pr_log (run_gateway f T U e path)))
       \<in> {(101, []), (1, [ERROR])}"
  by (auto simp: run_gateway_def exit_with_def Let_def configuration_error_def event_def
      split: sum.splits startup_error.splits prod.splits)

text \<open>The text a summary prints in full, if it can be computed.\<close>

definition summary_text :: "'e toml_lib \<Rightarrow> record_codec \<Rightarrow> 'v main_env \<Rightarrow> string \<Rightarrow> string option" where
  "summary_text T C e path =
     (case load T path (me_read_config e path) of
        Inl _ \<Rightarrow> None
      | Inr cfg \<Rightarrow>
          (case read_usage_file C (cfg_usage_file cfg) (me_read_usage e (cfg_usage_file cfg)) of
             Inl _ \<Rightarrow> None
           | Inr st \<Rightarrow> Some (render (groups st) (effort_groups st) (coverage st))))"

lemma run_summary_cases:
  assumes "r = run_summary T C e path"
  shows "case summary_text T C e path of
     None \<Rightarrow> pr_stdout r = [] \<and> pr_exit r = 1
   | Some text \<Rightarrow> prefix (pr_stdout r) text \<and> pr_exit r = (if pr_stdout r = text then 0 else 1)"
    and "if pr_exit r = 0 then True else \<exists>msg. pr_stderr r = [''debitmetre: '' @ msg]"
  unfolding assms
  by (auto simp: run_summary_def summary_text_def exit_with_def print_summary_def render_def
      dest: write_lines_prefix split: sum.splits option.splits prod.splits)

lemma println_cases:
  assumes "r = println out text"
  shows "prefix (pr_stdout r) (text @ LF)" and "pr_exit r = (if pr_stdout r = text @ LF then 0 else 101)"
    and "pr_stderr r = []" and "pr_served r = None"
  unfolding assms using write_all_prefix [of out "text @ LF"]
  by (auto simp: println_def exit_with_def split: prod.splits option.splits)

lemma never_served:
  "pr_served (run_summary T C e path) = None" "pr_served (run_smoke J F X e params) = None"
  by (auto simp: run_summary_def run_smoke_def println_cases [OF refl] exit_with_def split: sum.splits prod.splits)

lemma run_gateway_output:
  "pr_stdout (run_gateway f T U e path) = []" "pr_stderr (run_gateway f T U e path) = []"
  by (auto simp: run_gateway_def exit_with_def Let_def split: sum.splits startup_error.splits prod.splits)

lemma run_gateway_codes: "pr_exit (run_gateway f T U e path) \<in> {0, 1, 101}"
  by (auto simp: run_gateway_def exit_with_def serve_until_shutdown_def server_exit_def Let_def
      split: sum.splits startup_error.splits prod.splits first_event.splits server_end.splits option.splits)

text \<open>A run that serves nothing and does not panic says why, in one line on stderr.\<close>

lemma failed_start_printed:
  assumes "subscriber_ok L" and "pr_served (run_gateway f T U e path) = None"
    and "pr_exit (run_gateway f T U e path) \<noteq> 101"
  shows "\<exists>ev. pr_log (run_gateway f T U e path) = [ev] \<and>
    printed L (init_logging L) Stderr (pr_log (run_gateway f T U e path)) = [fmt_line L (init_logging L) ev]"
proof -
  have "map ev_level (pr_log (run_gateway f T U e path)) = [ERROR]"
    using run_gateway_refused [OF assms(2)] assms(3) by auto
  then show ?thesis by (auto simp: printed_stderr [OF assms(1)] less_eq_Level_def)
qed

section \<open>Properties\<close>

text \<open>
  The command line: a configuration path can be given as \<open>--config p\<close> or \<open>--config=p\<close>, the
  subcommand \<open>summary\<close> before or after it, the last path wins, without a path the default is used, a
  missing or empty value and anything unknown is rejected, and help is asked for anywhere.
\<close>

lemma parse_args_cases:
  "parse_args f [] = Inr (Run DEFAULT_CONFIG_PATH) \<and>
   parse_args f [''summary''] = Inr (Summary DEFAULT_CONFIG_PATH) \<and>
   parse_args f [''--config'', p] = Inr (Run p) \<and>
   parse_args f [''--config='' @ p] = (if p = [] then Inl MissingValue else Inr (Run p)) \<and>
   parse_args f [''summary'', ''--config'', p] = Inr (Summary p) \<and>
   parse_args f [''--config'', p, ''summary''] = Inr (Summary p) \<and>
   parse_args f [''--config'', p, ''--config'', q] = Inr (Run q) \<and>
   parse_args f [''--config''] = Inl MissingValue \<and>
   parse_args f [''--config'', p, ''--help''] = Inl Help \<and>
   parse_args f [''--config'', p, CHR ''-'' # CHR ''x'' # q] = Inl UnknownOption \<and>
   parse_args False (''smoke'' # args) = Inl UnknownOption"
proof -
  have "strip_prefix ''--config='' (''--config='' @ p) = Some p" for p by (rule strip_prefix_append)
  then show ?thesis by (simp add: parse_args_def)
qed

text \<open>
  (C22) Startup is fail-closed: for the run command something is served only when the configuration
  was accepted, the usage file was opened, and the listener was bound and resolved, and then with the
  configured keys and a fresh writer on that file; otherwise nothing is served, the exit code is
  not zero and, unless the process panicked, the log is one event of level error. After serving, the
  exit code tells whether the server ended cleanly.
\<close>

theorem startup_fail_closed:
  "let r = run_gateway f T U e path in
   case pr_served r of
     None \<Rightarrow> (pr_exit r, map ev_level (pr_log r)) \<in> {(101, []), (1, [ERROR])}
   | Some (gw, audit) \<Rightarrow>
       (\<exists>cfg content. load T path (me_read_config e path) = Inr cfg \<and>
          me_open_usage e (cfg_usage_file cfg) = Inr content \<and>
          audit = spawn content \<and> machine_keys gw = cfg_machine_keys cfg \<and>
          \<not> isl (me_bind e) \<and> \<not> isl (me_local_addr e)) \<and>
       (pr_exit r = 0 \<longleftrightarrow> clean_end (me_first e) (me_drained e))"
proof (cases "pr_served (run_gateway f T U e path)")
  case None
  then show ?thesis using run_gateway_refused [OF None] by (simp add: Let_def)
next
  case (Some ga)
  obtain gw audit where ga: "ga = (gw, audit)" by force
  with Some obtain cfg where "load T path (me_read_config e path) = Inr cfg"
      "build_gateway f U (me_test_upstream e) cfg (me_open_usage e (cfg_usage_file cfg)) = Inr (gw, audit)"
      "\<not> isl (me_bind e)" "\<not> isl (me_local_addr e)"
    by (auto simp: run_gateway_served)
  with Some ga build_gateway_Inr(1,2) show ?thesis by (simp add: Let_def run_gateway_exit) blast
qed

text \<open>
  A production build serves the fixed upstream only: without the test feature the base URL of a
  served gateway is the compiled one, whatever the environment variable says.
\<close>

lemma production_upstream_fixed:
  "case pr_served (run_gateway False T U e path) of
     None \<Rightarrow> True
   | Some (gw, audit) \<Rightarrow> url_parse U PRODUCTION_UPSTREAM_BASE = Some (upstream_base gw)"
  by (auto simp: run_gateway_served dest: build_gateway_Inr(3) split: option.splits)

text \<open>
  (C38) Exit codes and output of every command. What reaches stdout is always a beginning of one text:
  the help, the complete summary, the smoke report, or nothing. Help, summary and smoke run end with 0
  exactly when all of it was printed; otherwise the printing of help and report panics (101) and the
  summary fails (1) with one line on stderr. A rejected command line, and nothing else, ends with 2, the
  reason and the usage on stderr. Run prints nothing; it ends with 0 exactly when it served and the
  server and the wait for signals ended well. No other command serves.
\<close>

theorem main_exit_codes:
  fixes U :: "'u url_lib"
  shows "let r = main f T U C J F X e args in
   case parse_args f args of
     Inl err \<Rightarrow>
       pr_served r = None \<and>
       (if err \<in> {Help, SmokeHelp}
        then let text = (if err = Help then usage_text f else smoke_usage_text) @ LF in
             pr_stderr r = [] \<and> prefix (pr_stdout r) text \<and> pr_exit r = (if pr_stdout r = text then 0 else 101)
        else pr_exit r = 2 \<and> pr_stdout r = [] \<and>
             pr_stderr r = [''debitmetre: '' @ display_cli_error err, usage_text f])
   | Inr (Run path) \<Rightarrow>
       pr_stdout r = [] \<and> pr_stderr r = [] \<and> pr_exit r \<in> {0, 1, 101} \<and>
       (pr_exit r = 0 \<longleftrightarrow> pr_served r \<noteq> None \<and> clean_end (me_first e) (me_drained e))
   | Inr (Summary path) \<Rightarrow>
       pr_served r = None \<and>
       (case summary_text T C e path of
          None \<Rightarrow> pr_stdout r = [] \<and> pr_exit r = 1
        | Some text \<Rightarrow> prefix (pr_stdout r) text \<and> pr_exit r = (if pr_stdout r = text then 0 else 1)) \<and>
       (if pr_exit r = 0 then True else \<exists>msg. pr_stderr r = [''debitmetre: '' @ msg])
   | Inr (Smoke params) \<Rightarrow>
       pr_served r = None \<and>
       (case fst (smoke_run J F X (me_smoke e) params) of
          Inl err \<Rightarrow> pr_stdout r = [] \<and> pr_exit r = 1 \<and> pr_stderr r = [''debitmetre smoke: '' @ err]
        | Inr report \<Rightarrow> prefix (pr_stdout r) (report @ LF) \<and>
            pr_exit r = (if pr_stdout r = report @ LF then 0 else 101))"
proof (cases "parse_args f args")
  case (Inl err)
  then show ?thesis
    by (cases err) (simp_all add: main_def Let_def println_cases [OF refl] exit_with_def)
next
  case (Inr cmd)
  show ?thesis
  proof (cases cmd)
    case (Run path)
    with Inr run_gateway_codes [of f T U e path] show ?thesis
      by (simp add: main_def Let_def run_gateway_output run_gateway_exit del: insert_iff)
  next
    case (Summary path)
    with Inr run_summary_cases [of "run_summary T C e path :: 'u process", OF refl] show ?thesis
      by (simp add: main_def Let_def never_served)
  next
    case (Smoke params)
    with Inr show ?thesis
      by (simp add: main_def Let_def never_served)
        (simp add: run_smoke_def println_cases [OF refl] exit_with_def split: sum.split)
  qed
qed

text \<open>
  The startup and shutdown log shows nothing of the key material: when two configurations differ
  in their key maps only and have equally many keys, the runs have the same log and exit code.
\<close>

lemma startup_log_hides_keys:
  assumes "load T path (me_read_config e path) = Inr cfg"
    and "load T path (rd path) = Inr (cfg\<lparr>cfg_machine_keys := keys\<rparr>)"
    and "length keys = length (cfg_machine_keys cfg)"
  shows "pr_log (run_gateway f T U (e\<lparr>me_read_config := rd\<rparr>) path) = pr_log (run_gateway f T U e path) \<and>
    pr_exit (run_gateway f T U (e\<lparr>me_read_config := rd\<rparr>) path) = pr_exit (run_gateway f T U e path)"
proof -
  let ?o = "me_open_usage e (cfg_usage_file cfg)"
  have "map_sum id (\<lambda>_. ()) (build_gateway f U (me_test_upstream e) (cfg\<lparr>cfg_machine_keys := keys\<rparr>) ?o) =
      map_sum id (\<lambda>_. ()) (build_gateway f U (me_test_upstream e) cfg ?o)"
    by (cases ?o)
      (auto simp: build_gateway_def production_def for_tests_def start_def Let_def split: option.splits)
  then show ?thesis
    using assms
    by (cases "build_gateway f U (me_test_upstream e) (cfg\<lparr>cfg_machine_keys := keys\<rparr>) ?o";
        cases "build_gateway f U (me_test_upstream e) cfg ?o")
      (auto simp: run_gateway_def exit_with_def Let_def split: startup_error.splits sum.splits prod.splits)
qed

text \<open>A file that consists of a digest, for the witness.\<close>

definition key_toml :: "unit toml_lib" where
  "key_toml = \<lparr>toml_from_str = \<lambda>s. Inr (sample_raw\<lparr>raw_machine_keys := [(s, ''m1'')]\<rparr>), toml_message = \<lambda>_. []\<rparr>"

lemma load_key_toml:
  assumes "is_digest_hex d"
  shows "load key_toml path (Inr d) = Inr (sample_config\<lparr>cfg_machine_keys := [(d, ''m1'')]\<rparr>)"
proof -
  have "trim ''m1'' \<noteq> []" by code_simp
  then show ?thesis
    using assms sample_valid(1)
    by (simp add: load_def key_toml_def try_from_def sample_config_def sample_raw_def bt_insert_def Let_def)
qed

lemma startup_log_hides_keys_witness:
  "\<forall>(e :: unit main_env) (U :: string url_lib) f.
     pr_log (run_gateway f key_toml U (e\<lparr>me_read_config := \<lambda>_. Inr (replicate 64 (CHR ''b''))\<rparr>) ''c'') =
     pr_log (run_gateway f key_toml U (e\<lparr>me_read_config := \<lambda>_. Inr (replicate 64 (CHR ''a''))\<rparr>) ''c'')"
proof (intro allI)
  fix e :: "unit main_env" and U :: "string url_lib" and f
  have "is_digest_hex (replicate 64 (CHR ''a''))" "is_digest_hex (replicate 64 (CHR ''b''))"
    by code_simp+
  note loaded = this [THEN load_key_toml, of "''c''"]
  show "pr_log (run_gateway f key_toml U (e\<lparr>me_read_config := \<lambda>_. Inr (replicate 64 (CHR ''b''))\<rparr>) ''c'') =
     pr_log (run_gateway f key_toml U (e\<lparr>me_read_config := \<lambda>_. Inr (replicate 64 (CHR ''a''))\<rparr>) ''c'')"
    using startup_log_hides_keys [of key_toml "''c''" "e\<lparr>me_read_config := \<lambda>_. Inr (replicate 64 (CHR ''a''))\<rparr>"
        "sample_config\<lparr>cfg_machine_keys := [(replicate 64 (CHR ''a''), ''m1'')]\<rparr>"
        "\<lambda>_. Inr (replicate 64 (CHR ''b''))" "[(replicate 64 (CHR ''b''), ''m1'')]" f U] loaded
    by simp
qed

end
