(* ===== verification/Unit_Tests.thy ===== *)
theory Unit_Tests
  imports Cli
begin

text \<open>
  The unit tests of \<^verbatim>\<open>src/src/config.rs\<close> and \<^verbatim>\<open>src/src/main.rs\<close>, run against the model: each test function
  is a predicate that holds when its assertions do. The texts that the tests write are read by the TOML
  crate; what it makes of them is the one assumption.
\<close>

section \<open>Configuration\<close>

fun contains :: "string \<Rightarrow> string \<Rightarrow> bool" where
  "contains [] p \<longleftrightarrow> p = []"
| "contains (c # s) p \<longleftrightarrow> starts_with p (c # s) \<or> contains s p"

definition fails_with :: "'e toml_lib \<Rightarrow> 'e ConfigError + Config \<Rightarrow> string list \<Rightarrow> bool" where
  "fails_with T result parts \<longleftrightarrow>
     (case result of Inl err \<Rightarrow> list_all (contains (display_error T err)) parts | Inr _ \<Rightarrow> False)"

definition TEST_METER_KEY_DIGEST :: string where
  "TEST_METER_KEY_DIGEST = ''82805ec33616c4aa802f141d3703fb17213fd8ced358f3a62348d8cf6e1ce051''"

definition VALID_USAGE_FILE :: string where
  "VALID_USAGE_FILE = ''/var/lib/debitmetre/usage.jsonl''"

text \<open>The text of a configuration file with the given listener, usage file and key entries.\<close>

definition config_text :: "string \<Rightarrow> string \<Rightarrow> (string \<times> string) list \<Rightarrow> string" where
  "config_text listen usage_file keys =
     ''listen = \"'' @ listen @ ''\"'' @ LF @ ''usage_file = \"'' @ usage_file @ ''\"'' @ LF @ LF @
     ''[machine_keys]'' @ LF @
     concat (map (\<lambda>(d, m). ''\"'' @ d @ ''\" = \"'' @ m @ ''\"'' @ LF) keys)"

definition valid_config_loads :: "'e toml_lib \<Rightarrow> string \<Rightarrow> bool" where
  "valid_config_loads T path \<longleftrightarrow>
     (case load T path (Inr (config_text ''127.0.0.1:8787'' VALID_USAGE_FILE [(TEST_METER_KEY_DIGEST, ''machine-a'')])) of
        Inl _ \<Rightarrow> False
      | Inr cfg \<Rightarrow>
          cfg_listen cfg = V4 [127, 0, 0, 1] 8787 \<and> cfg_usage_file cfg = VALID_USAGE_FILE \<and>
          cfg_machine_keys cfg = [(TEST_METER_KEY_DIGEST, ''machine-a'')])"

text \<open>The operating system's message is an argument.\<close>

definition missing_config_file_is_a_useful_error :: "'e toml_lib \<Rightarrow> string \<Rightarrow> bool" where
  "missing_config_file_is_a_useful_error T message \<longleftrightarrow>
     fails_with T (load T ''/nonexistent/debitmetre/config.toml'' (Inl message))
       [''cannot read config'', ''/nonexistent/debitmetre/config.toml'']"

definition malformed_text :: string where
  "malformed_text = ''listen = 127.0.0.1:8787'' @ LF @ ''[machine_keys'' @ LF"

definition malformed_toml_is_a_useful_error :: "'e toml_lib \<Rightarrow> string \<Rightarrow> bool" where
  "malformed_toml_is_a_useful_error T path \<longleftrightarrow>
     fails_with T (load T path (Inr malformed_text)) [''invalid TOML'']"

definition unknown_field_text :: string where
  "unknown_field_text =
     ''listen = \"127.0.0.1:8787\"'' @ LF @ ''upstream = \"https://chatgpt.com/\"'' @ LF"

definition unknown_fields_are_rejected :: "'e toml_lib \<Rightarrow> string \<Rightarrow> bool" where
  "unknown_fields_are_rejected T path \<longleftrightarrow>
     fails_with T (load T path (Inr unknown_field_text)) [''invalid TOML'']"

definition invalid_listen_address_is_rejected :: "'e toml_lib \<Rightarrow> string \<Rightarrow> bool" where
  "invalid_listen_address_is_rejected T path \<longleftrightarrow>
     fails_with T (load T path (Inr (config_text ''not-an-address'' ''/tmp/usage.jsonl'' [(''x'', ''machine-a'')])))
       [''listen'']"

definition empty_machine_keys_are_rejected :: "'e toml_lib \<Rightarrow> string \<Rightarrow> bool" where
  "empty_machine_keys_are_rejected T path \<longleftrightarrow>
     fails_with T (load T path (Inr (config_text ''127.0.0.1:8787'' ''/tmp/usage.jsonl'' []))) [''machine_keys'']"

definition malformed_digests :: "string list" where
  "malformed_digests =
     [''short'', ''82805EC33616C4AA802F141D3703FB17213FD8CED358F3A62348D8CF6E1CE051'',
      ''zzzzzzzzzzzzzzzzzzzzzzzzzzzzzzzzzzzzzzzzzzzzzzzzzzzzzzzzzzzzzzzz'']"

definition malformed_digest_keys_are_rejected :: "'e toml_lib \<Rightarrow> string \<Rightarrow> bool" where
  "malformed_digest_keys_are_rejected T path \<longleftrightarrow>
     list_all (\<lambda>digest.
         fails_with T (load T path (Inr (config_text ''127.0.0.1:8787'' ''/tmp/usage.jsonl'' [(digest, ''machine-a'')])))
           [''64-character lowercase hex SHA-256 digest''])
       malformed_digests"

definition blank_machine_ids_are_rejected :: "'e toml_lib \<Rightarrow> string \<Rightarrow> bool" where
  "blank_machine_ids_are_rejected T path \<longleftrightarrow>
     fails_with T (load T path (Inr (config_text ''127.0.0.1:8787'' ''/tmp/usage.jsonl''
       [(TEST_METER_KEY_DIGEST, ''   '')]))) [''machine id'']"

definition blank_usage_file_is_rejected :: "'e toml_lib \<Rightarrow> string \<Rightarrow> bool" where
  "blank_usage_file_is_rejected T path \<longleftrightarrow>
     fails_with T (load T path (Inr (config_text ''127.0.0.1:8787'' [] [(TEST_METER_KEY_DIGEST, ''machine-a'')])))
       [''usage_file'']"

section \<open>Command line\<close>

definition config_flag_and_default_path :: "bool \<Rightarrow> bool" where
  "config_flag_and_default_path f \<longleftrightarrow>
     parse_args f [] = Inr (Run DEFAULT_CONFIG_PATH) \<and>
     parse_args f [''--config'', ''/tmp/x.toml''] = Inr (Run ''/tmp/x.toml'') \<and>
     parse_args f [''--config=/tmp/y.toml''] = Inr (Run ''/tmp/y.toml'')"

definition summary_subcommand_shares_the_config_flag :: "bool \<Rightarrow> bool" where
  "summary_subcommand_shares_the_config_flag f \<longleftrightarrow>
     parse_args f [''summary''] = Inr (Summary DEFAULT_CONFIG_PATH) \<and>
     parse_args f [''summary'', ''--config'', ''/tmp/s.toml''] = Inr (Summary ''/tmp/s.toml'') \<and>
     parse_args f [''--config'', ''/tmp/s.toml'', ''summary''] = Inr (Summary ''/tmp/s.toml'')"

definition unknown_or_malformed_args_are_rejected :: "bool \<Rightarrow> bool" where
  "unknown_or_malformed_args_are_rejected f \<longleftrightarrow>
     parse_args f [''--bogus''] = Inl UnknownOption \<and> parse_args f [''bogus''] = Inl UnknownOption \<and>
     parse_args f [''--config''] = Inl MissingValue \<and> parse_args f [''--config=''] = Inl MissingValue"

definition help_requests_usage :: "bool \<Rightarrow> bool" where
  "help_requests_usage f \<longleftrightarrow> parse_args f [''-h''] = Inl Help \<and> parse_args f [''--help''] = Inl Help"

lemma command_line_tests_pass:
  "config_flag_and_default_path f" "summary_subcommand_shares_the_config_flag f"
  "unknown_or_malformed_args_are_rejected f" "help_requests_usage f"
proof -
  have "strip_prefix ''--config='' ''--bogus'' = None" "strip_prefix ''--config='' ''bogus'' = None" by code_simp+
  then show "unknown_or_malformed_args_are_rejected f"
    using parse_args_cases [of f "[]"] by (simp add: unknown_or_malformed_args_are_rejected_def parse_args_def)
  show "config_flag_and_default_path f" "summary_subcommand_shares_the_config_flag f" "help_requests_usage f"
    using parse_args_cases [of f "''/tmp/x.toml''"] parse_args_cases [of f "''/tmp/y.toml''"]
      parse_args_cases [of f "''/tmp/s.toml''"]
    by (simp_all add: config_flag_and_default_path_def summary_subcommand_shares_the_config_flag_def
        help_requests_usage_def parse_args_def)
qed

section \<open>What the TOML crate reads\<close>

text \<open>
  Documented behaviour on the texts of the tests: a configuration text without characters to escape is
  read as its parts, and the two malformed texts are refused.
\<close>

definition test_configs :: "(string \<times> string \<times> (string \<times> string) list) list" where
  "test_configs =
     [(''127.0.0.1:8787'', VALID_USAGE_FILE, [(TEST_METER_KEY_DIGEST, ''machine-a'')]),
      (''not-an-address'', ''/tmp/usage.jsonl'', [(''x'', ''machine-a'')]),
      (''127.0.0.1:8787'', ''/tmp/usage.jsonl'', []),
      (''127.0.0.1:8787'', ''/tmp/usage.jsonl'', [(TEST_METER_KEY_DIGEST, ''   '')]),
      (''127.0.0.1:8787'', [], [(TEST_METER_KEY_DIGEST, ''machine-a'')])] @
     map (\<lambda>d. (''127.0.0.1:8787'', ''/tmp/usage.jsonl'', [(d, ''machine-a'')])) malformed_digests"

definition toml_reads_tests :: "'e toml_lib \<Rightarrow> bool" where
  "toml_reads_tests T \<longleftrightarrow>
     list_all (\<lambda>(listen, usage_file, keys).
         toml_from_str T (config_text listen usage_file keys) =
           Inr \<lparr>raw_listen = listen, raw_usage_file = usage_file, raw_machine_keys = keys\<rparr>) test_configs \<and>
     isl (toml_from_str T malformed_text) \<and> isl (toml_from_str T unknown_field_text)"

lemma contains_front: "contains (p @ ys) p"
proof (cases "p @ ys")
  case (Cons c s)
  moreover have "prefix p (p @ ys)" by simp
  ultimately show ?thesis by (simp add: starts_with_iff)
qed simp

lemma contains_middle: "contains (xs @ p @ ys) p"
  by (induction xs) (simp_all add: contains_front)

lemma contains_trans [simp]: "contains ys p \<Longrightarrow> contains (xs @ ys) p"
  by (induction xs) simp_all

lemma test_listen: "parse_socket_addr ''127.0.0.1:8787'' = Some (V4 [127, 0, 0, 1] 8787)"
  "parse_socket_addr ''not-an-address'' = None"
proof -
  have "show_nat 127 = ''127''" "show_nat 0 = ''0''" "show_nat 1 = ''1''" by code_simp+
  moreover have "char_of (55 :: nat) = CHR ''7''" "char_of (56 :: nat) = CHR ''8''" by code_simp+
  then have "show_nat 8787 = ''8787''" by (simp add: show_nat.simps)
  ultimately show "parse_socket_addr ''127.0.0.1:8787'' = Some (V4 [127, 0, 0, 1] 8787)"
    using parse_show_v4 [of "[127, 0, 0, 1]" 8787] by (simp add: show_v4_def)
  have "to_digit 10 CHR ''n'' = None" by code_simp
  then have "read_octets 0 (Suc 3) ''not-an-address'' = None"
    by (simp only: read_octets.simps) (simp add: read_number_def read_separator_def)
  then show "parse_socket_addr ''not-an-address'' = None"
    by (simp add: parse_socket_addr_def read_socket_addr_v4_def read_ipv4_addr_def read_socket_addr_v6_def
        read_given_char_def)
qed

lemma test_digests: "is_digest_hex TEST_METER_KEY_DIGEST" "list_all (\<lambda>d. \<not> is_digest_hex d) malformed_digests"
  by code_simp+

lemma test_reads:
  assumes "toml_reads_tests T" and "(listen, usage_file, keys) \<in> set test_configs"
  shows "load T path (Inr (config_text listen usage_file keys)) =
    try_from \<lparr>raw_listen = listen, raw_usage_file = usage_file, raw_machine_keys = keys\<rparr> path"
  using assms by (auto simp: toml_reads_tests_def list_all_iff load_def)

lemma valid_test_passes: "toml_reads_tests T \<Longrightarrow> valid_config_loads T path"
proof -
  have "trim ''machine-a'' \<noteq> []" by code_simp
  then show "toml_reads_tests T \<Longrightarrow> valid_config_loads T path"
    by (simp add: valid_config_loads_def test_reads test_configs_def try_from_def test_listen test_digests
        VALID_USAGE_FILE_def bt_insert_def Let_def)
qed

lemma unreadable_tests_pass:
  assumes "toml_reads_tests T"
  shows "missing_config_file_is_a_useful_error T message" and "malformed_toml_is_a_useful_error T path"
    and "unknown_fields_are_rejected T path"
  using assms
  by (auto simp: missing_config_file_is_a_useful_error_def malformed_toml_is_a_useful_error_def
      unknown_fields_are_rejected_def toml_reads_tests_def fails_with_def load_def display_error_def isl_def
      starts_with_iff)

lemma validation_failure:
  fixes T :: "'e toml_lib"
  assumes "toml_reads_tests T" and "(listen, usage_file, keys) \<in> set test_configs" and "contains message part"
    and "try_from \<lparr>raw_listen = listen, raw_usage_file = usage_file, raw_machine_keys = keys\<rparr> path =
      (Inl \<lparr>error_kind = Validation path message\<rparr> :: 'e ConfigError + Config)"
  shows "fails_with T (load T path (Inr (config_text listen usage_file keys))) [part]"
  using assms(3) by (simp add: test_reads [OF assms(1,2)] assms(4) fails_with_def display_error_def)

lemma messages_name_field:
  "contains LISTEN_MESSAGE ''listen''" "contains NO_KEYS_MESSAGE ''machine_keys''"
  "contains DIGEST_MESSAGE ''64-character lowercase hex SHA-256 digest''"
  "contains MACHINE_ID_MESSAGE ''machine id''" "contains USAGE_FILE_MESSAGE ''usage_file''"
  by code_simp+

lemma invalid_tests_pass:
  assumes "toml_reads_tests T"
  shows "invalid_listen_address_is_rejected T path" and "empty_machine_keys_are_rejected T path"
    and "malformed_digest_keys_are_rejected T path" and "blank_machine_ids_are_rejected T path"
    and "blank_usage_file_is_rejected T path"
proof -
  note fails = validation_failure [OF assms _ messages_name_field(1)] validation_failure [OF assms _ messages_name_field(2)]
    validation_failure [OF assms _ messages_name_field(3)] validation_failure [OF assms _ messages_name_field(4)]
    validation_failure [OF assms _ messages_name_field(5)]
  have blank: "trim ''   '' = []" by code_simp
  note rules = try_from_def test_listen test_digests test_configs_def blank Let_def
  show "invalid_listen_address_is_rejected T path"
    unfolding invalid_listen_address_is_rejected_def by (rule fails(1)) (simp_all add: rules)
  show "empty_machine_keys_are_rejected T path"
    unfolding empty_machine_keys_are_rejected_def by (rule fails(2)) (simp_all add: rules)
  show "blank_machine_ids_are_rejected T path"
    unfolding blank_machine_ids_are_rejected_def by (rule fails(4)) (simp_all add: rules)
  show "blank_usage_file_is_rejected T path"
    unfolding blank_usage_file_is_rejected_def by (rule fails(5)) (simp_all add: rules)
  have "fails_with T (load T path (Inr (config_text ''127.0.0.1:8787'' ''/tmp/usage.jsonl'' [(d, ''machine-a'')])))
      [''64-character lowercase hex SHA-256 digest'']" if "d \<in> set malformed_digests" for d
    using that test_digests(2) by (intro fails(3)) (simp_all add: rules list_all_iff)
  then show "malformed_digest_keys_are_rejected T path"
    by (simp add: malformed_digest_keys_are_rejected_def list_all_iff)
qed

section \<open>Properties\<close>

text \<open>
  The program's own unit tests hold of the model: every assertion of the configuration tests, on the
  texts they write and wherever the file lies, and every assertion of the command line tests, with and
  without the test feature.
\<close>

lemma unit_tests_pass:
  assumes "toml_reads_tests T"
  shows "valid_config_loads T path \<and> missing_config_file_is_a_useful_error T message \<and>
    malformed_toml_is_a_useful_error T path \<and> unknown_fields_are_rejected T path \<and>
    invalid_listen_address_is_rejected T path \<and> empty_machine_keys_are_rejected T path \<and>
    malformed_digest_keys_are_rejected T path \<and> blank_machine_ids_are_rejected T path \<and>
    blank_usage_file_is_rejected T path \<and>
    config_flag_and_default_path f \<and> summary_subcommand_shares_the_config_flag f \<and>
    unknown_or_malformed_args_are_rejected f \<and> help_requests_usage f"
  using valid_test_passes [OF assms] unreadable_tests_pass [OF assms] invalid_tests_pass [OF assms]
    command_line_tests_pass by blast

text \<open>A TOML crate that knows the texts of the tests, for the witness.\<close>

definition test_toml :: "unit toml_lib" where
  "test_toml =
     \<lparr>toml_from_str = (\<lambda>s.
        case find (\<lambda>(listen, usage_file, keys). config_text listen usage_file keys = s) test_configs of
          Some (listen, usage_file, keys) \<Rightarrow>
            Inr \<lparr>raw_listen = listen, raw_usage_file = usage_file, raw_machine_keys = keys\<rparr>
        | None \<Rightarrow> Inl ()),
      toml_message = (\<lambda>_. ''TOML parse error'')\<rparr>"

lemma test_toml_reads: "toml_reads_tests test_toml"
  by code_simp

lemma unit_tests_pass_witness:
  "malformed_digest_keys_are_rejected test_toml ''/tmp/config.toml'' \<and>
   valid_config_loads test_toml ''/tmp/config.toml''"
  using unit_tests_pass [OF test_toml_reads, of "''/tmp/config.toml''" "[]" True] by simp

end
