(* ===== verification/Audit_Json.thy ===== *)
theory Audit_Json
  imports Libraries
begin

text \<open>
  The shape of an audit line: what the derived serialisation of the types in \<^verbatim>\<open>src/src/usage.rs\<close>
  makes of a record, as a tree of JSON values. Structs become objects with their fields in the order of
  declaration, the variants of the enumerations become their snake-case names, an absent option becomes
  null and numbers stay numbers. The text of the tree is the JSON crate's and is not modelled; that a
  parsed value has the shape of a tree is the predicate \<open>represents\<close>.
\<close>

section \<open>JSON trees\<close>

datatype jvalue =
    JNull
  | JNum u64
  | JStr string
  | JObj "(string \<times> jvalue) list"

text \<open>A parsed value, seen through the accessors of the crate, has the shape of a tree.\<close>

fun represents :: "'v json_lib \<Rightarrow> 'v \<Rightarrow> jvalue \<Rightarrow> bool" where
  "represents J v JNull \<longleftrightarrow> json_is_null J v"
| "represents J v (JNum n) \<longleftrightarrow> \<not> json_is_null J v \<and> json_as_u64 J v = Some n"
| "represents J v (JStr s) \<longleftrightarrow> \<not> json_is_null J v \<and> json_as_str J v = Some s"
| "represents J v (JObj fs) \<longleftrightarrow> \<not> json_is_null J v \<and> json_is_object J v \<and>
     (\<forall>kj \<in> set fs. \<exists>x. json_get J v (fst kj) = Some x \<and> represents J x (snd kj)) \<and>
     (\<forall>k. k \<notin> fst ` set fs \<longrightarrow> json_get J v k = None)"

lemma represents_field:
  assumes "represents J v (JObj fs)" and "(k, j) \<in> set fs"
  obtains x where "json_get J v k = Some x" and "represents J x j"
  using assms by fastforce

section \<open>The derived serialisation\<close>

definition operation_value :: "Operation \<Rightarrow> jvalue" where
  "operation_value x = JStr (case x of Response \<Rightarrow> ''response'' | Compaction \<Rightarrow> ''compaction'')"

definition outcome_value :: "Outcome \<Rightarrow> jvalue" where
  "outcome_value x = JStr (case x of
       Completed \<Rightarrow> ''completed''
     | Incomplete \<Rightarrow> ''incomplete''
     | UpstreamError \<Rightarrow> ''upstream_error''
     | TransportError \<Rightarrow> ''transport_error''
     | UpstreamInterrupted \<Rightarrow> ''upstream_interrupted''
     | ClientCancelled \<Rightarrow> ''client_cancelled'')"

definition quality_value :: "AccountingQuality \<Rightarrow> jvalue" where
  "quality_value x = JStr (case x of
       Complete \<Rightarrow> ''complete''
     | Partial \<Rightarrow> ''partial''
     | Inconsistent \<Rightarrow> ''inconsistent''
     | Unavailable \<Rightarrow> ''unavailable'')"

definition metering_error_value :: "MeteringError \<Rightarrow> jvalue" where
  "metering_error_value x = JStr (case x of
       MissingUsage \<Rightarrow> ''missing_usage''
     | MalformedUsage \<Rightarrow> ''malformed_usage''
     | EventTooLarge \<Rightarrow> ''event_too_large'')"

definition option_value :: "('a \<Rightarrow> jvalue) \<Rightarrow> 'a option \<Rightarrow> jvalue" where
  "option_value f x = (case x of None \<Rightarrow> JNull | Some y \<Rightarrow> f y)"

definition usage_value :: "Usage \<Rightarrow> jvalue" where
  "usage_value u =
     JObj [(''input_total'', option_value JNum (input_total u)),
           (''uncached'', option_value JNum (uncached u)),
           (''cache_read'', option_value JNum (cache_read u)),
           (''cache_write'', option_value JNum (cache_write u)),
           (''output_total'', option_value JNum (output_total u)),
           (''reasoning'', option_value JNum (reasoning u)),
           (''total'', option_value JNum (total u))]"

definition record_value :: "AuditRecord \<Rightarrow> jvalue" where
  "record_value r =
     JObj [(''schema_version'', JNum (ucast (schema_version r))),
           (''kind'', JStr (kind r)),
           (''event_id'', JStr (event_id r)),
           (''timestamp'', JStr (timestamp r)),
           (''machine_id'', JStr (machine_id r)),
           (''operation'', operation_value (operation r)),
           (''upstream_status'', option_value (\<lambda>s. JNum (ucast s)) (upstream_status r)),
           (''outcome'', outcome_value (outcome r)),
           (''model'', option_value JStr (model r)),
           (''accounting_quality'', quality_value (accounting_quality r)),
           (''metering_error'', option_value metering_error_value (metering_error r)),
           (''reasoning_effort'', option_value JStr (reasoning_effort r)),
           (''usage'', option_value usage_value (usage r))]"

section \<open>The documented schema\<close>

text \<open>The types of the schema table in \<^verbatim>\<open>docs/DESIGN.md\<close> section 5.\<close>

datatype jtype =
    TNum nat \<comment> \<open>a number below \<open>2 ^ n\<close>\<close>
  | TText
  | TOne u64 \<comment> \<open>one fixed number\<close>
  | TEnum "string list"
  | TNullable jtype
  | TObj "(string \<times> jtype) list" \<comment> \<open>exactly these fields, in this order\<close>

fun conforms :: "jtype \<Rightarrow> jvalue \<Rightarrow> bool"
  and conform_fields :: "(string \<times> jtype) list \<Rightarrow> (string \<times> jvalue) list \<Rightarrow> bool" where
  "conforms (TNum n) j = (case j of JNum k \<Rightarrow> unat k < 2 ^ n | _ \<Rightarrow> False)"
| "conforms TText j = (case j of JStr _ \<Rightarrow> True | _ \<Rightarrow> False)"
| "conforms (TOne n) j = (j = JNum n)"
| "conforms (TEnum ss) j = (case j of JStr s \<Rightarrow> List.member ss s | _ \<Rightarrow> False)"
| "conforms (TNullable t) j = (j = JNull \<or> conforms t j)"
| "conforms (TObj ts) j = (case j of JObj fs \<Rightarrow> conform_fields ts fs | _ \<Rightarrow> False)"
| "conform_fields [] fs = (fs = [])"
| "conform_fields ((k, t) # ts) fs =
     (case fs of (k', j) # rest \<Rightarrow> k = k' \<and> conforms t j \<and> conform_fields ts rest | [] \<Rightarrow> False)"

definition audit_schema :: jtype where
  "audit_schema =
     TObj [(''schema_version'', TOne 1), (''kind'', TEnum [''request'']),
           (''event_id'', TText), (''timestamp'', TText), (''machine_id'', TText),
           (''operation'', TEnum [''response'', ''compaction'']),
           (''upstream_status'', TNullable (TNum 16)),
           (''outcome'', TEnum [''completed'', ''incomplete'', ''upstream_error'', ''transport_error'',
              ''upstream_interrupted'', ''client_cancelled'']),
           (''model'', TNullable TText),
           (''accounting_quality'', TEnum [''complete'', ''partial'', ''inconsistent'', ''unavailable'']),
           (''metering_error'', TNullable (TEnum [''missing_usage'', ''malformed_usage'', ''event_too_large''])),
           (''reasoning_effort'', TNullable TText),
           (''usage'', TNullable (TObj
              (map (\<lambda>k. (k, TNullable (TNum 64)))
                [''input_total'', ''uncached'', ''cache_read'', ''cache_write'', ''output_total'',
                 ''reasoning'', ''total''])))]"

section \<open>Lemmas\<close>

lemma value_inj [simp]:
  "operation_value a = operation_value b \<longleftrightarrow> a = b"
  "outcome_value c = outcome_value d \<longleftrightarrow> c = d"
  "quality_value e = quality_value f \<longleftrightarrow> e = f"
  "metering_error_value g = metering_error_value h \<longleftrightarrow> g = h"
  by (simp_all add: operation_value_def outcome_value_def quality_value_def metering_error_value_def
      split: Operation.splits Outcome.splits AccountingQuality.splits MeteringError.splits)

lemma metering_error_value_not_null [simp]: "metering_error_value x \<noteq> JNull"
  by (simp add: metering_error_value_def)

lemma usage_value_not_null [simp]: "usage_value u \<noteq> JNull"
  by (simp add: usage_value_def)

lemma option_value_inj:
  assumes "\<And>a b. f a = f b \<longleftrightarrow> a = b" and "\<And>a. f a \<noteq> JNull"
  shows "option_value f x = option_value f y \<longleftrightarrow> x = y"
  using assms by (cases x; cases y) (simp_all add: option_value_def, metis)

lemma unat_ucast_up:
  "unat (ucast (a :: u8) :: u64) = unat a" "unat (ucast (b :: u16) :: u64) = unat b"
  using unsigned_less [of a, where ?'a = nat] unsigned_less [of b, where ?'a = nat]
  by (simp_all add: unsigned_ucast_eq take_bit_nat_eq_self)

lemma ucast_inj_up [simp]:
  "(ucast (a :: u8) :: u64) = ucast b \<longleftrightarrow> a = b" "(ucast (c :: u16) :: u64) = ucast d \<longleftrightarrow> c = d"
  by (metis unat_ucast_up word_unat_eq_iff)+

lemmas option_values_inj [simp] =
  option_value_inj [of JNum, OF jvalue.inject(1) jvalue.distinct(2)]
  option_value_inj [of JStr, OF jvalue.inject(2) jvalue.distinct(4)]
  option_value_inj [of metering_error_value, OF value_inj(4) metering_error_value_not_null]

lemma usage_value_inj [simp]: "usage_value u = usage_value v \<longleftrightarrow> u = v"
  by (cases u; cases v) (simp add: usage_value_def)

lemma status_value_inj [simp]:
  "option_value (\<lambda>s :: u16. JNum (ucast s)) x = option_value (\<lambda>s. JNum (ucast s)) y \<longleftrightarrow> x = y"
  by (rule option_value_inj) simp_all

lemma record_value_inj: "record_value r = record_value q \<longleftrightarrow> r = q"
  by (cases r; cases q)
    (simp add: record_value_def option_value_inj [of usage_value, OF usage_value_inj usage_value_not_null])

lemma conforms_option:
  "(\<And>x. conforms t (f x)) \<Longrightarrow> conforms (TNullable t) (option_value f y)"
  by (simp add: option_value_def split: option.splits)

lemma conforms_enums [simp]:
  "conforms (TEnum [''response'', ''compaction'']) (operation_value a)"
  "conforms (TEnum [''completed'', ''incomplete'', ''upstream_error'', ''transport_error'',
     ''upstream_interrupted'', ''client_cancelled'']) (outcome_value b)"
  "conforms (TEnum [''complete'', ''partial'', ''inconsistent'', ''unavailable'']) (quality_value c)"
  "conforms (TEnum [''missing_usage'', ''malformed_usage'', ''event_too_large'']) (metering_error_value d)"
  by (simp_all add: operation_value_def outcome_value_def quality_value_def metering_error_value_def
      split: Operation.splits Outcome.splits AccountingQuality.splits MeteringError.splits)

lemma conforms_text [simp]: "conforms TText (JStr s)"
  by simp

lemma conforms_number [simp]: "conforms (TNum 64) (JNum n)" "conforms (TNum 16) (JNum (ucast (s :: u16)))"
  using unsigned_less [of n, where ?'a = nat] unsigned_less [of s, where ?'a = nat]
  by (simp_all add: unat_ucast_up)

lemmas conforms_options =
  conforms_option [of "TNum 64" JNum, OF conforms_number(1)]
  conforms_option [of "TNum 16" "\<lambda>s :: u16. JNum (ucast s)", OF conforms_number(2)]
  conforms_option [of TText JStr, OF conforms_text]
  conforms_option [of _ metering_error_value, OF conforms_enums(4)]

lemma conforms_usage:
  "conforms (TObj (map (\<lambda>k. (k, TNullable (TNum 64)))
     [''input_total'', ''uncached'', ''cache_read'', ''cache_write'', ''output_total'',
      ''reasoning'', ''total''])) (usage_value u)"
  by (simp add: usage_value_def conforms_options del: conforms.simps(1,5))

lemma conforms_record: "conforms audit_schema (record_value r) \<longleftrightarrow> canonical r"
proof -
  have one: "ucast (schema_version r) = (1 :: u64) \<longleftrightarrow> schema_version r = 1"
    using ucast_inj_up(1) [of "schema_version r" 1] by simp
  have kinds: "conforms (TEnum [''request'']) (JStr k) \<longleftrightarrow> k = ''request''" for k by simp
  show ?thesis
    unfolding audit_schema_def record_value_def conforms.simps(6) jvalue.case conform_fields.simps
      list.case prod.case conforms.simps(3) jvalue.inject one kinds
    using conforms_enums(1-3) conforms_options conforms_text conforms_option [of _ usage_value, OF conforms_usage]
    by (simp add: canonical_def SCHEMA_VERSION_def KIND_def del: conforms.simps)
qed

text \<open>A value library whose values are the trees themselves, over any parser.\<close>

definition tree_get :: "jvalue \<Rightarrow> string \<Rightarrow> jvalue option" where
  "tree_get v k = (case v of JObj fs \<Rightarrow> map_of fs k | _ \<Rightarrow> None)"

definition tree_json :: "(string \<Rightarrow> jvalue option) \<Rightarrow> jvalue json_lib" where
  "tree_json parse =
     \<lparr>json_from_slice = parse, json_from_str = parse, json_get = tree_get,
      json_as_str = (\<lambda>v. case v of JStr s \<Rightarrow> Some s | _ \<Rightarrow> None),
      json_as_u64 = (\<lambda>v. case v of JNum n \<Rightarrow> Some n | _ \<Rightarrow> None),
      json_as_object = (\<lambda>v. case v of JObj fs \<Rightarrow> Some fs | _ \<Rightarrow> None),
      json_is_object = (\<lambda>v. case v of JObj _ \<Rightarrow> True | _ \<Rightarrow> False),
      json_is_null = (\<lambda>v. v = JNull)\<rparr>"


lemma tree_json_ok: "json_lib_ok (tree_json parse)"
  by (auto simp: json_lib_ok_def tree_json_def tree_get_def split: jvalue.splits)

fun distinct_keys :: "jvalue \<Rightarrow> bool" where
  "distinct_keys (JObj fs) \<longleftrightarrow> distinct (map fst fs) \<and> (\<forall>kj \<in> set fs. distinct_keys (snd kj))"
| "distinct_keys _ \<longleftrightarrow> True"

lemma represents_tree: "distinct_keys j \<Longrightarrow> represents (tree_json parse) j j"
proof (induction j)
  case (JObj fs)
  have "\<exists>x. tree_get (JObj fs) (fst kj) = Some x \<and> represents (tree_json parse) x (snd kj)"
    if "kj \<in> set fs" for kj
    using that JObj.prems JObj.IH [OF that, of "snd kj"] by (cases kj) (auto simp: tree_get_def snds.simps)
  then show ?case by (auto simp: tree_json_def tree_get_def map_of_eq_None_iff)
qed (simp_all add: tree_json_def)

lemma distinct_keys_record: "distinct_keys (record_value r)"
  by (simp add: record_value_def operation_value_def outcome_value_def quality_value_def
      metering_error_value_def usage_value_def option_value_def split: option.splits)

section \<open>Properties\<close>

text \<open>
  (C23) The audit line keeps to the documented schema: the JSON tree of a record is an object with
  exactly the documented fields in their documented order, each of its documented type, if and only if
  the record is canonical, and no two records have the same tree, so nothing of a record is lost.
\<close>

theorem audit_line_schema:
  "(conforms audit_schema (record_value r) \<longleftrightarrow> canonical r) \<and>
   (record_value r = record_value q \<longleftrightarrow> r = q)"
  by (simp add: conforms_record record_value_inj)

end
