(* ===== verification/Usage_File.thy ===== *)
theory Usage_File
  imports Audit_Writer Summary Audit_Json
begin

text \<open>
  The usage file between its writer and its readers: what appending the line of a record does to the
  records a reader finds, and the documented behaviour of the JSON crate on such a line.
\<close>

section \<open>Records of a file that grows by lines\<close>

lemma file_records_terminated:
  assumes "content = [] \<or> last content = CHR 0x0A" and "CHR 0x0A \<notin> set t"
  shows "file_records C (content @ t @ [CHR 0x0A]) =
    file_records C content @
      filter canonical (List.map_filter (\<lambda>p. record_from_slice C (strip_cr p)) [t])"
proof -
  obtain ps where ps: "split_on (CHR 0x0A) content = ps @ [[]]"
    and pst: "split_on (CHR 0x0A) (content @ t) = ps @ [t]"
    using pieces_of_terminated [OF assms(1)] assms(2) by metis
  have "split_on (CHR 0x0A) (content @ t @ [CHR 0x0A]) = ps @ [t] @ [[]]"
    using split_on_append_sep [of "CHR 0x0A" "content @ t" "[]"] pst by simp
  then have "pieces (content @ t @ [CHR 0x0A]) = ps @ [t]" "pieces content = ps"
    by (simp_all add: pieces_def ps Let_def butlast_append)
  then show ?thesis by (simp add: file_records_def map_filter_append)
qed

lemma file_records_line:
  assumes "content = [] \<or> last content = CHR 0x0A" and "codec_ok C R" and "r \<in> R"
  shows "file_records C (content @ line_of C r) = file_records C content @ filter canonical [r]"
    and "last (content @ line_of C r) = CHR 0x0A"
proof -
  from assms(2,3) obtain line where line: "record_to_vec C r = Some line"
      "record_from_slice C line = Some r" "CHR 0x0A \<notin> set line" "line \<noteq> []" "last line \<noteq> CHR 0x0D"
    by (auto simp: codec_ok_def)
  then have "strip_cr line = line"
    by (auto simp: strip_cr_def strip_suffix_Some_iff split: option.splits)
  with line file_records_terminated [OF assms(1) line(3), of C]
  show "file_records C (content @ line_of C r) = file_records C content @ filter canonical [r]"
    and "last (content @ line_of C r) = CHR 0x0A"
    by (simp_all add: line_of_def List.map_filter_def)
qed

lemma file_records_lines:
  assumes "content = [] \<or> last content = CHR 0x0A" and "codec_ok C (set rs)"
  shows "file_records C (content @ concat (map (line_of C) rs)) =
    file_records C content @ filter canonical rs"
  using assms
proof (induction rs arbitrary: content)
  case Nil
  then show ?case by simp
next
  case (Cons r rs)
  have "codec_ok C (set rs)" using Cons.prems(2) by (simp add: codec_ok_def)
  with Cons.IH [of "content @ line_of C r"] file_records_line [OF Cons.prems(1,2), of r]
  show ?case by simp
qed

lemma all_written:
  "list_all (\<lambda>(r, res). res = WroteAll) ts \<Longrightarrow>
     concat (map (bytes_of C) ts) = concat (map (line_of C) (map fst ts))"
  by (induction ts) (auto simp: bytes_of_def)

section \<open>The line of a record as JSON text\<close>

text \<open>
  Documented behaviour of the JSON crate on the line of a record: compact output is an object on one
  line of UTF-8 text, reading it at the type of the record gives the record back, and reading it as a value gives
  the value of the derived serialisation.
\<close>

definition line_ok :: "'v json_lib \<Rightarrow> record_codec \<Rightarrow> AuditRecord \<Rightarrow> bool" where
  "line_ok J K r \<longleftrightarrow>
     (\<exists>line v. record_to_vec K r = Some line \<and> record_from_slice K line = Some r \<and>
        CHR 0x0A \<notin> set line \<and> utf8_valid line \<and> prefix ''{'' line \<and> suffix ''}'' line \<and>
        json_from_str J line = Some v \<and> represents J v (record_value r))"

lemma line_ok_codec: "list_all (line_ok J K) rs \<Longrightarrow> codec_ok K (set rs)"
  by (fastforce simp: list_all_iff line_ok_def codec_ok_def prefix_def suffix_def)

lemma object_trim:
  assumes "prefix ''{'' l" and "suffix ''}'' l"
  shows "trim l = l"
proof (rule trim_noop)
  fix w assume "w \<in> set ws_encodings"
  then have "hd w \<noteq> CHR ''{''" "last w \<noteq> CHR ''}''" "w \<noteq> []"
    by (auto simp: ws_encodings_def)
  moreover have "hd w = hd l" if "prefix w l" using that \<open>w \<noteq> []\<close> by (auto simp: prefix_def)
  moreover have "last w = last l" if "suffix w l" using that \<open>w \<noteq> []\<close> by (auto simp: suffix_def)
  moreover have "hd l = CHR ''{''" using assms(1) by (auto simp: prefix_def)
  moreover have "last l = CHR ''}''" using assms(2) by (auto simp: suffix_def)
  ultimately show "\<not> prefix w l \<and> \<not> suffix w l" by metis
qed

end
