(* ===== verification/Smoke_Audit.thy ===== *)
theory Smoke_Audit
  imports Smoke_Run Usage_File
begin

text \<open>
  The load smoke's audit counter against the summary: \<open>count_audit\<close> of \<^verbatim>\<open>src/src/smoke.rs\<close> reads the
  usage file as loose JSON values, \<open>read_usage_file\<close> of \<^verbatim>\<open>src/src/summary.rs\<close> as typed records.
\<close>

lemma count_line_record:
  assumes "line_ok J K r" and "record_to_vec K r = Some line"
  shows "count_line J (a, m) line =
    (if canonical r then (a + 1, m + of_bool (is_metered r)) else (a, m))"
proof -
  from assms obtain v where l: "prefix ''{'' line" "suffix ''}'' line" "json_from_str J line = Some v"
      "represents J v (record_value r)"
    by (auto simp: line_ok_def)
  note field = represents_field [OF l(4) [unfolded record_value_def]]
  obtain x where x: "json_get J v ''schema_version'' = Some x"
      "represents J x (JNum (ucast (schema_version r)))"
    by (rule field [of "''schema_version''" "JNum (ucast (schema_version r))"]) simp_all
  obtain y where y: "json_get J v ''kind'' = Some y" "represents J y (JStr (kind r))"
    by (rule field [of "''kind''" "JStr (kind r)"]) simp_all
  obtain z where z: "json_get J v ''usage'' = Some z" "represents J z (option_value usage_value (usage r))"
    by (rule field [of "''usage''" "option_value usage_value (usage r)"]) simp_all
  have "json_is_null J z \<longleftrightarrow> \<not> is_metered r"
    using z(2) by (auto simp: option_value_def usage_value_def is_metered_def split: option.splits)
  moreover have "json_as_u64 J x = Some 1 \<longleftrightarrow> schema_version r = 1"
    using x(2) ucast_inj_up(1) [of "schema_version r" 1] by simp
  moreover have "line \<noteq> []" using l(1) by auto
  ultimately show ?thesis
    using x(1) y z(1) l(3) object_trim [OF l(1,2)]
    by (auto simp: count_line_def canonical_def SCHEMA_VERSION_def KIND_def Let_def)
qed

definition json_line :: "record_codec \<Rightarrow> AuditRecord \<Rightarrow> bytes" where
  "json_line K r = the (record_to_vec K r)"

lemma line_ok_line:
  assumes "line_ok J K r"
  shows "record_to_vec K r = Some (json_line K r)" and "line_of K r = json_line K r @ [CHR 0x0A]"
    and "CHR 0x0A \<notin> set (json_line K r)" and "strip_suffix [CHR 0x0D] (json_line K r) = None"
proof -
  from assms obtain line where l: "record_to_vec K r = Some line" "CHR 0x0A \<notin> set line" "suffix ''}'' line"
    by (auto simp: line_ok_def)
  have "strip_suffix [CHR 0x0D] line = None"
    using l(3) by (auto simp: suffix_def strip_suffix_def)
  with l show "record_to_vec K r = Some (json_line K r)" "line_of K r = json_line K r @ [CHR 0x0A]"
    "CHR 0x0A \<notin> set (json_line K r)" "strip_suffix [CHR 0x0D] (json_line K r) = None"
    by (simp_all add: json_line_def line_of_def)
qed

lemma split_record_lines:
  assumes "list_all (line_ok J K) rs" and "CHR 0x0A \<notin> set t"
  shows "split_on (CHR 0x0A) (concat (map (line_of K) rs) @ t) = map (json_line K) rs @ [t]"
  using assms(1)
proof (induction rs)
  case (Cons r rs)
  then show ?case
    using split_on_sep [of "CHR 0x0A" "json_line K r" "concat (map (line_of K) rs) @ t"]
    by (simp add: line_ok_line [of J])
qed (simp add: assms(2))

lemma lines_record_lines:
  assumes "list_all (line_ok J K) rs" and "CHR 0x0A \<notin> set t"
  shows "lines (concat (map (line_of K) rs) @ t) = map (json_line K) rs @ (if t = [] then [] else [t])"
  using assms(1) unfolding lines_def split_record_lines [OF assms] Let_def
  by (simp add: list_all_iff line_ok_line(4) [of J] cong: map_cong)

lemma count_lines_records:
  assumes "list_all (line_ok J K) rs"
  shows "foldl (count_line J) (a, m) (map (json_line K) rs) =
    (a + of_nat (length (filter canonical rs)),
     m + of_nat (length (filter is_metered (filter canonical rs))))"
  using assms
proof (induction rs arbitrary: a m)
  case (Cons r rs)
  then have r: "line_ok J K r" and rs: "list_all (line_ok J K) rs" by simp_all
  have "count_line J (a, m) (json_line K r) =
      (if canonical r then (a + 1, m + of_bool (is_metered r)) else (a, m))"
    by (rule count_line_record [OF r line_ok_line(1) [OF r]])
  with Cons.IH [OF rs] show ?case by simp
qed simp

lemma file_records_record_lines:
  assumes "list_all (line_ok J K) rs" and "CHR 0x0A \<notin> set t"
    and "t = [] \<or> record_from_slice K (strip_cr t) = None"
  shows "file_records K (concat (map (line_of K) rs) @ t) = filter canonical rs"
proof -
  have "List.map_filter (\<lambda>p. record_from_slice K (strip_cr p)) (map (json_line K) rs) = rs"
    using assms(1)
  proof (induction rs)
    case (Cons r rs)
    then have "record_from_slice K (strip_cr (json_line K r)) = Some r"
      using line_ok_line [of J K r] by (auto simp: line_ok_def strip_cr_def)
    with Cons show ?case by (simp add: List.map_filter_def)
  qed (simp add: List.map_filter_def)
  with assms(3) show ?thesis
    unfolding file_records_def pieces_def split_record_lines [OF assms(1,2)] Let_def
    by (auto simp: map_filter_append List.map_filter_def)
qed

lemma record_lines_utf8:
  assumes "list_all (line_ok J K) rs"
  shows "utf8_valid (concat (map (line_of K) rs) @ t) = utf8_valid t"
  using assms
proof (induction rs)
  case (Cons r rs)
  then obtain line where l: "record_to_vec K r = Some line" "utf8_valid line" by (auto simp: line_ok_def)
  have "utf8_valid [CHR 0x0A]" by code_simp
  then have "utf8_valid (line_of K r)" using l by (simp add: line_of_def utf8_valid_append)
  with Cons show ?case by (simp add: utf8_valid_append)
qed simp

section \<open>Properties\<close>

text \<open>
  (C28) The smoke test's reconciliation and the operator's summary: on a usage file of complete audit
  lines, also with an unfinished line at its end that is no JSON text, the loose counter of the smoke
  test finds exactly the accepted and metered lifecycles that the summary reports, as long as the file
  is UTF-8 text. An unfinished line that was torn inside a character makes it fail with an error, while
  the summary reads the same records.
\<close>

theorem smoke_count_agrees_with_summary:
  assumes "list_all (line_ok J K) rs" and "CHR 0x0A \<notin> set t"
    and "t = [] \<or> json_from_str J (trim t) = None \<and> record_from_slice K (strip_cr t) = None"
  shows "let file = concat (map (line_of K) rs) @ t in
    \<exists>st. read_usage_file K path (Inr (file, None)) = Inr st \<and>
      cov_accepted (coverage st) = of_nat (length (filter canonical rs)) \<and>
      count_audit J path (Inr file) =
        (if utf8_valid t then Inr (cov_accepted (coverage st), cov_metered (coverage st))
         else Inl (''cannot read audit file '' @ path @ '': stream did not contain valid UTF-8''))"
proof -
  let ?file = "concat (map (line_of K) rs) @ t"
  obtain st where st: "read_usage_file K path (Inr (?file, None)) = Inr st"
      "cov_accepted (coverage st) = of_nat (length (file_records K ?file))"
      "cov_metered (coverage st) = of_nat (length (filter is_metered (file_records K ?file)))"
    by (rule read_usage_file_ok [of K path ?file])
  have tail: "foldl (count_line J) tally (if t = [] then [] else [t]) = tally" for tally
    using assms(3) by (cases tally) (auto simp: count_line_def Let_def)
  have "count_audit J path (Inr ?file) = (if utf8_valid t
      then Inr (of_nat (length (filter canonical rs)), of_nat (length (filter is_metered (filter canonical rs))))
      else Inl (''cannot read audit file '' @ path @ '': stream did not contain valid UTF-8''))"
    using lines_record_lines [OF assms(1,2)]
    by (simp add: count_audit_def read_to_string_def record_lines_utf8 [OF assms(1)]
        count_lines_records [OF assms(1)] tail del: filter_filter)
  moreover have "file_records K ?file = filter canonical rs"
    using assms(3) by (intro file_records_record_lines [OF assms(1,2)]) auto
  ultimately show ?thesis using st by (simp add: Let_def del: filter_filter)
qed

definition one_line_codec :: "AuditRecord \<Rightarrow> record_codec" where
  "one_line_codec r =
     \<lparr>record_to_vec = (\<lambda>_. Some ''{}''), record_from_slice = (\<lambda>l. if l = ''{}'' then Some r else None)\<rparr>"

definition one_line_json :: "AuditRecord \<Rightarrow> jvalue json_lib" where
  "one_line_json r = tree_json (\<lambda>l. if l = ''{}'' then Some (record_value r) else None)"

lemma one_line_ok: "line_ok (one_line_json r) (one_line_codec r) r"
proof -
  have "represents (one_line_json r) (record_value r) (record_value r)"
    unfolding one_line_json_def by (rule represents_tree [OF distinct_keys_record])
  moreover have "utf8_valid ''{}''" by code_simp
  ultimately show ?thesis
    by (simp add: line_ok_def one_line_codec_def, simp add: one_line_json_def tree_json_def suffix_def)
qed

text \<open>An unfinished line that is text, and one torn after the first byte of a character.\<close>

theorem smoke_count_agrees_with_summary_witness:
  "let r = AuditRecord_new ''e'' ''t'' ''m'' Response; K = one_line_codec r in
   (\<exists>st. read_usage_file K ''f'' (Inr (line_of K r @ ''{'', None)) = Inr st \<and>
     count_audit (one_line_json r) ''f'' (Inr (line_of K r @ ''{'')) =
       Inr (cov_accepted (coverage st), cov_metered (coverage st))) \<and>
   (\<exists>st. read_usage_file K ''f'' (Inr (line_of K r @ [CHR 0xC3], None)) = Inr st \<and>
     cov_accepted (coverage st) = 1 \<and> isl (count_audit (one_line_json r) ''f'' (Inr (line_of K r @ [CHR 0xC3]))))"
proof -
  let ?r = "AuditRecord_new ''e'' ''t'' ''m'' Response"
  have t: "trim ''{'' = ''{''" "strip_cr ''{'' = ''{''" "trim [CHR 0xC3] = [CHR 0xC3]" "strip_cr [CHR 0xC3] = [CHR 0xC3]"
      "utf8_valid ''{''" "\<not> utf8_valid [CHR 0xC3]" "canonical ?r"
    by code_simp+
  note agree = smoke_count_agrees_with_summary [of "one_line_json ?r" "one_line_codec ?r" "[?r]" _ "''f''"]
  have lib: "json_from_str (one_line_json ?r) ''{'' = None" "record_from_slice (one_line_codec ?r) ''{'' = None"
      "json_from_str (one_line_json ?r) [CHR 0xC3] = None" "record_from_slice (one_line_codec ?r) [CHR 0xC3] = None"
    by (simp_all add: one_line_json_def one_line_codec_def tree_json_def)
  show ?thesis
    unfolding Let_def
    using agree [of "''{''"] agree [of "[CHR 0xC3]"] one_line_ok [of ?r] t lib by (auto simp: Let_def)
qed

end
