(* ===== verification/Smoke_Setup.thy ===== *)
theory Smoke_Setup
  imports Smoke_Audit Config
begin

text \<open>
  The load smoke's mock upstream against the gateway it serves: the texts of its response, its routes,
  and the proof that the gateway's observer meters that response in full. The crates enter through their
  documented behaviour on the texts at hand.
\<close>

section \<open>JSON and event-stream texts\<close>

text \<open>The compact JSON text of a tree whose strings need no escapes.\<close>

definition quoted :: "string \<Rightarrow> string" where
  "quoted s = CHR 0x22 # s @ [CHR 0x22]"

fun jtext :: "jvalue \<Rightarrow> string"
  and jfields :: "(string \<times> jvalue) list \<Rightarrow> string" where
  "jtext JNull = ''null''"
| "jtext (JNum n) = show_u64 n"
| "jtext (JStr s) = quoted s"
| "jtext (JObj fs) = ''{'' @ jfields fs @ ''}''"
| "jfields [] = []"
| "jfields ((k, j) # fs) = quoted k @ '':'' @ jtext j @ (if fs = [] then [] else '','' @ jfields fs)"

text \<open>One event of an event stream, with an optional name.\<close>

definition frame_text :: "string option \<times> string \<Rightarrow> string" where
  "frame_text f =
     (case fst f of None \<Rightarrow> [] | Some name \<Rightarrow> ''event: '' @ name @ LF) @ ''data: '' @ snd f @ LF @ LF"

text \<open>
  Documented behaviour of the crates on one text: the JSON text of a tree is read as a value of its
  shape, and a body made of frames is read as their data.
\<close>

definition json_reads :: "'v json_lib \<Rightarrow> jvalue \<Rightarrow> bool" where
  "json_reads J j \<longleftrightarrow> (\<exists>v. json_from_str J (jtext j) = Some v \<and> represents J v j)"

definition frames_read :: "sse_lib \<Rightarrow> (string option \<times> string) list \<Rightarrow> bool" where
  "frames_read E fs \<longleftrightarrow> E (concat (map frame_text fs)) = map (\<lambda>f. Inr (snd f)) fs"

section \<open>The mock response as frames of trees\<close>

definition mock_usage_tree :: jvalue where
  "mock_usage_tree =
     JObj [(''input_tokens'', JNum 20),
           (''input_tokens_details'', JObj [(''cached_tokens'', JNum 5), (''cache_write_tokens'', JNum 5)]),
           (''output_tokens'', JNum 15),
           (''output_tokens_details'', JObj [(''reasoning_tokens'', JNum 5)]),
           (''total_tokens'', JNum 35)]"

definition mock_terminal_tree :: jvalue where
  "mock_terminal_tree =
     JObj [(''type'', JStr ''response.completed''),
           (''response'', JObj [(''id'', JStr ''resp_mock''), (''model'', JStr MOCK_MODEL),
              (''usage'', mock_usage_tree)])]"

definition mock_delta_tree :: "u64 \<Rightarrow> nat \<Rightarrow> jvalue" where
  "mock_delta_tree sq n =
     JObj [(''type'', JStr ''response.output_text.delta''), (''seq'', JNum sq),
           (''delta'', JStr (replicate n (CHR ''d'')))]"

function mock_delta_trees :: "u64 \<Rightarrow> u64 \<Rightarrow> jvalue list" where
  "mock_delta_trees remaining sq =
     (if remaining = 0 then []
      else let this = min remaining 512
           in mock_delta_tree sq (unat this) # mock_delta_trees (remaining - this) (sq + 1))"
  by pat_completeness auto
termination
  by (relation "measure (\<lambda>(r, sq). unat r)") (auto simp only: in_measure wf_measure split_conv intro: remaining_decreases)

declare mock_delta_trees.simps [simp del]

definition mock_trees :: "u64 \<Rightarrow> jvalue list" where
  "mock_trees n = mock_delta_trees (saturating_sub n (of_nat (length mock_terminal))) 0"

definition mock_frames :: "u64 \<Rightarrow> (string option \<times> string) list" where
  "mock_frames n =
     map (\<lambda>j. (None, jtext j)) (mock_trees n) @ [(Some ''response.completed'', jtext mock_terminal_tree)]"

lemma small_numbers: "show_u64 20 = ''20''" "show_u64 5 = ''5''" "show_u64 15 = ''15''" "show_u64 35 = ''35''"
proof -
  have "show_nat 20 = ''20''" "show_nat 5 = ''5''" "show_nat 15 = ''15''" "show_nat 35 = ''35''"
    by code_simp+
  then show "show_u64 20 = ''20''" "show_u64 5 = ''5''" "show_u64 15 = ''15''" "show_u64 35 = ''35''"
    by (simp_all add: show_u64_def)
qed

lemma mock_terminal_frame:
  "frame_text (Some ''response.completed'', jtext mock_terminal_tree) = mock_terminal"
  by (simp add: frame_text_def mock_terminal_tree_def mock_usage_tree_def quoted_def small_numbers
      mock_terminal_def LF_def)

lemma mock_delta_frame: "frame_text (None, jtext (mock_delta_tree sq n)) = mock_delta sq n"
  by (simp add: frame_text_def mock_delta_tree_def quoted_def mock_delta_def LF_def)

lemma mock_deltas_frames:
  "mock_deltas r sq = map (\<lambda>j. frame_text (None, jtext j)) (mock_delta_trees r sq)"
proof (induction r sq rule: mock_deltas.induct)
  case (1 r sq)
  show ?case
  proof (cases "r = 0")
    case False
    with "1.IH" [OF False refl] show ?thesis
      by (simp add: mock_deltas.simps [of r] mock_delta_trees.simps [of r] mock_delta_frame Let_def)
  qed (simp add: mock_deltas.simps mock_delta_trees.simps)
qed

lemma mock_chunks_frames: "mock_chunks n = map frame_text (mock_frames n)"
  by (simp add: mock_chunks_def mock_frames_def mock_trees_def mock_deltas_frames mock_terminal_frame Let_def)

section \<open>Metering the mock response\<close>

lemma represents_get:
  assumes "represents J v (JObj fs)"
  shows "map_of fs k = Some j \<Longrightarrow> \<exists>x. json_get J v k = Some x \<and> represents J x j"
    and "map_of fs k = None \<Longrightarrow> json_get J v k = None"
  using assms by (fastforce dest: map_of_SomeD, simp add: map_of_eq_None_iff)

lemma mock_usage_extracted:
  assumes "represents J u mock_usage_tree"
  shows "extract_raw_usage J u =
    \<lparr>raw_input_total = Some 20, raw_cache_read = Some 5, raw_cache_write = Some 5,
     raw_output_total = Some 15, raw_reasoning = Some 5, raw_total = Some 35\<rparr>"
proof -
  note g = represents_get [OF assms [unfolded mock_usage_tree_def]]
  obtain a b c d e where top:
      "json_get J u ''input_tokens'' = Some a" "represents J a (JNum 20)"
      "json_get J u ''input_tokens_details'' = Some b"
      "represents J b (JObj [(''cached_tokens'', JNum 5), (''cache_write_tokens'', JNum 5)])"
      "json_get J u ''output_tokens'' = Some c" "represents J c (JNum 15)"
      "json_get J u ''output_tokens_details'' = Some d"
      "represents J d (JObj [(''reasoning_tokens'', JNum 5)])"
      "json_get J u ''total_tokens'' = Some e" "represents J e (JNum 35)"
    using g(1) [of "''input_tokens''"] g(1) [of "''input_tokens_details''"] g(1) [of "''output_tokens''"]
      g(1) [of "''output_tokens_details''"] g(1) [of "''total_tokens''"]
    by (simp del: represents.simps) blast
  obtain b1 b2 where "json_get J b ''cached_tokens'' = Some b1" "represents J b1 (JNum 5)"
      "json_get J b ''cache_write_tokens'' = Some b2" "represents J b2 (JNum 5)"
    using represents_get(1) [OF top(4), of "''cached_tokens''"]
      represents_get(1) [OF top(4), of "''cache_write_tokens''"]
    by (simp del: represents.simps) blast
  moreover obtain d1 where "json_get J d ''reasoning_tokens'' = Some d1" "represents J d1 (JNum 5)"
    using represents_get(1) [OF top(8), of "''reasoning_tokens''"] by (simp del: represents.simps) blast
  ultimately show ?thesis
    using top by (simp add: extract_raw_usage_def u64_at_def nested.simps or_else_def del: represents.simps(4))
qed

definition mock_usage :: Usage where
  "mock_usage = \<lparr>input_total = Some 20, uncached = Some 10, cache_read = Some 5, cache_write = Some 5,
     output_total = Some 15, reasoning = Some 5, total = Some 35\<rparr>"

lemma mock_usage_canonical:
  assumes "represents J u mock_usage_tree"
  shows "canonicalize (extract_raw_usage J u) = (mock_usage, Complete)"
  by (simp add: mock_usage_extracted [OF assms] canonicalize_def checked_add_def checked_sub_def mock_usage_def)

lemma scan_delta:
  assumes "json_reads J (mock_delta_tree sq n)"
  shows "scan_event J st (jtext (mock_delta_tree sq n)) = st"
proof -
  from assms obtain v where v: "json_from_str J (jtext (mock_delta_tree sq n)) = Some v"
      "represents J v (mock_delta_tree sq n)"
    by (auto simp: json_reads_def)
  obtain x where "json_get J v ''type'' = Some x" "represents J x (JStr ''response.output_text.delta'')"
    using represents_get(1) [OF v(2) [unfolded mock_delta_tree_def], of "''type''"]
    by (simp del: represents.simps) blast
  with v(1) show ?thesis by (simp add: scan_event_def)
qed

lemma scan_deltas:
  assumes "list_all (json_reads J) (mock_delta_trees r sq)"
  shows "foldl (scan_event J) st (map jtext (mock_delta_trees r sq)) = st"
  using assms
proof (induction r sq rule: mock_delta_trees.induct)
  case (1 r sq)
  show ?case
  proof (cases "r = 0")
    case False
    with "1.prems" "1.IH" [OF False refl] show ?thesis
      by (simp add: mock_delta_trees.simps [of r] Let_def scan_delta)
  qed (simp add: mock_delta_trees.simps)
qed

lemma scan_terminal:
  assumes "json_lib_ok J" and "json_reads J mock_terminal_tree"
  shows "scan_event J scan_init (jtext mock_terminal_tree) =
    scan_init\<lparr>terminal_seen := True, body_model := Some MOCK_MODEL,
      scan_usage := Some (mock_usage, Complete)\<rparr>"
proof -
  from assms(2) obtain v where v: "json_from_str J (jtext mock_terminal_tree) = Some v"
      "represents J v mock_terminal_tree"
    by (auto simp: json_reads_def)
  obtain x y where xy: "json_get J v ''type'' = Some x" "represents J x (JStr ''response.completed'')"
      "json_get J v ''response'' = Some y"
      "represents J y (JObj [(''id'', JStr ''resp_mock''), (''model'', JStr MOCK_MODEL), (''usage'', mock_usage_tree)])"
    using represents_get(1) [OF v(2) [unfolded mock_terminal_tree_def], of "''type''"]
      represents_get(1) [OF v(2) [unfolded mock_terminal_tree_def], of "''response''"]
    by (simp del: represents.simps) blast
  obtain m u where mu: "json_get J y ''model'' = Some m" "represents J m (JStr MOCK_MODEL)"
      "json_get J y ''usage'' = Some u" "represents J u mock_usage_tree"
    using represents_get(1) [OF xy(4), of "''model''"] represents_get(1) [OF xy(4), of "''usage''"]
    by (simp del: represents.simps) blast
  have "json_is_object J y" using xy(4) by simp
  then obtain obj where obj: "json_as_object J y = Some obj" "\<And>k. json_get J y k = map_of obj k"
    using assms(1) by (auto simp: json_lib_ok_def)
  have "\<not> json_is_null J u" "json_is_object J u"
    using mu(4) by (simp_all add: mock_usage_tree_def)
  with v(1) xy(1-3) mu obj show ?thesis
    by (simp add: scan_event_def scan_response_def mock_usage_canonical Let_def scan_init_def)
qed

lemma collect_ok_Inr: "collect_ok (map (\<lambda>f. Inr (g f)) fs) = map g fs"
  by (induction fs) simp_all

lemma mock_response_parsed:
  assumes "json_lib_ok J" and "list_all (json_reads J) (mock_trees n @ [mock_terminal_tree])"
    and "frames_read E (mock_frames n)"
  shows "parse_mirror J E (concat (mock_chunks n)) h =
    \<lparr>pb_audit = \<lparr>res_model = effective_model h (Some MOCK_MODEL), res_usage = Some mock_usage,
        res_quality = Complete, res_metering_error = None\<rparr>,
     pb_terminal_seen = True, pb_incomplete = False\<rparr>"
proof -
  have "sse_events E (concat (mock_chunks n)) = map jtext (mock_trees n) @ [jtext mock_terminal_tree]"
    using assms(3)
    by (simp add: sse_events_def mock_chunks_frames frames_read_def collect_ok_Inr)
      (simp add: mock_frames_def comp_def)
  moreover have "foldl (scan_event J) scan_init (map jtext (mock_trees n)) = scan_init"
    using assms(2) by (simp add: mock_trees_def scan_deltas)
  ultimately show ?thesis
    using scan_terminal [OF assms(1)] assms(2) by (simp add: parse_mirror_def scan_init_def)
qed

section \<open>The mock upstream\<close>

text \<open>\<open>mock_handler\<close>: status, headers and body of every response, as the gateway receives it.\<close>

definition mock_handler :: "u64 \<Rightarrow> send_answer" where
  "mock_handler response_bytes =
     SendOk 200 [(''content-type'', ''text/event-stream''), (''openai-model'', MOCK_MODEL)]
       (mock_chunks response_bytes) True"

text \<open>
  The routes of \<open>spawn_mock_upstream\<close>, for a method and a path; \<open>None\<close> where the router answers by
  itself, with 404 or 405.
\<close>

definition mock_router :: "axum_lib \<Rightarrow> u64 \<Rightarrow> string \<Rightarrow> string \<Rightarrow> send_answer option" where
  "mock_router A response_bytes meth path =
     (if (route_matches A ''/responses'' path \<or> route_matches A ''/responses/compact'' path) \<and> post_accepts A meth
      then Some (mock_handler response_bytes) else None)"

section \<open>Properties\<close>

text \<open>
  The smoke test's requests are metered: when the caller receives the whole response of the mock
  upstream, of any size, the gateway's record of the request is a completed one with the mock's model
  and its token counts, of complete quality and without a metering error. So a shortfall the smoke
  test reports is a fault of the gateway or of the load, not of the mock.
\<close>

lemma smoke_request_metered:
  assumes "json_lib_ok (cr_json C)" and "frames_read (cr_sse C) (mock_frames n)"
    and "list_all (json_reads (cr_json C)) (mock_trees n @ [mock_terminal_tree])"
    and "status_is_success (cr_http C) 200" and "value_to_str (cr_http C) MOCK_MODEL = Some MOCK_MODEL"
    and "operation_of (rq_path req) \<noteq> None"
    and "rr_task (route_v1 C gw w ev now req polls later (mock_handler n)) = Some t"
    and "pump_reach (cr_effort C) (cr_json C) (cr_sse C) t st"
    and "pm_phase st = Finished" and "pm_outcome st \<noteq> ClientCancelled"
  shows "\<exists>r. pm_recorded st = [r] \<and> record_fits C gw req r \<and> outcome r = Completed \<and>
    upstream_status r = Some 200 \<and> model r = Some MOCK_MODEL \<and> usage r = Some mock_usage \<and>
    accounting_quality r = Complete \<and> metering_error r = None"
proof (rule route_v1_task [OF assms(7), of "cr_effort C" "cr_json C" "cr_sse C"])
  fix fw status hs chunks clean
  assume fw: "route_prepare C gw req = Inr fw" and a: "mock_handler n = SendOk status hs chunks clean"
    and r: "pump_reach (cr_effort C) (cr_json C) (cr_sse C)
      (pump_init (fw_machine fw) (fw_operation fw) status (status_is_success (cr_http C) status)
        (Option.bind (header_get hs ''openai-model'') (value_to_str (cr_http C)))
        (fst (mirror_polls (fw_effort fw) polls)) later chunks clean) t"
  note parsed = mock_response_parsed [OF assms(1,3,2)]
  have args: "status = 200" "chunks = mock_chunks n" "clean"
      "Option.bind (header_get hs ''openai-model'') (value_to_str (cr_http C)) = Some MOCK_MODEL"
    using a assms(5) by (auto simp: mock_handler_def header_get_def get_all_def)
  from pump_recorded [OF pump_reach_trans [OF r assms(8)]] assms(6,9,10) route_prepare_InrD(1,2) [OF fw]
  obtain ev now eff where rec: "pm_recorded st =
      [audit_record ev now (fw_machine fw) (the (fw_operation fw)) 200 True Completed
        (finalize (cr_json C) (cr_sse C) (foldl push (StreamUsageParser_new (Some MOCK_MODEL)) (mock_chunks n))) eff]"
      "list_all record_ok (pm_recorded st)"
    using args assms(4) by auto
  have p: "sp_parsed (finalize (cr_json C) (cr_sse C)
      (foldl push (StreamUsageParser_new (Some MOCK_MODEL)) (mock_chunks n))) =
      Some (parse_mirror (cr_json C) (cr_sse C) (concat (mock_chunks n)) (Some MOCK_MODEL))"
    by (rule parsed_after)
  show ?thesis
    using rec assms(6) route_prepare_InrD(1,2) [OF fw]
    by (auto simp: record_fits_def audit_record_def audit_outcome_def AuditRecord_new_def Let_def
        parsed_simps [OF p] parsed)
qed

definition mock_crates :: "(string, unit, jvalue) crates" where
  "mock_crates =
     \<lparr>cr_url = plain_url, cr_http = plain_http, cr_digest = plain_digest, cr_effort = inert_effort,
      cr_json = tree_json (\<lambda>s. if s = jtext mock_terminal_tree then Some mock_terminal_tree else None),
      cr_sse = (\<lambda>_. [Inr (jtext mock_terminal_tree)])\<rparr>"

lemma mock_crates_ok:
  "json_lib_ok (cr_json mock_crates)" "frames_read (cr_sse mock_crates) (mock_frames 0)"
  "list_all (json_reads (cr_json mock_crates)) (mock_trees 0 @ [mock_terminal_tree])"
proof -
  have "saturating_sub 0 x = (0 :: u64)" for x
    using unat_saturating_sub [of 0 x] by (simp add: unat_eq_zero)
  then have none: "mock_trees 0 = []" by (simp add: mock_trees_def mock_delta_trees.simps)
  have "distinct_keys mock_terminal_tree" by (simp add: mock_terminal_tree_def mock_usage_tree_def)
  then have "json_reads (cr_json mock_crates) mock_terminal_tree"
    unfolding json_reads_def
    by (intro exI [of _ mock_terminal_tree]) (simp add: mock_crates_def represents_tree, simp add: tree_json_def)
  with none show "list_all (json_reads (cr_json mock_crates)) (mock_trees 0 @ [mock_terminal_tree])" by simp
  show "frames_read (cr_sse mock_crates) (mock_frames 0)"
    by (simp add: frames_read_def mock_frames_def none mock_crates_def)
  show "json_lib_ok (cr_json mock_crates)" by (simp add: mock_crates_def tree_json_ok)
qed

lemma smoke_request_metered_witness:
  "\<exists>(t :: unit pump) st r.
     rr_task (route_v1 mock_crates plain_gateway (spawn []) [] []
       \<lparr>rq_method = ''POST'', rq_path = ''/v1/responses'', rq_query = None,
        rq_headers = [(''x-meter-key'', ''k'')]\<rparr> [] [] (mock_handler 0)) = Some t \<and>
     pump_reach (cr_effort mock_crates) (cr_json mock_crates) (cr_sse mock_crates) t st \<and>
     pm_recorded st = [r] \<and> usage r = Some mock_usage"
proof -
  let ?req = "\<lparr>rq_method = ''POST'', rq_path = ''/v1/responses'', rq_query = None,
        rq_headers = [(''x-meter-key'', ''k'')]\<rparr>"
  have "authenticate mock_crates plain_gateway (rq_headers ?req) = Some ''m1''"
    by (simp add: mock_crates_def, code_simp)
  moreover have "upstream_url plain_url ''/api/'' (path_suffix ''/v1/responses'') None \<noteq> None" by code_simp
  ultimately obtain fw where fw: "route_prepare mock_crates plain_gateway ?req = Inr fw"
    by (auto simp: route_prepare_def Let_def plain_gateway_def mock_crates_def)
  obtain t where t: "rr_task (route_v1 mock_crates plain_gateway (spawn []) [] [] ?req
      ([] :: unit poll list) [] (mock_handler 0)) = Some t"
      and init: "t = pump_init (fw_machine fw) (fw_operation fw) 200 True (Some MOCK_MODEL)
        (fst (mirror_polls (fw_effort fw) [])) [] (mock_chunks 0) True"
    using fw by (simp add: route_v1_def mock_handler_def header_get_def get_all_def mock_crates_def
        plain_http_def Let_def)
  obtain st where st: "pump_reach (cr_effort mock_crates) (cr_json mock_crates) (cr_sse mock_crates) t st"
      "pm_phase st = Finished" "pm_outcome st = Completed"
    unfolding init
    by (rule full_delivery [where D = "cr_effort mock_crates" and J = "cr_json mock_crates" and
          E = "cr_sse mock_crates" and mid = "fw_machine fw" and oper = "fw_operation fw" and status = 200 and
          s = True and h = "Some MOCK_MODEL" and eff = "fst (mirror_polls (fw_effort fw) [])" and
          polls = "[]" and chunks = "mock_chunks 0" and clean = True]) simp
  have http: "status_is_success (cr_http mock_crates) 200"
      "value_to_str (cr_http mock_crates) MOCK_MODEL = Some MOCK_MODEL"
    by (simp_all add: mock_crates_def plain_http_def)
  have "operation_of (rq_path ?req) \<noteq> None" by (simp add: operation_of_def)
  from smoke_request_metered [OF mock_crates_ok http this t st(1,2)] st(1,3) t show ?thesis by auto
qed

end
