(* ===== verification/System.thy ===== *)
theory System
  imports Gateway "HOL-Library.Multiset"
begin

text \<open>
  The running gateway: any number of requests in flight, their response tasks and the writer thread,
  in every interleaving. A step is a request that is refused without being sent, the sending of a
  request, the upstream's answer to it, a caller that leaves before that, a step of one response task,
  which hands a record to the shared writer when it ends, or a step of the writer. The theory shows
  that the records that reach the writer are exactly those of the requests that were sent, at most one
  for each, and that the writer does with them what its own runs allow.
\<close>

section \<open>State\<close>

text \<open>
  Where the handler of a request that was sent is: it awaits the answer at \<open>send()\<close>; it has started the
  response task with the given index; sending failed, and these records were offered; or its caller
  left while it waited.
\<close>

datatype fate = Awaiting | Streaming nat | Failed "AuditRecord list" | Abandoned

text \<open>
  The shared writer, the requests that were sent in the order of sending, and the response tasks in the
  order of their start. \<open>sy_calls\<close> is no variable of the program: it is the history of the calls on the
  writer, each appended by the step that makes it.
\<close>

record 'e system =
  sy_audit :: AuditWriter
  sy_requests :: "(Request \<times> fate) list"
  sy_tasks :: "'e pump list"
  sy_calls :: "writer_action list"

definition system_init :: "AuditWriter \<Rightarrow> 'e system" where
  "system_init audit = \<lparr>sy_audit = audit, sy_requests = [], sy_tasks = [], sy_calls = []\<rparr>"

text \<open>The records a step of a task hands over, and the task of a request, if one was started.\<close>

definition handed_over :: "'e pump \<Rightarrow> 'e pump \<Rightarrow> AuditRecord list" where
  "handed_over t t' = drop (length (pm_recorded t)) (pm_recorded t')"

definition started :: "('u, 'e) route_result \<Rightarrow> 'e pump list" where
  "started R = (case rr_task R of None \<Rightarrow> [] | Some t \<Rightarrow> [t])"

text \<open>The record that the handler offers when sending fails.\<close>

definition failure_records ::
  "('u, 'd, 'v) crates \<Rightarrow> 'u Gateway \<Rightarrow> string \<Rightarrow> string \<Rightarrow> Request \<Rightarrow> 'e poll list \<Rightarrow> send_answer \<Rightarrow>
     AuditRecord list" where
  "failure_records C gw ev now req polls answer =
     (case (route_prepare C gw req, answer) of
        (Inr fw, SendErr) \<Rightarrow>
          (case fw_operation fw of
             None \<Rightarrow> []
           | Some oper \<Rightarrow>
               [transport_error_record ev now (fw_machine fw) oper
                  (snd (observed_effort (cr_effort C) (fst (mirror_polls (fw_effort fw) polls))))])
      | _ \<Rightarrow> [])"

definition metered_request :: "Request \<Rightarrow> bool" where
  "metered_request req \<longleftrightarrow> operation_of (rq_path req) \<noteq> None"

section \<open>Steps\<close>

text \<open>
  When a caller disconnects, the server drops the future of its handler. The handler has one await
  point, the sending of the upstream request; dropped there it starts no task and offers no record.
\<close>

inductive system_step ::
  "axum_lib \<Rightarrow> ('u, 'd, 'v) crates \<Rightarrow> record_codec \<Rightarrow> 'u Gateway \<Rightarrow> 'e system \<Rightarrow> 'e system \<Rightarrow> bool"
  for A :: axum_lib and C :: "('u, 'd, 'v) crates" and K :: record_codec and gw :: "'u Gateway" where
  refuse: "R = serve A C gw (sy_audit s) ev now req polls later answer \<Longrightarrow> rr_sent R = None \<Longrightarrow>
    system_step A C K gw s (s\<lparr>sy_audit := rr_audit R, sy_tasks := sy_tasks s @ started R\<rparr>)"
| send: "router A req = RouteV1 \<Longrightarrow> route_prepare C gw req = Inr fw \<Longrightarrow>
    system_step A C K gw s (s\<lparr>sy_requests := sy_requests s @ [(req, Awaiting)]\<rparr>)"
| answered: "i < length (sy_requests s) \<Longrightarrow> sy_requests s ! i = (req, Awaiting) \<Longrightarrow>
    R = serve A C gw (sy_audit s) ev now req polls later answer \<Longrightarrow>
    rs = failure_records C gw ev now req polls answer \<Longrightarrow>
    system_step A C K gw s
      (s\<lparr>sy_audit := rr_audit R,
         sy_requests := (sy_requests s)[i := (req,
           case rr_task R of Some _ \<Rightarrow> Streaming (length (sy_tasks s)) | None \<Rightarrow> Failed rs)],
         sy_tasks := sy_tasks s @ started R, sy_calls := sy_calls s @ map TryRecord rs\<rparr>)"
| leave: "i < length (sy_requests s) \<Longrightarrow> sy_requests s ! i = (req, Awaiting) \<Longrightarrow>
    system_step A C K gw s (s\<lparr>sy_requests := (sy_requests s)[i := (req, Abandoned)]\<rparr>)"
| task_step: "i < length (sy_tasks s) \<Longrightarrow>
    pump_step (cr_effort C) (cr_json C) (cr_sse C) (sy_tasks s ! i) t' \<Longrightarrow>
    rs = handed_over (sy_tasks s ! i) t' \<Longrightarrow>
    system_step A C K gw s
      (s\<lparr>sy_audit := foldl try_record (sy_audit s) rs, sy_tasks := (sy_tasks s)[i := t'],
         sy_calls := sy_calls s @ map TryRecord rs\<rparr>)"
| writer_turn:
    "system_step A C K gw s
      (s\<lparr>sy_audit := write_loop_step K (sy_audit s) res, sy_calls := sy_calls s @ [WriteStep res]\<rparr>)"

definition system_reach ::
  "axum_lib \<Rightarrow> ('u, 'd, 'v) crates \<Rightarrow> record_codec \<Rightarrow> 'u Gateway \<Rightarrow> 'e system \<Rightarrow> 'e system \<Rightarrow> bool" where
  "system_reach A C K gw = (system_step A C K gw)\<^sup>*\<^sup>*"

section \<open>The requests and their records\<close>

text \<open>The requests on a metered endpoint, and those of them that were left by their caller.\<close>

definition metered_in :: "fate set \<Rightarrow> 'e system \<Rightarrow> nat" where
  "metered_in F s = length (filter (\<lambda>(req, f). metered_request req \<and> f \<in> F) (sy_requests s))"

definition sy_metered :: "'e system \<Rightarrow> nat" where
  "sy_metered s = metered_in UNIV s"

definition sy_abandoned :: "'e system \<Rightarrow> nat" where
  "sy_abandoned s = metered_in {Abandoned} s"

text \<open>The records that a request has offered so far, and whether it has ended.\<close>

fun records_of :: "'e pump list \<Rightarrow> fate \<Rightarrow> AuditRecord list" where
  "records_of ts Awaiting = []"
| "records_of ts (Streaming i) = pm_recorded (ts ! i)"
| "records_of ts (Failed rs) = rs"
| "records_of ts Abandoned = []"

fun request_ended :: "'e pump list \<Rightarrow> fate \<Rightarrow> bool" where
  "request_ended ts Awaiting \<longleftrightarrow> False"
| "request_ended ts (Streaming i) \<longleftrightarrow> pm_phase (ts ! i) = Finished"
| "request_ended ts (Failed rs) \<longleftrightarrow> True"
| "request_ended ts Abandoned \<longleftrightarrow> False"

definition task_for :: "('u, 'd, 'v) crates \<Rightarrow> 'u Gateway \<Rightarrow> Request \<Rightarrow> 'e pump \<Rightarrow> bool" where
  "task_for C gw req t \<longleftrightarrow>
     (\<exists>w ev now polls later answer t0.
        rr_task (route_v1 C gw w ev now req polls later answer) = Some t0 \<and>
        pump_reach (cr_effort C) (cr_json C) (cr_sse C) t0 t)"

definition task_of_request :: "('u, 'd, 'v) crates \<Rightarrow> 'u Gateway \<Rightarrow> 'e pump \<Rightarrow> bool" where
  "task_of_request C gw t \<longleftrightarrow> (\<exists>req. task_for C gw req t)"

definition request_ok :: "axum_lib \<Rightarrow> ('u, 'd, 'v) crates \<Rightarrow> 'u Gateway \<Rightarrow> 'e pump list \<Rightarrow> Request \<times> fate \<Rightarrow> bool" where
  "request_ok A C gw ts q \<longleftrightarrow>
     router A (fst q) = RouteV1 \<and> (\<exists>fw. route_prepare C gw (fst q) = Inr fw) \<and>
     (case snd q of
        Streaming i \<Rightarrow> i < length ts \<and> task_for C gw (fst q) (ts ! i)
      | Failed rs \<Rightarrow>
          (if metered_request (fst q)
           then \<exists>r. rs = [r] \<and> record_fits C gw (fst q) r \<and> outcome r = TransportError else rs = [])
      | _ \<Rightarrow> True)"

text \<open>The tasks that requests have started, and the records of failed sends.\<close>

fun streams :: "fate list \<Rightarrow> nat list" where
  "streams [] = []"
| "streams (Streaming i # fs) = i # streams fs"
| "streams (f # fs) = streams fs"

fun failures :: "fate list \<Rightarrow> AuditRecord list" where
  "failures [] = []"
| "failures (Failed rs # fs) = rs @ failures fs"
| "failures (f # fs) = failures fs"

text \<open>
  The invariant: the writer is in the state that the calls on it lead to; every request is in order;
  every task belongs to exactly one request; and the records offered are those of the failed sends and
  of the tasks.
\<close>

definition system_inv ::
  "axum_lib \<Rightarrow> ('u, 'd, 'v) crates \<Rightarrow> record_codec \<Rightarrow> 'u Gateway \<Rightarrow> AuditWriter \<Rightarrow> 'e system \<Rightarrow> bool" where
  "system_inv A C K gw w0 s \<longleftrightarrow>
     sy_audit s = writer_run K w0 (sy_calls s) \<and>
     list_all (request_ok A C gw (sy_tasks s)) (sy_requests s) \<and>
     list_all (task_of_request C gw) (sy_tasks s) \<and>
     mset (streams (map snd (sy_requests s))) = mset [0..<length (sy_tasks s)] \<and>
     mset (offered (sy_calls s)) =
       mset (failures (map snd (sy_requests s))) + mset (concat (map pm_recorded (sy_tasks s)))"

section \<open>Lemmas\<close>

lemma list_all_update: "list_all P xs \<Longrightarrow> P x \<Longrightarrow> list_all P (xs[i := x])"
  by (auto simp: list_all_iff dest: set_update_subset_insert [THEN subsetD])

lemma mset_concat_update:
  assumes "i < length xs" and "f y = f (xs ! i) @ ys"
  shows "mset (concat (map f (xs[i := y]))) = mset (concat (map f xs)) + mset ys"
proof -
  have "mset (concat (map f xs)) = mset (concat (map f (take i xs @ xs ! i # drop (Suc i) xs)))"
    by (simp flip: id_take_nth_drop [OF assms(1)])
  then show ?thesis by (simp add: upd_conv_take_nth_drop [OF assms(1)] assms(2))
qed

lemma streams_append [simp]: "streams (fs @ gs) = streams fs @ streams gs"
  by (induction fs rule: streams.induct) simp_all

lemma failures_append [simp]: "failures (fs @ gs) = failures fs @ failures gs"
  by (induction fs rule: failures.induct) simp_all

text \<open>A request that awaits its answer has neither a task nor a record.\<close>

lemma awaiting_update:
  assumes "i < length fs" and "fs ! i = Awaiting"
  shows "mset (streams (fs[i := f])) = mset (streams fs) + mset (streams [f])"
    and "mset (failures (fs[i := f])) = mset (failures fs) + mset (failures [f])"
proof -
  have fs: "fs = take i fs @ Awaiting # drop (Suc i) fs" using id_take_nth_drop [OF assms(1)] assms(2) by simp
  then have "streams fs = streams (take i fs) @ streams (drop (Suc i) fs)"
    "failures fs = failures (take i fs) @ failures (drop (Suc i) fs)"
    by (metis streams_append streams.simps(3), metis failures_append failures.simps(3))
  moreover have "fs[i := f] = take i fs @ [f] @ drop (Suc i) fs" by (simp add: upd_conv_take_nth_drop [OF assms(1)])
  ultimately show "mset (streams (fs[i := f])) = mset (streams fs) + mset (streams [f])"
    "mset (failures (fs[i := f])) = mset (failures fs) + mset (failures [f])"
    by (simp_all only: streams_append failures_append mset_append) simp_all
qed

text \<open>The answer to a request: a failed send offers a record, every other answer starts a task.\<close>

lemma route_v1_task_start:
  assumes "rr_task (route_v1 C gw w ev now req polls later answer) = Some t"
  shows "pm_operation t = operation_of (rq_path req)" and "pm_phase t = NextChunk" and "pm_recorded t = []"
  using assms
  by (auto simp: route_v1_def pump_init_def Let_def dest: route_prepare_InrD(2)
      split: sum.splits send_answer.splits if_splits)

lemma route_v1_failure:
  "rr_audit (route_v1 C gw w ev now req polls later answer) =
     foldl try_record w (failure_records C gw ev now req polls answer)"
  by (simp add: route_v1_def failure_records_def Let_def split: sum.split send_answer.split option.split)

lemma failure_records_ok:
  assumes "route_prepare C gw req = Inr fw" and "answer = SendErr"
  shows "if metered_request req
    then \<exists>r. failure_records C gw ev now req polls answer = [r] \<and> record_fits C gw req r \<and>
           outcome r = TransportError
    else failure_records C gw ev now req polls answer = []"
  using route_prepare_InrD(1,2) [OF assms(1)]
  by (auto simp: failure_records_def assms metered_request_def record_fits_def transport_error_record_ok)

lemma answered_cases:
  assumes "route_prepare C gw req = Inr fw"
  obtains (task) t where "rr_task (route_v1 C gw w ev now req polls later answer) = Some t"
      "failure_records C gw ev now req polls answer = []" "answer \<noteq> SendErr"
  | (failed) "rr_task (route_v1 C gw w ev now req polls later answer) = None" "answer = SendErr"
proof (cases answer)
  case SendErr
  with assms failed show thesis by (simp add: route_v1_def)
next
  case (SendOk status hs chunks clean)
  with assms task show thesis by (fastforce simp: route_v1_def failure_records_def Let_def split: if_splits)
qed

lemma refused:
  assumes "R = serve A C gw w ev now req polls later answer" and "rr_sent R = None"
  shows "rr_audit R = w" and "started R = []"
  using assms
  by (cases "router A req"; auto simp: serve_def started_def route_v1_def Let_def
      split: sum.splits send_answer.splits if_splits)+

lemma serve_route_v1:
  "router A req = RouteV1 \<Longrightarrow> serve A C gw w ev now req polls later answer =
     route_v1 C gw w ev now req polls later answer"
  by (simp add: serve_def)

section \<open>Tasks\<close>

lemma task_forI:
  "rr_task (route_v1 C gw w ev now req polls later answer) = Some t \<Longrightarrow> task_for C gw req t"
  unfolding task_for_def by (blast intro: pump_reach_refl)

lemma task_step_for:
  assumes "task_for C gw req t" and "pump_step (cr_effort C) (cr_json C) (cr_sse C) t t'"
  shows "task_for C gw req t'"
  using assms unfolding task_for_def pump_reach_def by (meson rtranclp.rtrancl_into_rtrancl)

lemma task_step_of_request:
  assumes "task_of_request C gw t" and "pump_step (cr_effort C) (cr_json C) (cr_sse C) t t'"
  shows "task_of_request C gw t'"
  using assms task_step_for unfolding task_of_request_def by blast

lemma task_caller_inv:
  assumes "task_of_request C gw t"
  shows "caller_inv t"
proof -
  from assms obtain w ev now req polls later answer t0 where
    t0: "rr_task (route_v1 C gw w ev now req polls later answer) = Some t0"
      "pump_reach (cr_effort C) (cr_json C) (cr_sse C) t0 t"
    unfolding task_of_request_def task_for_def by blast
  show ?thesis
  proof (rule route_v1_task [OF t0(1), of "cr_effort C" "cr_json C" "cr_sse C"])
    fix fw status hs chunks clean
    assume "pump_reach (cr_effort C) (cr_json C) (cr_sse C)
      (pump_init (fw_machine fw) (fw_operation fw) status (status_is_success (cr_http C) status)
        (Option.bind (header_get hs ''openai-model'') (value_to_str (cr_http C)))
        (fst (mirror_polls (fw_effort fw) polls)) later chunks clean) t0"
    from pump_reach_inv [OF pump_reach_trans [OF this t0(2)] refl] show ?thesis
      by (simp add: pump_inv_def)
  qed
qed

lemma task_records:
  assumes "task_for C gw req t"
  shows "list_all (record_fits C gw req) (pm_recorded t)"
    and "length (pm_recorded t) = of_bool (metered_request req \<and> pm_phase t = Finished)"
proof -
  from assms obtain w ev now polls later answer t0 where
    t0: "rr_task (route_v1 C gw w ev now req polls later answer) = Some t0"
      "pump_reach (cr_effort C) (cr_json C) (cr_sse C) t0 t"
    unfolding task_for_def by blast
  from route_v1_task_records [OF t0]
  show "list_all (record_fits C gw req) (pm_recorded t)"
    "length (pm_recorded t) = of_bool (metered_request req \<and> pm_phase t = Finished)"
    by (auto simp: metered_request_def split: if_splits)
qed

lemma recorded_grows: "pump_step D J E t t' \<Longrightarrow> pm_recorded t' = pm_recorded t @ handed_over t t'"
  by (erule pump_stepE) (auto simp: handed_over_def pump_record_def Let_def split: option.splits prod.splits)

section \<open>The invariant holds\<close>

lemma request_ok_mono:
  assumes "request_ok A C gw ts q" and "length ts \<le> length ts'"
    and "\<And>i req. i < length ts \<Longrightarrow> task_for C gw req (ts ! i) \<Longrightarrow> task_for C gw req (ts' ! i)"
  shows "request_ok A C gw ts' q"
  using assms by (auto simp: request_ok_def split: fate.splits)

lemma system_inv_init: "system_inv A C K gw w0 (system_init w0)"
  by (simp add: system_inv_def system_init_def)

lemma system_inv_answered:
  assumes inv: "system_inv A C K gw w0 s" and i: "i < length (sy_requests s)" "sy_requests s ! i = (req, Awaiting)"
    and R_def: "R = serve A C gw (sy_audit s) ev now req polls later answer"
    and rs: "rs = failure_records C gw ev now req polls answer"
  shows "system_inv A C K gw w0 (s\<lparr>sy_audit := rr_audit R,
    sy_requests := (sy_requests s)[i := (req,
      case rr_task R of Some _ \<Rightarrow> Streaming (length (sy_tasks s)) | None \<Rightarrow> Failed rs)],
    sy_tasks := sy_tasks s @ started R, sy_calls := sy_calls s @ map TryRecord rs\<rparr>)"
    (is "system_inv A C K gw w0 (s\<lparr>sy_audit := _, sy_requests := (sy_requests s)[i := (req, ?f)],
      sy_tasks := ?ts, sy_calls := _\<rparr>)")
proof -
  have "request_ok A C gw (sy_tasks s) (req, Awaiting)"
    using inv i by (metis list_all_length system_inv_def)
  then obtain fw where req: "router A req = RouteV1" "route_prepare C gw req = Inr fw" by (auto simp: request_ok_def)
  have R: "R = route_v1 C gw (sy_audit s) ev now req polls later answer" by (simp add: R_def serve_route_v1 req(1))
  have audit: "rr_audit R = writer_run K w0 (sy_calls s @ map TryRecord rs)"
    using inv by (simp add: R route_v1_failure rs run_append offers_only system_inv_def)
  have ok: "request_ok A C gw ?ts (req, ?f)" and tasks: "list_all (task_of_request C gw) (started R)"
    and parts: "mset (streams [?f]) = mset [length (sy_tasks s)..<length ?ts]"
      "mset (failures [?f]) + mset (concat (map pm_recorded (started R))) = mset rs"
  proof -
    show "request_ok A C gw ?ts (req, ?f)" "list_all (task_of_request C gw) (started R)"
      "mset (streams [?f]) = mset [length (sy_tasks s)..<length ?ts]"
      "mset (failures [?f]) + mset (concat (map pm_recorded (started R))) = mset rs"
      by (rule answered_cases [OF req(2), of "sy_audit s" ev now polls later answer, folded R];
          use req failure_records_ok [OF req(2), of answer ev now polls] in
          \<open>auto simp: request_ok_def started_def rs task_of_request_def R
            dest: task_forI route_v1_task_start(3)\<close>)+
  qed
  have "list_all (request_ok A C gw ?ts) (sy_requests s)"
    using inv by (auto simp: system_inv_def list_all_iff nth_append intro: request_ok_mono)
  from this ok have "list_all (request_ok A C gw ?ts) ((sy_requests s)[i := (req, ?f)])" by (rule list_all_update)
  moreover note upd = awaiting_update [of i "map snd (sy_requests s)" ?f]
  have "[0..<length ?ts] = [0..<length (sy_tasks s)] @ [length (sy_tasks s)..<length ?ts]"
    unfolding length_append by (rule upt_add_eq_append) simp
  ultimately show ?thesis
    using inv i audit tasks parts upd
    by (simp add: system_inv_def map_update run_append offers_only)
qed

lemma system_inv_task:
  assumes inv: "system_inv A C K gw w0 s" and i: "i < length (sy_tasks s)"
    and step: "pump_step (cr_effort C) (cr_json C) (cr_sse C) (sy_tasks s ! i) t'"
    and rs: "rs = handed_over (sy_tasks s ! i) t'"
  shows "system_inv A C K gw w0 (s\<lparr>sy_audit := foldl try_record (sy_audit s) rs,
    sy_tasks := (sy_tasks s)[i := t'], sy_calls := sy_calls s @ map TryRecord rs\<rparr>)"
proof -
  have "request_ok A C gw ((sy_tasks s)[i := t']) q" if "q \<in> set (sy_requests s)" for q
  proof (rule request_ok_mono)
    show "request_ok A C gw (sy_tasks s) q" using inv that by (simp add: system_inv_def list_all_iff)
    show "task_for C gw req ((sy_tasks s)[i := t'] ! j)"
      if "j < length (sy_tasks s)" "task_for C gw req (sy_tasks s ! j)" for j req
      using that task_step_for [OF _ step] by (cases "j = i") simp_all
  qed simp
  moreover have "task_of_request C gw t'"
    using inv i task_step_of_request [OF _ step] by (simp add: system_inv_def list_all_length)
  moreover note mset_concat_update [where f = pm_recorded, OF i recorded_grows [OF step]]
  ultimately show ?thesis
    using inv rs by (simp add: system_inv_def list_all_update run_append offers_only)
      (simp add: list_all_iff)
qed

lemma system_step_inv:
  assumes "system_step A C K gw s s'" and inv: "system_inv A C K gw w0 s"
  shows "system_inv A C K gw w0 s'"
  using assms(1)
proof (cases rule: system_step.cases)
  case (refuse R ev now req polls later answer)
  with inv refused [OF refuse(2,3)] show ?thesis by (simp add: system_inv_def)
next
  case (send req fw)
  with inv show ?thesis by (simp add: system_inv_def request_ok_def)
next
  case (answered i req R ev now polls later answer rs)
  with system_inv_answered [OF inv answered(2-5)] show ?thesis by simp
next
  case (leave i req)
  have "request_ok A C gw (sy_tasks s) (req, Awaiting)"
    using inv leave by (metis list_all_length system_inv_def)
  then have "list_all (request_ok A C gw (sy_tasks s)) ((sy_requests s)[i := (req, Abandoned)])"
    using inv by (intro list_all_update) (simp_all add: system_inv_def request_ok_def)
  with inv leave awaiting_update [of i "map snd (sy_requests s)" Abandoned] show ?thesis
    by (simp add: system_inv_def map_update)
next
  case (task_step i t' rs)
  with system_inv_task [OF inv task_step(2-4)] show ?thesis by simp
next
  case (writer_turn res)
  with inv show ?thesis by (simp add: system_inv_def run_append)
qed

lemma system_reach_inv:
  assumes "system_reach A C K gw (system_init w0) s"
  shows "system_inv A C K gw w0 s"
  using assms unfolding system_reach_def
  by (induction rule: rtranclp_induct) (blast intro: system_inv_init system_step_inv)+

section \<open>What the invariant says of the records\<close>

lemma offered_split: "mset (offered acts) = mset (accepted K w acts) + mset (dropped K w acts)"
  by (induction K w acts rule: dropped.induct) simp_all

lemma spawn_queue [simp]: "ch_queue (w_chan (spawn content)) = []" "w_file (spawn content) = content"
  by (simp_all add: spawn_def channel_new_def)

text \<open>What was offered was taken, waits, or was dropped.\<close>

lemma offered_accounts:
  "mset (map fst (taken K (spawn content) acts) @ ch_queue (w_chan (writer_run K (spawn content) acts)) @
     dropped K (spawn content) acts) = mset (offered acts)"
  using writer_fifo [of K "spawn content" acts]
  by (simp add: offered_split [of acts K "spawn content"] flip: mset_append append_assoc)

lemma records_by_fate:
  "mset (concat (map (records_of ts) fs)) = mset (failures fs) + mset (concat (map (\<lambda>i. pm_recorded (ts ! i)) (streams fs)))"
  by (induction fs rule: failures.induct) simp_all

lemma records_of_requests:
  assumes "system_inv A C K gw w0 s"
  shows "mset (concat (map (\<lambda>q. records_of (sy_tasks s) (snd q)) (sy_requests s))) = mset (offered (sy_calls s))"
proof -
  let ?fs = "map snd (sy_requests s)" and ?rec = "\<lambda>i. pm_recorded (sy_tasks s ! i)"
  have "mset (map ?rec (streams ?fs)) = mset (map ?rec [0..<length (sy_tasks s)])"
    using assms by (simp add: system_inv_def)
  moreover have "map ?rec [0..<length (sy_tasks s)] = map pm_recorded (sy_tasks s)"
    by (rule nth_equalityI) simp_all
  ultimately have "mset (concat (map ?rec (streams ?fs))) = mset (concat (map pm_recorded (sy_tasks s)))"
    by (metis mset_concat mset_map sum_mset_sum_list)
  with assms records_by_fate [of "sy_tasks s" ?fs] show ?thesis by (simp add: system_inv_def comp_def)
qed

lemma request_ok_records:
  assumes "request_ok A C gw ts (req, f)"
  shows "authenticate C gw (rq_headers req) \<noteq> None"
    and "list_all (record_fits C gw req) (records_of ts f)"
    and "length (records_of ts f) = of_bool (metered_request req \<and> request_ended ts f)"
proof -
  obtain fw where fw: "route_prepare C gw req = Inr fw" using assms by (auto simp: request_ok_def)
  then show "authenticate C gw (rq_headers req) \<noteq> None" by (simp add: route_prepare_InrD(1))
  have "list_all (record_fits C gw req) (records_of ts f) \<and>
    length (records_of ts f) = of_bool (metered_request req \<and> request_ended ts f)"
  proof (cases f)
    case (Streaming i)
    with assms have "task_for C gw req (ts ! i)" by (simp add: request_ok_def)
    from task_records [OF this] Streaming show ?thesis by simp
  next
    case (Failed rs)
    with assms show ?thesis by (cases "metered_request req") (auto simp: request_ok_def)
  qed simp_all
  then show "list_all (record_fits C gw req) (records_of ts f)"
    "length (records_of ts f) = of_bool (metered_request req \<and> request_ended ts f)" by simp_all
qed

text \<open>The writer: its state is the one its calls lead to, and what stderr shows has its cause.\<close>

lemma writer_state:
  assumes "system_inv A C K gw (spawn content) s"
  shows "sy_audit s = writer_run K (spawn content) (sy_calls s)"
    and "writer_inv (sy_audit s)" and "length (ch_queue (w_chan (sy_audit s))) \<le> 2048"
    and "w_file (sy_audit s) = content @ concat (map (bytes_of K) (taken K (spawn content) (sy_calls s)))"
    and "AUDIT_DROPPED \<in> set (w_stderr (sy_audit s)) \<longleftrightarrow> dropped K (spawn content) (sy_calls s) \<noteq> []"
    and "AUDIT_WRITE_FAILED \<in> set (w_stderr (sy_audit s)) \<longleftrightarrow>
      list_ex (write_failed K) (taken K (spawn content) (sy_calls s))"
proof -
  show w: "sy_audit s = writer_run K (spawn content) (sy_calls s)" using assms by (simp add: system_inv_def)
  show wi: "writer_inv (sy_audit s)" unfolding w by (rule writer_run_inv [OF spawn_inv])
  then show "length (ch_queue (w_chan (sy_audit s))) \<le> 2048"
    by (simp add: writer_inv_def AUDIT_QUEUE_CAPACITY_def)
  show "w_file (sy_audit s) = content @ concat (map (bytes_of K) (taken K (spawn content) (sy_calls s)))"
    unfolding w writer_file spawn_queue by (rule refl)
  show "AUDIT_DROPPED \<in> set (w_stderr (sy_audit s)) \<longleftrightarrow> dropped K (spawn content) (sy_calls s) \<noteq> []"
    unfolding warned_reported(1) [OF wi] unfolding w drop_warned_iff by (simp add: spawn_def)
  show "AUDIT_WRITE_FAILED \<in> set (w_stderr (sy_audit s)) \<longleftrightarrow>
      list_ex (write_failed K) (taken K (spawn content) (sy_calls s))"
    unfolding warned_reported(2) [OF wi] unfolding w write_warned_iff by (simp add: spawn_def)
qed

text \<open>Every record has its request: the records taken, waiting and dropped are those of the requests.\<close>

lemma records_accounted:
  assumes "system_inv A C K gw (spawn content) s"
  shows "mset (map fst (taken K (spawn content) (sy_calls s)) @ ch_queue (w_chan (sy_audit s)) @
      dropped K (spawn content) (sy_calls s)) =
    mset (concat (map (\<lambda>q. records_of (sy_tasks s) (snd q)) (sy_requests s)))"
  by (rule trans [OF offered_accounts [of K content "sy_calls s", folded writer_state(1) [OF assms]]
        records_of_requests [OF assms, symmetric]])

text \<open>A codec that writes every record as an empty line, and a request, for the witnesses.\<close>

definition blank_codec :: record_codec where
  "blank_codec = \<lparr>record_to_vec = (\<lambda>_. Some []), record_from_slice = (\<lambda>_. None)\<rparr>"

definition empty_request :: Request where
  "empty_request =
     \<lparr>rq_method = ''POST'', rq_path = ''/v1/responses'', rq_query = None,
      rq_headers = [(''x-meter-key'', ''k'')]\<rparr>"

lemma empty_request_sent:
  "router plain_axum empty_request = RouteV1" "metered_request empty_request"
  "\<exists>fw. route_prepare plain_crates plain_gateway empty_request = Inr fw"
proof -
  show "router plain_axum empty_request = RouteV1" by code_simp
  show "metered_request empty_request" by code_simp
  have "case route_prepare plain_crates plain_gateway empty_request of Inl _ \<Rightarrow> False | Inr _ \<Rightarrow> True" by code_simp
  then show "\<exists>fw. route_prepare plain_crates plain_gateway empty_request = Inr fw" by (auto split: sum.splits)
qed

text \<open>The request is sent, and sending fails.\<close>

definition failed_record :: AuditRecord where
  "failed_record =
     hd (failure_records plain_crates plain_gateway [] [] empty_request ([] :: unit poll list) SendErr)"

definition failed_system :: "bytes \<Rightarrow> unit system" where
  "failed_system content =
     \<lparr>sy_audit = try_record (spawn content) failed_record, sy_requests = [(empty_request, Failed [failed_record])],
      sy_tasks = [], sy_calls = [TryRecord failed_record]\<rparr>"

lemma failed_system_reached:
  "system_reach plain_axum plain_crates blank_codec plain_gateway (system_init (spawn content)) (failed_system content)"
proof -
  let ?step = "system_step plain_axum plain_crates blank_codec plain_gateway :: unit system \<Rightarrow> unit system \<Rightarrow> bool"
  let ?sent = "system_init (spawn content)\<lparr>sy_requests := [(empty_request, Awaiting)]\<rparr> :: unit system"
  obtain fw where fw: "route_prepare plain_crates plain_gateway empty_request = Inr fw"
    using empty_request_sent(3) by blast
  have "?step (system_init (spawn content)) ?sent"
    using send [OF empty_request_sent(1) fw, of blank_codec "system_init (spawn content) :: unit system"]
    by (simp add: system_init_def)
  moreover
  let ?rs = "failure_records plain_crates plain_gateway [] [] empty_request ([] :: unit poll list) SendErr"
  let ?R = "serve plain_axum plain_crates plain_gateway (spawn content) [] [] empty_request ([] :: unit poll list)
    [] SendErr"
  obtain r where "?rs = [r]" using failure_records_ok [OF fw refl, of "[]" "[]" "[] :: unit poll list"] empty_request_sent(2) by auto
  then have rs: "?rs = [failed_record]" by (simp add: failed_record_def)
  have R: "rr_audit ?R = try_record (spawn content) failed_record" "rr_task ?R = None"
    using rs fw route_v1_failure [of plain_crates plain_gateway "spawn content" "[]" "[]" empty_request
        "[] :: unit poll list" "[]" SendErr]
    by (simp_all add: serve_route_v1 empty_request_sent(1) system_init_def, simp add: route_v1_def)
  have "?step ?sent (failed_system content)"
    using answered [of 0 ?sent empty_request ?R plain_axum plain_crates plain_gateway "[]" "[]" "[]" "[]" SendErr
        ?rs blank_codec]
    by (simp add: R [simplified] rs started_def failed_system_def system_init_def)
  ultimately show ?thesis by (simp add: system_reach_def)
qed

section \<open>Properties\<close>

text \<open>
  (C13) The audit trail of the whole gateway, with any number of concurrent requests: at every moment
  the records that the writer took, that wait for it and that were dropped are together exactly the
  records of the requests that were sent so far, as a multiset. A request has a record exactly when it is on a
  Responses endpoint and has ended without its caller leaving before the answer, then exactly one, well
  formed, for its own endpoint and the machine of its own key. The usage file is its content at startup
  followed by what was written of the taken records, at most 2048 wait, and something was dropped
  exactly when stderr says so.
\<close>

theorem system_audit_trail:
  assumes "system_reach A C K gw (system_init (spawn content)) s"
  shows "let w = sy_audit s; ts = taken K (spawn content) (sy_calls s);
      ds = dropped K (spawn content) (sy_calls s) in
    mset (map fst ts @ ch_queue (w_chan w) @ ds) =
      mset (concat (map (\<lambda>q. records_of (sy_tasks s) (snd q)) (sy_requests s))) \<and>
    list_all (\<lambda>(req, f). authenticate C gw (rq_headers req) \<noteq> None \<and>
        list_all (record_fits C gw req) (records_of (sy_tasks s) f) \<and>
        length (records_of (sy_tasks s) f) = of_bool (metered_request req \<and> request_ended (sy_tasks s) f))
      (sy_requests s) \<and>
    w = writer_run K (spawn content) (sy_calls s) \<and>
    w_file w = content @ concat (map (bytes_of K) ts) \<and> length (ch_queue (w_chan w)) \<le> 2048 \<and>
    (AUDIT_DROPPED \<in> set (w_stderr w) \<longleftrightarrow> ds \<noteq> [])"
proof -
  have inv: "system_inv A C K gw (spawn content) s" by (rule system_reach_inv [OF assms])
  then have requests: "list_all (\<lambda>(req, f). authenticate C gw (rq_headers req) \<noteq> None \<and>
        list_all (record_fits C gw req) (records_of (sy_tasks s) f) \<and>
        length (records_of (sy_tasks s) f) = of_bool (metered_request req \<and> request_ended (sy_tasks s) f))
      (sy_requests s)"
    using request_ok_records by (fastforce simp: system_inv_def list_all_iff)
  show ?thesis
    unfolding Let_def by (intro conjI records_accounted [OF inv] requests writer_state [OF inv])
qed

theorem system_audit_trail_witness:
  "system_reach plain_axum plain_crates blank_codec plain_gateway (system_init (spawn ''x'')) (failed_system ''x'') \<and>
   ch_queue (w_chan (sy_audit (failed_system ''x''))) = [failed_record] \<and>
   record_fits plain_crates plain_gateway empty_request failed_record"
proof -
  have "ch_queue (w_chan (sy_audit (failed_system ''x''))) = [failed_record]"
    by (simp add: failed_system_def try_record_def ch_try_send_def spawn_def channel_new_def AUDIT_QUEUE_CAPACITY_def)
  with system_audit_trail [OF failed_system_reached [of "''x''"]] failed_system_reached show ?thesis
    by (simp add: Let_def) (simp add: failed_system_def)
qed

end
