(* ===== verification/Ledger.thy ===== *)
theory Ledger
  imports System
begin

text \<open>
  An abstract specification of the gateway's metering: a ledger of the requests that were sent upstream
  on a metered endpoint. Each is open until its response has ended or sending it has failed, then its
  record is pending, taken by the writer or dropped; one whose caller left before the upstream answered
  is abandoned. \<open>ledger_of\<close> computes the ledger of a state of the running gateway, and every step of the
  gateway, with all its concurrent tasks and the writer thread, is shown to be a step of the ledger.
\<close>

section \<open>The ledger\<close>

record ledger =
  lg_begun :: nat
  lg_open :: nat
  lg_pending :: "AuditRecord list"
  lg_taken :: "(AuditRecord \<times> write_result) list"
  lg_dropped :: "AuditRecord list"
  lg_abandoned :: nat

definition ledger_init :: ledger where
  "ledger_init = \<lparr>lg_begun = 0, lg_open = 0, lg_pending = [], lg_taken = [], lg_dropped = [],
     lg_abandoned = 0\<rparr>"

definition offer :: "AuditRecord \<Rightarrow> ledger \<Rightarrow> ledger" where
  "offer r l =
     (if length (lg_pending l) < AUDIT_QUEUE_CAPACITY
      then l\<lparr>lg_pending := lg_pending l @ [r]\<rparr>
      else l\<lparr>lg_dropped := lg_dropped l @ [r]\<rparr>)"

text \<open>A request that ends offers one record, and nothing else offers any.\<close>

inductive ledger_step :: "ledger \<Rightarrow> ledger \<Rightarrow> bool" where
  idle: "ledger_step l l"
| begin_request: "ledger_step l (l\<lparr>lg_begun := lg_begun l + 1, lg_open := lg_open l + 1\<rparr>)"
| abandon_request: "lg_open l = Suc n \<Longrightarrow>
    ledger_step l (l\<lparr>lg_open := n, lg_abandoned := lg_abandoned l + 1\<rparr>)"
| end_request: "lg_open l = Suc n \<Longrightarrow> ledger_step l (offer r (l\<lparr>lg_open := n\<rparr>))"
| take_record: "lg_pending l = r # q \<Longrightarrow>
    ledger_step l (l\<lparr>lg_pending := q, lg_taken := lg_taken l @ [(r, res)]\<rparr>)"

text \<open>What was begun is open, pending, taken, dropped or abandoned, and pending is bounded.\<close>

definition balanced :: "ledger \<Rightarrow> bool" where
  "balanced l \<longleftrightarrow>
     lg_begun l = lg_open l + length (lg_pending l) + length (lg_taken l) + length (lg_dropped l) +
       lg_abandoned l \<and>
     length (lg_pending l) \<le> AUDIT_QUEUE_CAPACITY"

lemma ledger_step_balanced: "ledger_step l l' \<Longrightarrow> balanced l \<Longrightarrow> balanced l'"
  by (induction rule: ledger_step.induct) (auto simp: balanced_def offer_def)

lemma ledger_reach_balanced: "ledger_step\<^sup>*\<^sup>* ledger_init l \<Longrightarrow> balanced l"
proof (induction rule: rtranclp_induct)
  case base
  show ?case by (simp add: balanced_def ledger_init_def)
qed (blast intro: ledger_step_balanced)

section \<open>The ledger of a state\<close>

text \<open>
  A metered request is open while it awaits the upstream's answer and while its task has not finished;
  what was taken and dropped is computed from the calls on the writer.
\<close>

definition unfinished :: "'e pump \<Rightarrow> bool" where
  "unfinished t \<longleftrightarrow> pm_operation t \<noteq> None \<and> pm_phase t \<noteq> Finished"

definition open_requests :: "'e system \<Rightarrow> nat" where
  "open_requests s = metered_in {Awaiting} s + length (filter unfinished (sy_tasks s))"

definition ledger_of :: "record_codec \<Rightarrow> bytes \<Rightarrow> 'e system \<Rightarrow> ledger" where
  "ledger_of K content s =
     \<lparr>lg_begun = sy_metered s, lg_open = open_requests s,
      lg_pending = ch_queue (w_chan (sy_audit s)), lg_taken = taken K (spawn content) (sy_calls s),
      lg_dropped = dropped K (spawn content) (sy_calls s), lg_abandoned = sy_abandoned s\<rparr>"

section \<open>The writer's part\<close>

text \<open>The sender is never dropped while the gateway runs.\<close>

lemma writer_alive:
  assumes "system_inv A C K gw (spawn content) s"
  shows "writer_inv (sy_audit s)"
  using assms by (simp add: system_inv_def writer_run_inv [OF spawn_inv])

lemma write_loop_step_tx [simp]: "w_tx (write_loop_step K w res) = w_tx w"
  by (auto simp: write_loop_step_def split: prod.splits option.splits)

lemma foldl_try_record_tx [simp]: "w_tx (foldl try_record w rs) = w_tx w"
  by (induction rs arbitrary: w) simp_all

lemma system_step_tx:
  assumes "system_step A C K gw s s'" and inv: "system_inv A C K gw w0 s"
  shows "w_tx (sy_audit s') = w_tx (sy_audit s)"
  using assms(1)
proof (cases rule: system_step.cases)
  case (refuse R ev now req polls later answer)
  with refused [OF refuse(2,3)] show ?thesis by simp
next
  case (answered i req R ev now polls later answer rs)
  then have "request_ok A C gw (sy_tasks s) (req, Awaiting)"
    using inv by (metis list_all_length system_inv_def)
  then have "router A req = RouteV1" by (simp add: request_ok_def)
  then show ?thesis by (simp add: answered(1,4) serve_route_v1 route_v1_failure)
qed simp_all

lemma system_tx:
  assumes "system_reach A C K gw (system_init (spawn content)) s"
  shows "w_tx (sy_audit s)"
  using assms unfolding system_reach_def
proof (induction rule: rtranclp_induct)
  case base
  show ?case by (simp add: system_init_def spawn_def)
next
  case (step y z)
  then show ?case using system_step_tx system_reach_inv unfolding system_reach_def by blast
qed

text \<open>The queue, the taken and the dropped records after an offer and after a turn of the writer.\<close>

lemma offer_ledger:
  assumes "writer_inv w" and "w_tx w" and "w = writer_run K (spawn content) acts"
  shows "\<lparr>lg_begun = b, lg_open = n, lg_pending = ch_queue (w_chan (try_record w r)),
       lg_taken = taken K (spawn content) (acts @ [TryRecord r]),
       lg_dropped = dropped K (spawn content) (acts @ [TryRecord r]), lg_abandoned = a\<rparr> =
     offer r \<lparr>lg_begun = b, lg_open = n, lg_pending = ch_queue (w_chan w),
       lg_taken = taken K (spawn content) acts, lg_dropped = dropped K (spawn content) acts, lg_abandoned = a\<rparr>"
proof (cases "length (ch_queue (w_chan w)) < AUDIT_QUEUE_CAPACITY")
  case True
  then have "snd (ch_try_send (w_chan w) r) = Sent"
    using assms(1,2) by (simp add: ch_try_send_def writer_inv_def)
  with True assms(1,2) try_record_room [of w r] show ?thesis
    by (simp add: offer_def run_append flip: assms(3))
next
  case False
  then have "snd (ch_try_send (w_chan w) r) \<noteq> Sent"
    using assms(1,2) by (simp add: ch_try_send_def writer_inv_def)
  with False assms(1,2) try_record_no_room [of w r] show ?thesis
    by (simp add: offer_def run_append flip: assms(3))
qed

lemma taken_turn:
  assumes "w = writer_run K (spawn content) acts"
  shows "taken K (spawn content) (acts @ [WriteStep res]) = taken K (spawn content) acts @
      (case ch_queue (w_chan w) of [] \<Rightarrow> [] | r # q \<Rightarrow> [(r, res)])"
    and "dropped K (spawn content) (acts @ [WriteStep res]) = dropped K (spawn content) acts"
  by (simp_all add: run_append ch_try_recv_def flip: assms split: list.split)

lemma queue_turn: "w_tx w \<Longrightarrow> ch_queue (w_chan (write_loop_step K w res)) = tl (ch_queue (w_chan w))"
  by (cases "ch_queue (w_chan w)")
    (simp_all add: write_loop_step_Cons, simp add: write_loop_step_def ch_try_recv_def)

section \<open>The tasks' part\<close>

lemma count_update:
  assumes "i < length xs"
  shows "length (filter P (xs[i := y])) + of_bool (P (xs ! i)) = length (filter P xs) + of_bool (P y)"
proof -
  have "length (filter P xs) = length (filter P (take i xs @ xs ! i # drop (Suc i) xs))"
    by (simp flip: id_take_nth_drop [OF assms])
  then show ?thesis by (simp add: upd_conv_take_nth_drop [OF assms])
qed

lemma metered_in_update:
  assumes "i < length (sy_requests s)" and "sy_requests s ! i = (req, Awaiting)"
    and "sy_requests s' = (sy_requests s)[i := (req, f)]"
  shows "metered_in F s' + of_bool (metered_request req \<and> Awaiting \<in> F) =
    metered_in F s + of_bool (metered_request req \<and> f \<in> F)"
  using count_update [OF assms(1), of "\<lambda>(req, f). metered_request req \<and> f \<in> F" "(req, f)"] assms(2,3)
  by (simp add: metered_in_def)

lemma finished_stays: "pump_step D J E t t' \<Longrightarrow> pm_phase t = Finished \<Longrightarrow> pm_phase t' = Finished"
  by (erule pump_stepE) auto

lemma operation_stays: "pump_step D J E t t' \<Longrightarrow> pm_operation t' = pm_operation t"
  by (erule pump_stepE) simp_all

lemma pump_reach_operation: "pump_reach D J E t t' \<Longrightarrow> pm_operation t' = pm_operation t"
  unfolding pump_reach_def by (induction rule: rtranclp_induct) (simp_all add: operation_stays)

lemma task_for_operation: "task_for C gw req t \<Longrightarrow> pm_operation t = operation_of (rq_path req)"
  unfolding task_for_def using route_v1_task_start(1) pump_reach_operation by metis

lemma task_recorded:
  "task_of_request C gw t \<Longrightarrow> length (pm_recorded t) = of_bool (pm_operation t \<noteq> None \<and> pm_phase t = Finished)"
  using task_for_operation task_records(2) unfolding task_of_request_def metered_request_def by metis

text \<open>A step of a task ends a metered request with one record, or hands nothing over.\<close>

lemma task_step_hands_over:
  assumes "task_of_request C gw t" and "pump_step (cr_effort C) (cr_json C) (cr_sse C) t t'"
  shows "if unfinished t \<and> \<not> unfinished t' then \<exists>r. handed_over t t' = [r]
    else handed_over t t' = [] \<and> unfinished t' = unfinished t"
proof -
  have t': "length (pm_recorded t') = of_bool (pm_operation t' \<noteq> None \<and> pm_phase t' = Finished)"
    by (rule task_recorded [OF task_step_of_request [OF assms]])
  note facts = t' task_recorded [OF assms(1)] operation_stays [OF assms(2)] finished_stays [OF assms(2)]
  show ?thesis
  proof (cases "unfinished t \<and> \<not> unfinished t'")
    case True
    with facts have "length (handed_over t t') = Suc 0" by (auto simp: unfinished_def handed_over_def)
    with True show ?thesis by (simp add: length_Suc_conv)
  next
    case False
    with facts have "handed_over t t' = []" "unfinished t' = unfinished t"
      by (auto simp: unfinished_def handed_over_def of_bool_def split: if_splits)
    with False show ?thesis by (simp only: if_False simp_thms)
  qed
qed

section \<open>Every step of the gateway is a step of the ledger\<close>

lemma ledger_ofI:
  assumes "sy_metered s = b" and "open_requests s = n" and "sy_abandoned s = a"
  shows "ledger_of K content s = \<lparr>lg_begun = b, lg_open = n, lg_pending = ch_queue (w_chan (sy_audit s)),
    lg_taken = taken K (spawn content) (sy_calls s), lg_dropped = dropped K (spawn content) (sy_calls s),
    lg_abandoned = a\<rparr>"
  using assms by (simp add: ledger_of_def)

lemma ledger_answered:
  assumes inv: "system_inv A C K gw (spawn content) s" and tx: "w_tx (sy_audit s)"
    and i: "i < length (sy_requests s)" "sy_requests s ! i = (req, Awaiting)"
    and R_def: "R = serve A C gw (sy_audit s) ev now req polls later answer"
    and rs: "rs = failure_records C gw ev now req polls answer"
    and s': "s' = s\<lparr>sy_audit := rr_audit R,
      sy_requests := (sy_requests s)[i := (req,
        case rr_task R of Some _ \<Rightarrow> Streaming (length (sy_tasks s)) | None \<Rightarrow> Failed rs)],
      sy_tasks := sy_tasks s @ started R, sy_calls := sy_calls s @ map TryRecord rs\<rparr>"
  shows "ledger_step (ledger_of K content s) (ledger_of K content s')"
proof -
  have "request_ok A C gw (sy_tasks s) (req, Awaiting)" using inv i by (metis list_all_length system_inv_def)
  then obtain fw where req: "router A req = RouteV1" "route_prepare C gw req = Inr fw" by (auto simp: request_ok_def)
  have R: "R = route_v1 C gw (sy_audit s) ev now req polls later answer" by (simp add: R_def serve_route_v1 req(1))
  have audit: "sy_audit s' = foldl try_record (sy_audit s) rs" by (simp add: s' R route_v1_failure rs)
  note upd = metered_in_update [OF i, of s']
  show ?thesis
  proof (rule answered_cases [OF req(2), of "sy_audit s" ev now polls later answer, folded R])
    fix t assume t: "rr_task R = Some t" "failure_records C gw ev now req polls answer = []"
    have "unfinished t \<longleftrightarrow> metered_request req"
      using route_v1_task_start [OF t(1) [unfolded R]] by (simp add: unfinished_def metered_request_def)
    moreover have tasks: "sy_tasks s' = sy_tasks s @ [t]"
      and fate: "sy_requests s' = (sy_requests s)[i := (req, Streaming (length (sy_tasks s)))]"
      using t(1) by (simp_all add: s' started_def)
    ultimately have "sy_metered s' = sy_metered s" "open_requests s' = open_requests s"
      "sy_abandoned s' = sy_abandoned s"
      using upd [OF fate, of UNIV] upd [OF fate, of "{Abandoned}"] upd [OF fate, of "{Awaiting}"]
      by (cases "metered_request req"; simp add: sy_metered_def sy_abandoned_def open_requests_def)+
    then have "ledger_of K content s' = ledger_of K content s"
      using t(2) audit rs by (simp add: ledger_of_def, simp add: s')
    then show ?thesis by (simp add: idle)
  next
    assume f: "rr_task R = None" "answer = SendErr"
    then have tasks: "sy_tasks s' = sy_tasks s" and fate: "sy_requests s' = (sy_requests s)[i := (req, Failed rs)]"
      and calls: "sy_calls s' = sy_calls s @ map TryRecord rs"
      by (simp_all add: s' started_def)
    have same: "sy_metered s' = sy_metered s" "sy_abandoned s' = sy_abandoned s"
      and less: "open_requests s' + of_bool (metered_request req) = open_requests s"
      using upd [OF fate, of UNIV] upd [OF fate, of "{Abandoned}"] upd [OF fate, of "{Awaiting}"]
      by (simp_all add: sy_metered_def sy_abandoned_def open_requests_def tasks)
    show ?thesis
    proof (cases "metered_request req")
      case False
      then have "rs = []" using failure_records_ok [OF req(2) f(2), of ev now polls] rs by simp
      with same less False audit calls have "ledger_of K content s' = ledger_of K content s"
        by (simp add: ledger_of_def)
      then show ?thesis by (simp add: idle)
    next
      case True
      then obtain r where r: "rs = [r]" using failure_records_ok [OF req(2) f(2), of ev now polls] rs by auto
      have "ledger_of K content s' = offer r ((ledger_of K content s)\<lparr>lg_open := open_requests s'\<rparr>)"
        using offer_ledger [OF writer_alive [OF inv] tx, of K content "sy_calls s"
            "sy_metered s" "open_requests s'" r "sy_abandoned s"] inv
        by (simp add: ledger_of_def same audit calls r system_inv_def)
      then show ?thesis using end_request [of "ledger_of K content s" "open_requests s'" r] less True
        by (simp add: ledger_of_def)
    qed
  qed
qed

lemma ledger_task:
  assumes inv: "system_inv A C K gw (spawn content) s" and tx: "w_tx (sy_audit s)" and i: "i < length (sy_tasks s)"
    and step: "pump_step (cr_effort C) (cr_json C) (cr_sse C) (sy_tasks s ! i) t'"
    and rs: "rs = handed_over (sy_tasks s ! i) t'"
    and s': "s' = s\<lparr>sy_audit := foldl try_record (sy_audit s) rs, sy_tasks := (sy_tasks s)[i := t'],
      sy_calls := sy_calls s @ map TryRecord rs\<rparr>"
  shows "ledger_step (ledger_of K content s) (ledger_of K content s')"
proof -
  have "task_of_request C gw (sy_tasks s ! i)" using inv i by (simp add: system_inv_def list_all_length)
  note hands = task_step_hands_over [OF this step, folded rs]
  note count = count_update [OF i, of unfinished t']
  have same: "sy_metered s' = sy_metered s" "sy_abandoned s' = sy_abandoned s" "metered_in F s' = metered_in F s" for F
    by (simp_all add: s' sy_metered_def sy_abandoned_def metered_in_def)
  show ?thesis
  proof (cases "unfinished (sy_tasks s ! i) \<and> \<not> unfinished t'")
    case True
    with hands obtain r where r: "rs = [r]" by auto
    have less: "open_requests s = Suc (open_requests s')"
      using True count by (simp add: open_requests_def same(3), simp add: s')
    have "ledger_of K content s' = offer r ((ledger_of K content s)\<lparr>lg_open := open_requests s'\<rparr>)"
      using offer_ledger [OF writer_alive [OF inv] tx, of K content "sy_calls s"
          "sy_metered s" "open_requests s'" r "sy_abandoned s"] inv
      by (simp add: ledger_of_def same system_inv_def) (simp add: s' r)
    then show ?thesis using end_request [of "ledger_of K content s" "open_requests s'" r] less
      by (simp add: ledger_of_def)
  next
    case False
    with hands have "rs = []" "unfinished t' = unfinished (sy_tasks s ! i)" by simp_all
    with count have "ledger_of K content s' = ledger_of K content s"
      by (simp add: ledger_of_def same open_requests_def, simp add: s')
    then show ?thesis by (simp add: idle)
  qed
qed

lemma ledger_writer:
  assumes inv: "system_inv A C K gw (spawn content) s" and tx: "w_tx (sy_audit s)"
    and s': "s' = s\<lparr>sy_audit := write_loop_step K (sy_audit s) res, sy_calls := sy_calls s @ [WriteStep res]\<rparr>"
  shows "ledger_step (ledger_of K content s) (ledger_of K content s')"
proof -
  have w: "sy_audit s = writer_run K (spawn content) (sy_calls s)" using inv by (simp add: system_inv_def)
  have same: "sy_metered s' = sy_metered s" "sy_abandoned s' = sy_abandoned s" "open_requests s' = open_requests s"
    by (simp_all add: s' sy_metered_def sy_abandoned_def open_requests_def metered_in_def)
  show ?thesis
  proof (cases "ch_queue (w_chan (sy_audit s))")
    case Nil
    then have "ledger_of K content s' = ledger_of K content s"
      using taken_turn [OF w, of res] queue_turn [OF tx, of K res]
      by (simp add: ledger_of_def same, simp add: s')
    then show ?thesis by (simp add: idle)
  next
    case (Cons r q)
    then have "ledger_of K content s' = (ledger_of K content s)\<lparr>lg_pending := q,
        lg_taken := taken K (spawn content) (sy_calls s) @ [(r, res)]\<rparr>"
      using taken_turn [OF w, of res] queue_turn [OF tx, of K res]
      by (simp add: ledger_of_def same, simp add: s')
    with take_record [of "ledger_of K content s" r q res] Cons show ?thesis by (simp add: ledger_of_def)
  qed
qed

lemma system_step_ledger:
  assumes "system_reach A C K gw (system_init (spawn content)) s" and "system_step A C K gw s s'"
  shows "ledger_step (ledger_of K content s) (ledger_of K content s')"
proof -
  have inv: "system_inv A C K gw (spawn content) s" by (rule system_reach_inv [OF assms(1)])
  have tx: "w_tx (sy_audit s)" by (rule system_tx [OF assms(1)])
  from assms(2) show ?thesis
  proof (cases rule: system_step.cases)
    case (refuse R ev now req polls later answer)
    with refused [OF refuse(2,3)] have "s' = s" by simp
    then show ?thesis by (simp add: idle)
  next
    case (send req fw)
    then have "ledger_of K content s' = (if metered_request req
        then (ledger_of K content s)\<lparr>lg_begun := sy_metered s + 1, lg_open := open_requests s + 1\<rparr>
        else ledger_of K content s)"
      by (simp add: ledger_of_def sy_metered_def sy_abandoned_def open_requests_def metered_in_def)
    with begin_request [of "ledger_of K content s"] show ?thesis by (auto simp: ledger_of_def idle)
  next
    case (answered i req R ev now polls later answer rs)
    then show ?thesis by (intro ledger_answered [OF inv tx])
  next
    case (leave i req)
    then have fate: "sy_requests s' = (sy_requests s)[i := (req, Abandoned)]" by simp
    note upd = metered_in_update [OF leave(2,3) fate]
    show ?thesis
    proof (cases "metered_request req")
      case True
      then have "open_requests s = Suc (open_requests s')" "sy_metered s' = sy_metered s"
        "sy_abandoned s' = sy_abandoned s + 1"
        using upd [of UNIV] upd [of "{Abandoned}"] upd [of "{Awaiting}"] leave(1)
        by (simp_all add: sy_metered_def sy_abandoned_def open_requests_def)
      then show ?thesis
        using abandon_request [of "ledger_of K content s" "open_requests s'"] leave(1) by (simp add: ledger_of_def)
    next
      case False
      then have "open_requests s' = open_requests s" "sy_metered s' = sy_metered s" "sy_abandoned s' = sy_abandoned s"
        using upd [of UNIV] upd [of "{Abandoned}"] upd [of "{Awaiting}"] leave(1)
        by (simp_all add: sy_metered_def sy_abandoned_def open_requests_def)
      then have "ledger_of K content s' = ledger_of K content s" by (simp add: ledger_of_def) (simp add: leave(1))
      then show ?thesis by (simp add: idle)
    qed
  next
    case (task_step i t' rs)
    then show ?thesis by (intro ledger_task [OF inv tx])
  next
    case (writer_turn res)
    then show ?thesis by (intro ledger_writer [OF inv tx])
  qed
qed

lemma system_ledger:
  assumes "system_reach A C K gw (system_init (spawn content)) s"
  shows "ledger_step\<^sup>*\<^sup>* ledger_init (ledger_of K content s)"
  using assms unfolding system_reach_def
proof (induction rule: rtranclp_induct)
  case base
  show ?case
    by (simp add: ledger_of_def ledger_init_def open_requests_def sy_metered_def sy_abandoned_def metered_in_def
        system_init_def)
next
  case (step y z)
  then show ?case
    using system_step_ledger [of A C K gw content y z]
    by (auto simp: system_reach_def intro: rtranclp.rtrancl_into_rtrancl)
qed

text \<open>The account of the metered requests, in terms of the state.\<close>

lemma metered_account:
  assumes "system_reach A C K gw (system_init (spawn content)) s"
  shows "sy_metered s = open_requests s + length (ch_queue (w_chan (sy_audit s))) +
    length (taken K (spawn content) (sy_calls s)) + length (dropped K (spawn content) (sy_calls s)) + sy_abandoned s"
  using ledger_reach_balanced [OF system_ledger [OF assms]] by (simp add: balanced_def ledger_of_def)

section \<open>Properties\<close>

text \<open>
  (C11) The gateway refines the ledger: the ledger computed from a reachable state is one the ledger can
  reach, and every further step of the gateway, in any interleaving of requests, response tasks and
  writer, is a step of it. So the requests sent upstream on a metered endpoint are exactly accounted
  for: each is still open (awaiting the answer, or its task has not finished), or its caller left before
  the answer, or its one record waits in the queue, was taken by the writer or was dropped, where taken
  and dropped are those of the actual calls on the writer. The file is the old content followed by the
  bytes of the taken records in order; stderr reports a drop exactly when a record was dropped and a
  failed write exactly when the write of a taken one failed.
\<close>

theorem system_refines_ledger:
  assumes "system_reach A C K gw (system_init (spawn content)) s"
  shows "let l = ledger_of K content s; w = sy_audit s; ts = taken K (spawn content) (sy_calls s);
      ds = dropped K (spawn content) (sy_calls s) in
    ledger_step\<^sup>*\<^sup>* ledger_init l \<and>
    (\<forall>s'. system_step A C K gw s s' \<longrightarrow> ledger_step l (ledger_of K content s')) \<and>
    sy_metered s = open_requests s + length (ch_queue (w_chan w)) + length ts + length ds + sy_abandoned s \<and>
    w = writer_run K (spawn content) (sy_calls s) \<and> length (ch_queue (w_chan w)) \<le> 2048 \<and>
    w_file w = content @ concat (map (bytes_of K) ts) \<and>
    (AUDIT_DROPPED \<in> set (w_stderr w) \<longleftrightarrow> ds \<noteq> []) \<and>
    (AUDIT_WRITE_FAILED \<in> set (w_stderr w) \<longleftrightarrow> list_ex (write_failed K) ts)"
proof -
  note state = writer_state [OF system_reach_inv [OF assms]]
  show ?thesis
    unfolding Let_def
    by (intro conjI allI impI system_ledger [OF assms] system_step_ledger [OF assms]
        metered_account [OF assms] state)
qed

theorem system_refines_ledger_witness:
  "\<exists>s :: unit system. system_reach plain_axum plain_crates blank_codec plain_gateway
       (system_init (spawn ''x'')) s \<and>
     sy_metered s = 1 \<and> w_file (sy_audit s) = ''x'' @ [CHR 0x0A] \<and>
     map fst (taken blank_codec (spawn ''x'') (sy_calls s)) = [failed_record] \<and>
     ledger_step\<^sup>*\<^sup>* ledger_init (ledger_of blank_codec ''x'' s)"
proof -
  let ?f = "failed_system ''x''"
  let ?s = "?f\<lparr>sy_audit := write_loop_step blank_codec (sy_audit ?f) WroteAll,
    sy_calls := sy_calls ?f @ [WriteStep WroteAll]\<rparr>"
  have r: "system_reach plain_axum plain_crates blank_codec plain_gateway (system_init (spawn ''x'')) ?s"
    using failed_system_reached writer_turn unfolding system_reach_def
    by (rule rtranclp.rtrancl_into_rtrancl)
  have t: "taken blank_codec (spawn ''x'') (sy_calls ?s) = [(failed_record, WroteAll)]" "sy_metered ?s = 1"
    using empty_request_sent(2)
    by (simp_all add: failed_system_def try_record_def ch_try_send_def ch_try_recv_def spawn_def channel_new_def
        AUDIT_QUEUE_CAPACITY_def sy_metered_def metered_in_def)
  note refines = system_refines_ledger [OF r, unfolded Let_def]
  from refines have "w_file (sy_audit ?s) = ''x'' @ concat (map (bytes_of blank_codec)
      (taken blank_codec (spawn ''x'') (sy_calls ?s)))" by blast
  moreover from refines have "ledger_step\<^sup>*\<^sup>* ledger_init (ledger_of blank_codec ''x'' ?s)" by blast
  ultimately have "w_file (sy_audit ?s) = ''x'' @ [CHR 0x0A]"
    "ledger_step\<^sup>*\<^sup>* ledger_init (ledger_of blank_codec ''x'' ?s)"
    unfolding t(1) by (simp add: bytes_of_def line_of_def blank_codec_def, simp)
  with r t show ?thesis by (intro exI [of _ ?s]) simp
qed

end
