(* ===== verification/Drain.thy ===== *)
theory Drain
  imports Ledger
begin

text \<open>
  The running gateway comes to rest once no more requests are sent. From every reachable state there is
  a run in which every request is answered or left, every response task ends and the writer empties its
  queue, and every fair run does so: one in which no request waits for its answer for ever and no
  unfinished task stands still for ever. A task's steps include those of its caller and of its upstream,
  so fairness asks that none of the three stalls; the writer needs no assumption.
\<close>

section \<open>A single task\<close>

text \<open>A task that was started can end, whatever the caller and the upstream did so far.\<close>

lemma task_can_finish:
  assumes "pump_reach D J E (pump_init mid oper status s h eff polls chunks clean) t"
  shows "\<exists>t'. pump_reach D J E t t' \<and> pm_phase t' = Finished"
  using assms
proof (induction "work_left t" arbitrary: t rule: less_induct)
  case less
  show ?case
  proof (cases "pm_phase t = Finished")
    case True
    then show ?thesis by (auto simp: pump_reach_def)
  next
    case False
    have "caller_inv t" "ch_cap (pm_chan t) = RESPONSE_CHANNEL_CAPACITY"
      using pump_reach_inv [OF less.prems refl] by (auto simp: pump_inv_def flow_inv_def)
    from pump_progress [OF this(1) False this(2), of D J E] obtain u
      where u: "pump_step D J E t u" by blast
    have "pump_reach D J E (pump_init mid oper status s h eff polls chunks clean) u"
      using less.prems u by (auto simp: pump_reach_def)
    from less.hyps [OF work_left_decreases [OF u] this] obtain t'
      where "pump_reach D J E u t'" "pm_phase t' = Finished" by blast
    with u show ?thesis by (auto simp: pump_reach_def intro: converse_rtranclp_into_rtranclp)
  qed
qed

lemma request_task_can_finish:
  assumes "task_of_request C gw t"
  shows "\<exists>t'. pump_reach (cr_effort C) (cr_json C) (cr_sse C) t t' \<and> pm_phase t' = Finished"
proof -
  from assms obtain w ev now req polls later answer t0 where
    t0: "rr_task (route_v1 C gw w ev now req polls later answer) = Some t0"
      "pump_reach (cr_effort C) (cr_json C) (cr_sse C) t0 t"
    unfolding task_of_request_def task_for_def by blast
  show ?thesis
    by (rule route_v1_task [OF t0(1), of "cr_effort C" "cr_json C" "cr_sse C"])
      (rule task_can_finish, erule pump_reach_trans [OF _ t0(2)])
qed

section \<open>Steps without new requests\<close>

definition task_moves ::
  "('u, 'd, 'v) crates \<Rightarrow> nat \<Rightarrow> 'e system \<Rightarrow> 'e system \<Rightarrow> bool" where
  "task_moves C i s s' \<longleftrightarrow>
     i < length (sy_tasks s) \<and>
     (\<exists>t'. pump_step (cr_effort C) (cr_json C) (cr_sse C) (sy_tasks s ! i) t' \<and>
        s' = s\<lparr>sy_audit := foldl try_record (sy_audit s) (handed_over (sy_tasks s ! i) t'),
               sy_tasks := (sy_tasks s)[i := t'],
               sy_calls := sy_calls s @ map TryRecord (handed_over (sy_tasks s ! i) t')\<rparr>)"

definition writer_moves :: "record_codec \<Rightarrow> 'e system \<Rightarrow> 'e system \<Rightarrow> bool" where
  "writer_moves K s s' \<longleftrightarrow> 
     (\<exists>res. s' = s\<lparr>sy_audit := write_loop_step K (sy_audit s) res, sy_calls := sy_calls s @ [WriteStep res]\<rparr>)"

definition settle_step ::
  "('u, 'd, 'v) crates \<Rightarrow> record_codec \<Rightarrow> 'e system \<Rightarrow> 'e system \<Rightarrow> bool" where
  "settle_step C K s s' \<longleftrightarrow> (\<exists>i. task_moves C i s s') \<or> writer_moves K s s'"

lemma settle_stepE:
  assumes "settle_step C K s s'"
  obtains (task) i where "task_moves C i s s'" | (writer) "writer_moves K s s'"
  using assms by (auto simp: settle_step_def)

lemma settle_system_step: "settle_step C K s s' \<Longrightarrow> system_step A C K gw s s'"
  by (auto simp: settle_step_def task_moves_def writer_moves_def intro: task_step writer_turn)

lemma settle_reach_system: "(settle_step C K)\<^sup>*\<^sup>* s s' \<Longrightarrow> system_reach A C K gw s s'"
  unfolding system_reach_def by (rule rtranclp_mono [THEN predicate2D]) (auto intro: settle_system_step)

lemma settle_step_keeps:
  assumes "settle_step C K s s'"
  shows "sy_requests s' = sy_requests s \<and> length (sy_tasks s') = length (sy_tasks s)"
  using assms by (rule settle_stepE) (auto simp: task_moves_def writer_moves_def)

lemma settle_reach_keeps:
  "(settle_step C K)\<^sup>*\<^sup>* s s' \<Longrightarrow> sy_requests s' = sy_requests s \<and>
    length (sy_tasks s') = length (sy_tasks s)"
  by (induction rule: rtranclp_induct) (auto dest: settle_step_keeps)

section \<open>A run that comes to rest\<close>

lemma lift_task_run:
  assumes "pump_reach (cr_effort C) (cr_json C) (cr_sse C) (sy_tasks s ! i) t'" and "i < length (sy_tasks s)"
  shows "\<exists>s'. (settle_step C K)\<^sup>*\<^sup>* s s' \<and> sy_tasks s' = (sy_tasks s)[i := t']"
  using assms(1) unfolding pump_reach_def
proof (induction rule: rtranclp_induct)
  case base
  show ?case by (intro exI [of _ s]) simp
next
  case (step y z)
  then obtain s1 where s1: "(settle_step C K)\<^sup>*\<^sup>* s s1" "sy_tasks s1 = (sy_tasks s)[i := y]" by blast
  let ?s = "s1\<lparr>sy_audit := foldl try_record (sy_audit s1) (handed_over (sy_tasks s1 ! i) z),
      sy_tasks := (sy_tasks s1)[i := z],
      sy_calls := sy_calls s1 @ map TryRecord (handed_over (sy_tasks s1 ! i) z)\<rparr>"
  have "task_moves C i s1 ?s" using s1(2) step(2) assms(2) by (auto simp: task_moves_def)
  then have "settle_step C K s1 ?s" unfolding settle_step_def by blast
  with s1 show ?case
    by (intro exI [of _ ?s]) (auto intro: rtranclp.rtrancl_into_rtrancl)
qed

lemma tasks_can_finish:
  assumes "system_reach A C K gw (system_init w0) s" and "n \<le> length (sy_tasks s)"
  shows "\<exists>s'. (settle_step C K)\<^sup>*\<^sup>* s s' \<and> (\<forall>i < n. pm_phase (sy_tasks s' ! i) = Finished)"
  using assms(2)
proof (induction n)
  case 0
  show ?case by (intro exI [of _ s]) simp
next
  case (Suc n)
  then obtain s1 where s1: "(settle_step C K)\<^sup>*\<^sup>* s s1" "\<forall>i < n. pm_phase (sy_tasks s1 ! i) = Finished" by auto
  have n: "n < length (sy_tasks s1)" using settle_reach_keeps [OF s1(1)] Suc.prems by simp
  have "system_reach A C K gw (system_init w0) s1"
    using assms(1) settle_reach_system [OF s1(1), of A gw] by (simp add: system_reach_def)
  then have "task_of_request C gw (sy_tasks s1 ! n)"
    using system_reach_inv [of A C K gw w0 s1] n by (simp add: system_inv_def list_all_length)
  then obtain t' where t': "pump_reach (cr_effort C) (cr_json C) (cr_sse C) (sy_tasks s1 ! n) t'"
      "pm_phase t' = Finished" using request_task_can_finish by blast
  obtain s2 where "(settle_step C K)\<^sup>*\<^sup>* s1 s2" "sy_tasks s2 = (sy_tasks s1)[n := t']"
    using lift_task_run [OF t'(1) n] by blast
  with s1 t'(2) n show ?case
    by (intro exI [of _ s2]) (auto simp: nth_list_update less_Suc_eq)
qed

lemma writer_can_drain:
  "\<exists>s'. (settle_step C K)\<^sup>*\<^sup>* s s' \<and> sy_tasks s' = sy_tasks s \<and> ch_queue (w_chan (sy_audit s')) = []"
proof (induction "ch_queue (w_chan (sy_audit s))" arbitrary: s)
  case Nil
  then show ?case by (intro exI [of _ s]) simp
next
  case (Cons r q)
  let ?s = "s\<lparr>sy_audit := write_loop_step K (sy_audit s) WroteAll, sy_calls := sy_calls s @ [WriteStep WroteAll]\<rparr>"
  have "settle_step C K s ?s" by (auto simp: settle_step_def writer_moves_def)
  moreover have "ch_queue (w_chan (sy_audit ?s)) = q"
    using write_loop_step_Cons(1) [OF Cons.hyps(2) [symmetric]] by simp
  ultimately show ?case
    using Cons.hyps(1) [of ?s] by (auto intro: converse_rtranclp_into_rtranclp)
qed

section \<open>Requests that await their answer\<close>

definition awaiting :: "'e system \<Rightarrow> nat" where
  "awaiting s = length (filter (\<lambda>q. snd q = Awaiting) (sy_requests s))"

lemma awaiting_none: "awaiting s = 0 \<longleftrightarrow> (\<forall>i < length (sy_requests s). snd (sy_requests s ! i) \<noteq> Awaiting)"
  by (simp add: awaiting_def filter_empty_conv all_set_conv_all_nth)

text \<open>The handler of the request sent as number i moves on: it gets its answer, or its caller leaves.\<close>

definition handler_moves ::
  "axum_lib \<Rightarrow> ('u, 'd, 'v) crates \<Rightarrow> record_codec \<Rightarrow> 'u Gateway \<Rightarrow> nat \<Rightarrow> 'e system \<Rightarrow> 'e system \<Rightarrow> bool" where
  "handler_moves A C K gw i s s' \<longleftrightarrow>
     i < length (sy_requests s) \<and> snd (sy_requests s ! i) = Awaiting \<and>
     snd (sy_requests s' ! i) \<noteq> Awaiting \<and> system_step A C K gw s s'"

definition quiet_step ::
  "axum_lib \<Rightarrow> ('u, 'd, 'v) crates \<Rightarrow> record_codec \<Rightarrow> 'u Gateway \<Rightarrow> 'e system \<Rightarrow> 'e system \<Rightarrow> bool" where
  "quiet_step A C K gw s s' \<longleftrightarrow> (\<exists>i. handler_moves A C K gw i s s') \<or> settle_step C K s s'"

lemma quiet_system_step: "quiet_step A C K gw s s' \<Longrightarrow> system_step A C K gw s s'"
  by (auto simp: quiet_step_def handler_moves_def intro: settle_system_step)

lemma awaiting_moves:
  assumes "i < length xs" and "snd (xs ! i) = Awaiting" and "f \<noteq> Awaiting"
  shows "length (filter (\<lambda>q. snd q = Awaiting) (xs[i := (req, f)])) < length (filter (\<lambda>q. snd q = Awaiting) xs)"
  using count_update [OF assms(1), of "\<lambda>q. snd q = Awaiting" "(req, f)"] assms(2,3) by simp

lemma handler_moves_awaiting:
  assumes "handler_moves A C K gw i s s'"
  shows "awaiting s' < awaiting s"
proof -
  from assms have i: "i < length (sy_requests s)" "snd (sy_requests s ! i) = Awaiting"
      "snd (sy_requests s' ! i) \<noteq> Awaiting" and step: "system_step A C K gw s s'"
    by (simp_all add: handler_moves_def)
  from step show ?thesis
  proof (cases rule: system_step.cases)
    case (answered j req R ev now polls later answer rs)
    then show ?thesis by (auto simp: awaiting_def split: option.split intro!: awaiting_moves)
  next
    case (leave j req)
    then show ?thesis by (auto simp: awaiting_def intro!: awaiting_moves)
  qed (use i in \<open>simp_all add: nth_append\<close>)
qed

lemma settle_step_awaiting: "settle_step C K s s' \<Longrightarrow> awaiting s' = awaiting s"
  using settle_step_keeps [of C K s s'] by (simp add: awaiting_def)

lemma callers_can_leave:
  "\<exists>s'. (quiet_step A C K gw)\<^sup>*\<^sup>* s s' \<and> awaiting s' = 0"
proof (induction "awaiting s" arbitrary: s rule: less_induct)
  case less
  show ?case
  proof (cases "awaiting s = 0")
    case False
    then obtain i where i: "i < length (sy_requests s)" "snd (sy_requests s ! i) = Awaiting"
      by (auto simp: awaiting_none)
    then obtain req where req: "sy_requests s ! i = (req, Awaiting)" by (metis prod.collapse)
    let ?s = "s\<lparr>sy_requests := (sy_requests s)[i := (req, Abandoned)]\<rparr>"
    have moves: "handler_moves A C K gw i s ?s"
      using leave [OF i(1) req] i by (simp add: handler_moves_def)
    from less [OF handler_moves_awaiting [OF moves]] obtain s' where
      "(quiet_step A C K gw)\<^sup>*\<^sup>* ?s s'" "awaiting s' = 0" by blast
    moreover have "quiet_step A C K gw s ?s" unfolding quiet_step_def using moves by blast
    ultimately show ?thesis by (blast intro: converse_rtranclp_into_rtranclp)
  qed blast
qed

text \<open>At rest: no request awaits its answer, every task has ended and nothing is queued.\<close>

definition at_rest :: "'e system \<Rightarrow> bool" where
  "at_rest s \<longleftrightarrow> awaiting s = 0 \<and> list_all (\<lambda>t. pm_phase t = Finished) (sy_tasks s) \<and>
     ch_queue (w_chan (sy_audit s)) = []"

lemma metered_awaiting: "metered_in {Awaiting} s \<le> awaiting s"
  unfolding metered_in_def awaiting_def by (rule length_filter_mono) auto

lemma at_rest_accounts:
  assumes "system_reach A C K gw (system_init (spawn content)) s" and "at_rest s"
  shows "sy_metered s = length (taken K (spawn content) (sy_calls s)) +
    length (dropped K (spawn content) (sy_calls s)) + sy_abandoned s"
proof -
  have "filter unfinished (sy_tasks s) = []"
    using assms(2) by (auto simp: at_rest_def list_all_iff unfinished_def filter_empty_conv)
  then have "open_requests s = 0" using assms(2) metered_awaiting [of s] by (simp add: open_requests_def at_rest_def)
  with metered_account [OF assms(1)] assms(2) show ?thesis by (simp add: at_rest_def)
qed

lemma settle_reach_quiet: "(settle_step C K)\<^sup>*\<^sup>* s s' \<Longrightarrow> (quiet_step A C K gw)\<^sup>*\<^sup>* s s'"
  by (rule rtranclp_mono [THEN predicate2D]) (auto simp: quiet_step_def)

lemma quiet_reach_system: "(quiet_step A C K gw)\<^sup>*\<^sup>* s s' \<Longrightarrow> system_reach A C K gw s s'"
  unfolding system_reach_def by (rule rtranclp_mono [THEN predicate2D]) (auto intro: quiet_system_step)

lemma system_can_drain:
  assumes "system_reach A C K gw (system_init w0) s"
  shows "\<exists>s'. (quiet_step A C K gw)\<^sup>*\<^sup>* s s' \<and> at_rest s'"
proof -
  obtain s0 where s0: "(quiet_step A C K gw)\<^sup>*\<^sup>* s s0" "awaiting s0 = 0" using callers_can_leave by blast
  have "system_reach A C K gw (system_init w0) s0"
    using assms quiet_reach_system [OF s0(1)] unfolding system_reach_def by (rule rtranclp_trans)
  then obtain s1 where s1: "(settle_step C K)\<^sup>*\<^sup>* s0 s1"
      "\<forall>i < length (sy_tasks s0). pm_phase (sy_tasks s1 ! i) = Finished"
    using tasks_can_finish [OF _ order.refl] by blast
  obtain s2 where s2: "(settle_step C K)\<^sup>*\<^sup>* s1 s2" "sy_tasks s2 = sy_tasks s1"
      "ch_queue (w_chan (sy_audit s2)) = []" using writer_can_drain by blast
  have "sy_requests s2 = sy_requests s0" using settle_reach_keeps [OF s1(1)] settle_reach_keeps [OF s2(1)] by simp
  then have "at_rest s2"
    using s0(2) s1(2) s2(2,3) settle_reach_keeps [OF s1(1)] by (simp add: at_rest_def list_all_length awaiting_def)
  with s0(1) settle_reach_quiet [OF s1(1)] settle_reach_quiet [OF s2(1)] show ?thesis
    by (blast intro: rtranclp_trans)
qed

section \<open>Fair runs\<close>

definition quiet_run ::
  "axum_lib \<Rightarrow> ('u, 'd, 'v) crates \<Rightarrow> record_codec \<Rightarrow> 'u Gateway \<Rightarrow> (nat \<Rightarrow> 'e system) \<Rightarrow> bool" where
  "quiet_run A C K gw r \<longleftrightarrow> (\<forall>n. quiet_step A C K gw (r n) (r (Suc n)))"

definition fair_run ::
  "axum_lib \<Rightarrow> ('u, 'd, 'v) crates \<Rightarrow> record_codec \<Rightarrow> 'u Gateway \<Rightarrow> (nat \<Rightarrow> 'e system) \<Rightarrow> bool" where
  "fair_run A C K gw r \<longleftrightarrow>
     (\<forall>n i. i < length (sy_requests (r n)) \<and> snd (sy_requests (r n) ! i) = Awaiting \<longrightarrow>
        (\<exists>m \<ge> n. handler_moves A C K gw i (r m) (r (Suc m)))) \<and>
     (\<forall>n i. i < length (sy_tasks (r n)) \<and> pm_phase (sy_tasks (r n) ! i) \<noteq> Finished \<longrightarrow>
        (\<exists>m \<ge> n. task_moves C i (r m) (r (Suc m))))"

definition total_work :: "'e system \<Rightarrow> nat" where
  "total_work s = sum_list (map work_left (sy_tasks s))"

lemma task_moves_work:
  assumes "task_moves C i s s'"
  shows "total_work s' < total_work s"
proof -
  from assms obtain t' where i: "i < length (sy_tasks s)"
      and t': "pump_step (cr_effort C) (cr_json C) (cr_sse C) (sy_tasks s ! i) t'"
        "sy_tasks s' = (sy_tasks s)[i := t']"
    by (auto simp: task_moves_def)
  have "total_work s' + work_left (sy_tasks s ! i) = total_work s + work_left t'"
    using i member_le_sum_list [of "work_left (sy_tasks s ! i)" "map work_left (sy_tasks s)"]
    by (simp add: total_work_def t'(2) map_update sum_list_update)
  with work_left_decreases [OF t'(1)] show ?thesis by simp
qed

lemma writer_moves_work [simp]: "writer_moves K s s' \<Longrightarrow> total_work s' = total_work s"
  by (auto simp: writer_moves_def total_work_def)

text \<open>What never grows does not shrink for ever.\<close>

lemma eventually_constant:
  fixes f :: "nat \<Rightarrow> nat"
  assumes "\<And>n. N0 \<le> n \<Longrightarrow> f (Suc n) \<le> f n"
  shows "\<exists>N \<ge> N0. \<forall>n \<ge> N. f (Suc n) = f n"
proof -
  define k where "k = arg_min (\<lambda>k. f (N0 + k)) (\<lambda>_. True)"
  have least: "f (N0 + k) \<le> f (N0 + m)" for m unfolding k_def by (rule arg_min_nat_le) simp
  have below: "f (N0 + k + m) \<le> f (N0 + k)" for m
  proof (induction m)
    case (Suc m)
    have "f (Suc (N0 + k + m)) \<le> f (N0 + k + m)" by (rule assms) simp
    with Suc show ?case by simp
  qed simp
  have same: "f (N0 + k + m) = f (N0 + k)" for m
    using below [of m] least [of "k + m"] by (simp add: add.assoc)
  have "f (Suc n) = f n" if "N0 + k \<le> n" for n
    using same [of "n - (N0 + k)"] same [of "Suc n - (N0 + k)"] that by (simp add: Suc_diff_le)
  then show ?thesis by (intro exI [of _ "N0 + k"]) simp
qed

lemma handlers_settle:
  assumes "quiet_run A C K gw r"
  shows "\<exists>N. \<forall>n \<ge> N. settle_step C K (r n) (r (Suc n)) \<and> (\<forall>i. \<not> handler_moves A C K gw i (r n) (r (Suc n)))"
proof -
  have steps: "quiet_step A C K gw (r n) (r (Suc n))" for n using assms by (simp add: quiet_run_def)
  have "awaiting (r (Suc n)) \<le> awaiting (r n)" for n
    using steps [of n] unfolding quiet_step_def
    by (auto dest: settle_step_awaiting handler_moves_awaiting less_imp_le)
  then obtain N where N: "\<forall>n \<ge> N. awaiting (r (Suc n)) = awaiting (r n)"
    using eventually_constant [of 0 "\<lambda>n. awaiting (r n)"] by blast
  then have "\<not> handler_moves A C K gw i (r n) (r (Suc n))" if "n \<ge> N" for n i
    using handler_moves_awaiting that by (metis less_irrefl)
  with steps [unfolded quiet_step_def] show ?thesis by blast
qed

lemma tasks_settle:
  assumes "\<And>n. N0 \<le> n \<Longrightarrow> settle_step C K (r n) (r (Suc n))"
  shows "\<exists>N \<ge> N0. \<forall>n \<ge> N. writer_moves K (r n) (r (Suc n)) \<and> (\<forall>i. \<not> task_moves C i (r n) (r (Suc n)))"
proof -
  have "total_work (r (Suc n)) \<le> total_work (r n)" if "N0 \<le> n" for n
    using assms [OF that] by (rule settle_stepE) (auto dest: task_moves_work)
  then obtain N where N: "N \<ge> N0" "\<forall>n \<ge> N. total_work (r (Suc n)) = total_work (r n)"
    using eventually_constant [of N0 "\<lambda>n. total_work (r n)"] by blast
  then have "\<not> task_moves C i (r n) (r (Suc n))" if "n \<ge> N" for n i
    using task_moves_work that by (metis less_irrefl)
  with assms [unfolded settle_step_def] N(1) show ?thesis by (meson order_trans)
qed

lemma writer_moves_queue:
  "writer_moves K s s' \<Longrightarrow> length (ch_queue (w_chan (sy_audit s'))) = length (ch_queue (w_chan (sy_audit s))) - 1"
proof (cases "ch_queue (w_chan (sy_audit s))")
  case Nil
  then show "writer_moves K s s' \<Longrightarrow> ?thesis"
    by (auto simp: writer_moves_def write_loop_step_def ch_try_recv_def ch_drop_rx_def)
qed (auto simp: writer_moves_def write_loop_step_Cons(1))

lemma writer_empties:
  assumes "\<forall>n \<ge> N. writer_moves K (r n) (r (Suc n))"
  shows "sy_tasks (r (N + k)) = sy_tasks (r N) \<and> sy_requests (r (N + k)) = sy_requests (r N) \<and>
    length (ch_queue (w_chan (sy_audit (r (N + k))))) = length (ch_queue (w_chan (sy_audit (r N)))) - k"
proof (induction k)
  case 0
  show ?case by simp
next
  case (Suc k)
  have w: "writer_moves K (r (N + k)) (r (Suc (N + k)))" using assms by simp
  with Suc.IH writer_moves_queue [OF w] show ?case by (auto simp: writer_moves_def)
qed

lemma fair_run_rests:
  assumes "quiet_run A C K gw r" and fair: "fair_run A C K gw r"
  shows "\<exists>N. \<forall>n \<ge> N. at_rest (r n)"
proof -
  from handlers_settle [OF assms(1)] obtain N0 where
    N0: "\<forall>n \<ge> N0. settle_step C K (r n) (r (Suc n)) \<and> (\<forall>i. \<not> handler_moves A C K gw i (r n) (r (Suc n)))"
    by blast
  then obtain N where N: "N \<ge> N0" "\<forall>n \<ge> N. writer_moves K (r n) (r (Suc n))"
      "\<forall>n \<ge> N. \<forall>i. \<not> task_moves C i (r n) (r (Suc n))"
    using tasks_settle [of N0 C K r] by blast
  have no_moves: "\<forall>n \<ge> N. \<forall>i. \<not> handler_moves A C K gw i (r n) (r (Suc n))" using N0 N(1) by (meson order_trans)
  have "list_all (\<lambda>t. pm_phase t = Finished) (sy_tasks (r N))"
    using fair N(3) unfolding fair_run_def list_all_length by blast
  moreover have "awaiting (r N) = 0"
    using fair no_moves unfolding fair_run_def awaiting_none by blast
  ultimately have "at_rest (r (N + k))" if "k \<ge> length (ch_queue (w_chan (sy_audit (r N))))" for k
    using writer_empties [OF N(2), of k] that by (simp add: at_rest_def awaiting_def)
  then have "at_rest (r n)" if "n \<ge> N + length (ch_queue (w_chan (sy_audit (r N))))" for n
    using that by (metis le_add_diff_inverse add_leE nat_add_left_cancel_le)
  then show ?thesis by blast
qed

lemma quiet_run_reach:
  assumes "quiet_run A C K gw r" and "system_reach A C K gw s0 (r 0)"
  shows "system_reach A C K gw s0 (r n)"
proof (induction n)
  case (Suc n)
  have "system_step A C K gw (r n) (r (Suc n))"
    using assms(1) by (simp add: quiet_run_def quiet_system_step)
  with Suc show ?case by (simp add: system_reach_def)
qed (rule assms(2))

section \<open>Properties\<close>

text \<open>
  (C18) The gateway comes to rest: from every reachable state, in every fair run without new requests
  there is a moment from which on no request awaits its answer, every response task has ended and the
  queue is empty. Then every request ever sent upstream on a metered endpoint was left by its caller
  before the upstream answered, or its one record was taken by the writer or dropped, counted on the
  actual calls on the writer; the file has the bytes of every taken record, stderr reports a drop exactly
  when one was dropped and a failed write exactly when one failed. Write failures do not delay it.
\<close>

theorem fair_run_drains:
  assumes "system_reach A C K gw (system_init (spawn content)) (r 0)"
    and "quiet_run A C K gw r" and "fair_run A C K gw r"
  shows "\<exists>N. \<forall>n \<ge> N. let s = r n; w = sy_audit s; ts = taken K (spawn content) (sy_calls s);
      ds = dropped K (spawn content) (sy_calls s) in
    awaiting s = 0 \<and> list_all (\<lambda>t. pm_phase t = Finished) (sy_tasks s) \<and> ch_queue (w_chan w) = [] \<and>
    sy_metered s = length ts + length ds + sy_abandoned s \<and>
    mset (map fst ts @ ds) = mset (concat (map (\<lambda>q. records_of (sy_tasks s) (snd q)) (sy_requests s))) \<and>
    w = writer_run K (spawn content) (sy_calls s) \<and> w_file w = content @ concat (map (bytes_of K) ts) \<and>
    (AUDIT_DROPPED \<in> set (w_stderr w) \<longleftrightarrow> ds \<noteq> []) \<and>
    (AUDIT_WRITE_FAILED \<in> set (w_stderr w) \<longleftrightarrow> list_ex (write_failed K) ts)"
proof -
  from fair_run_rests [OF assms(2,3)] obtain N where N: "\<forall>n \<ge> N. at_rest (r n)" by blast
  show ?thesis
  proof (intro exI allI impI)
    fix n assume "n \<ge> N"
    with N have rest: "at_rest (r n)" by blast
    note reach = quiet_run_reach [OF assms(2,1), of n]
    note inv = system_reach_inv [OF reach]
    show "let s = r n; w = sy_audit s; ts = taken K (spawn content) (sy_calls s);
        ds = dropped K (spawn content) (sy_calls s) in
      awaiting s = 0 \<and> list_all (\<lambda>t. pm_phase t = Finished) (sy_tasks s) \<and> ch_queue (w_chan w) = [] \<and>
      sy_metered s = length ts + length ds + sy_abandoned s \<and>
      mset (map fst ts @ ds) = mset (concat (map (\<lambda>q. records_of (sy_tasks s) (snd q)) (sy_requests s))) \<and>
      w = writer_run K (spawn content) (sy_calls s) \<and> w_file w = content @ concat (map (bytes_of K) ts) \<and>
      (AUDIT_DROPPED \<in> set (w_stderr w) \<longleftrightarrow> ds \<noteq> []) \<and>
      (AUDIT_WRITE_FAILED \<in> set (w_stderr w) \<longleftrightarrow> list_ex (write_failed K) ts)"
      unfolding Let_def
      by (intro conjI at_rest_accounts [OF reach rest] writer_state [OF inv])
        (use rest records_accounted [OF inv] in \<open>simp_all add: at_rest_def\<close>)
  qed
qed

text \<open>
  A request with an empty response, for the witness: its task ends in three steps, then the writer
  stores the record.
\<close>

definition empty_task :: "unit pump" where
  "empty_task =
     pump_init ''m1'' (Some Response) 200 True None (Some (RequestEffort_new None)) [] [] True"

definition empty_tasks :: "unit pump list" where
  "empty_tasks =
     (let t1 = empty_task\<lparr>pm_phase := Selected True\<rparr>;
          t2 = t1\<lparr>pm_outcome := Completed, pm_tx := False, pm_phase := Closed\<rparr>
      in [empty_task, t1, t2, pump_record inert_effort inert_json inert_sse [] [] t2])"

definition rest_run :: "nat \<Rightarrow> unit system" where
  "rest_run n =
     (let t = empty_tasks ! min n 3;
          w = (if n < 3 then spawn [] else foldl try_record (spawn []) (pm_recorded t))
      in \<lparr>sy_audit = (if n < 4 then w else write_loop_step blank_codec w WroteAll),
          sy_requests = [(empty_request, Streaming 0)], sy_tasks = [t],
          sy_calls = map TryRecord (pm_recorded t) @ replicate (n - 3) (WriteStep WroteAll)\<rparr>)"

lemma rest_run_moves:
  "task_moves plain_crates 0 (rest_run 0) (rest_run (Suc 0))"
  "task_moves plain_crates 0 (rest_run (Suc 0)) (rest_run (Suc (Suc 0)))"
  "task_moves plain_crates 0 (rest_run (Suc (Suc 0))) (rest_run (Suc (Suc (Suc 0))))"
proof -
  let ?step = "pump_step inert_effort inert_json inert_sse"
  have lib: "cr_effort plain_crates = inert_effort" "cr_json plain_crates = inert_json"
    "cr_sse plain_crates = inert_sse" by (simp_all add: plain_crates_def)
  have ts: "empty_tasks ! 0 = empty_task" "empty_tasks ! Suc 0 = empty_task\<lparr>pm_phase := Selected True\<rparr>"
    by (simp_all add: empty_tasks_def Let_def)
  have "?step (empty_tasks ! 0) (empty_tasks ! Suc 0)"
    unfolding ts by (rule next_end) (simp_all add: empty_task_def pump_init_def)
  moreover have "?step (empty_tasks ! Suc 0) (empty_tasks ! Suc (Suc 0))"
    using close [of "empty_tasks ! Suc 0" True inert_effort inert_json inert_sse]
    by (simp add: empty_tasks_def empty_task_def pump_init_def Let_def)
  moreover have "?step (empty_tasks ! Suc (Suc 0)) (empty_tasks ! Suc (Suc (Suc 0)))"
    using write_record [of "empty_tasks ! Suc (Suc 0)" inert_effort inert_json inert_sse "[]" "[]"]
    by (simp add: empty_tasks_def Let_def)
  moreover have "pm_recorded (empty_tasks ! 0) = []" "pm_recorded (empty_tasks ! Suc 0) = []"
    "pm_recorded (empty_tasks ! Suc (Suc 0)) = []"
    by (simp_all add: empty_tasks_def empty_task_def pump_init_def Let_def)
  ultimately show "task_moves plain_crates 0 (rest_run 0) (rest_run (Suc 0))"
    "task_moves plain_crates 0 (rest_run (Suc 0)) (rest_run (Suc (Suc 0)))"
    "task_moves plain_crates 0 (rest_run (Suc (Suc 0))) (rest_run (Suc (Suc (Suc 0))))"
    by (auto simp: task_moves_def rest_run_def lib handed_over_def Let_def numeral_3_eq_3 numeral_eq_Suc)
qed

lemma rest_run_writes: "writer_moves blank_codec (rest_run (3 + n)) (rest_run (Suc (3 + n)))"
proof (cases n)
  case 0
  then show ?thesis by (auto simp: writer_moves_def rest_run_def Let_def)
next
  case (Suc m)
  have "write_loop_step blank_codec (sy_audit (rest_run 4)) WroteAll = sy_audit (rest_run 4)" by code_simp
  then show ?thesis using Suc
    by (auto simp: writer_moves_def rest_run_def Let_def replicate_append_same intro!: exI [of _ WroteAll])
qed

lemma rest_run_ok:
  "quiet_run plain_axum plain_crates blank_codec plain_gateway rest_run"
  "fair_run plain_axum plain_crates blank_codec plain_gateway rest_run"
proof -
  have cases: "n = 0 \<or> n = Suc 0 \<or> n = Suc (Suc 0) \<or> (\<exists>m. n = 3 + m)" for n :: nat by presburger
  have "settle_step plain_crates blank_codec (rest_run n) (rest_run (Suc n))" for n
    using cases [of n] rest_run_moves rest_run_writes unfolding settle_step_def by blast
  then show "quiet_run plain_axum plain_crates blank_codec plain_gateway rest_run"
    by (simp add: quiet_run_def quiet_step_def)
  have "pm_phase (empty_tasks ! 3) = Finished" by code_simp
  then have fin: "pm_phase (sy_tasks (rest_run (3 + m)) ! 0) = Finished" for m
    by (simp add: rest_run_def Let_def)
  have "i = 0" if "i < length (sy_tasks (rest_run n))" for i n using that by (simp add: rest_run_def Let_def)
  then have "\<forall>n i. i < length (sy_tasks (rest_run n)) \<and> pm_phase (sy_tasks (rest_run n) ! i) \<noteq> Finished \<longrightarrow>
      (\<exists>m \<ge> n. task_moves plain_crates i (rest_run m) (rest_run (Suc m)))"
    using cases fin rest_run_moves by (metis order.refl)
  moreover have "sy_requests (rest_run n) = [(empty_request, Streaming 0)]" for n
    by (simp add: rest_run_def Let_def)
  ultimately show "fair_run plain_axum plain_crates blank_codec plain_gateway rest_run"
    by (simp add: fair_run_def)
qed

lemma rest_run_start:
  "system_reach plain_axum plain_crates blank_codec plain_gateway (system_init (spawn [])) (rest_run 0)"
proof -
  let ?R = "serve plain_axum plain_crates plain_gateway (spawn []) [] [] empty_request ([] :: unit poll list) []
    (SendOk 200 [] [] True)"
  let ?init = "system_init (spawn []) :: unit system"
  let ?sent = "?init\<lparr>sy_requests := [(empty_request, Awaiting)]\<rparr>"
  let ?step = "system_step plain_axum plain_crates blank_codec plain_gateway"
  obtain fw where "route_prepare plain_crates plain_gateway empty_request = Inr fw"
    using empty_request_sent(3) by blast
  from send [OF empty_request_sent(1) this, of blank_codec ?init] have "?step ?init ?sent"
    by (simp add: system_init_def)
  moreover have "rr_audit ?R = spawn []" "rr_task ?R = Some empty_task"
    "failure_records plain_crates plain_gateway [] [] empty_request ([] :: unit poll list) (SendOk 200 [] [] True) = []"
    by code_simp+
  then have "?step ?sent (rest_run 0)"
    using answered [of 0 ?sent empty_request ?R plain_axum plain_crates plain_gateway "[]" "[]" "[]" "[]"
        "SendOk 200 [] [] True" "[]" blank_codec]
    by (simp add: system_init_def started_def rest_run_def empty_tasks_def empty_task_def pump_init_def Let_def)
  ultimately show ?thesis by (simp add: system_reach_def)
qed

theorem fair_run_drains_witness:
  "quiet_run plain_axum plain_crates blank_codec plain_gateway rest_run \<and>
   fair_run plain_axum plain_crates blank_codec plain_gateway rest_run \<and>
   (\<exists>n. ch_queue (w_chan (sy_audit (rest_run n))) = [] \<and> sy_metered (rest_run n) = 1 \<and>
      length (taken blank_codec (spawn []) (sy_calls (rest_run n))) +
        length (dropped blank_codec (spawn []) (sy_calls (rest_run n))) = 1)"
proof -
  have "sy_metered (rest_run n) = 1" "sy_abandoned (rest_run n) = 0" for n
    using empty_request_sent(2)
    by (simp_all add: rest_run_def Let_def sy_metered_def sy_abandoned_def metered_in_def)
  with fair_run_drains [OF rest_run_start rest_run_ok, unfolded Let_def] rest_run_ok show ?thesis
    by (metis add_0_right order.refl)
qed

end
