(* ===== verification/Smoke_System.thy ===== *)
theory Smoke_System
  imports Smoke_Setup Drain "HOL-Library.Multiset"
begin

text \<open>
  The smoke test as a whole: the running gateway under a load of requests that the mock upstream
  answers and whose callers receive the whole response. When it has come to rest without a dropped
  record, the usage file reconciles with the load, and the smoke run passes.
\<close>

section \<open>A smoke load\<close>

text \<open>
  The steps of the gateway under the load: a metered request is sent; the mock upstream answers one and
  the caller is given its response; a task moves whose caller stays to the end of the body; a write
  succeeds.
\<close>

inductive smoke_step ::
  "axum_lib \<Rightarrow> ('u, 'd, 'v) crates \<Rightarrow> record_codec \<Rightarrow> 'u Gateway \<Rightarrow> u64 \<Rightarrow> 'e system \<Rightarrow> 'e system \<Rightarrow> bool"
  for A :: axum_lib and C :: "('u, 'd, 'v) crates" and K :: record_codec and gw :: "'u Gateway" and n :: u64 where
  smoke_send: "router A req = RouteV1 \<Longrightarrow> route_prepare C gw req = Inr fw \<Longrightarrow> metered_request req \<Longrightarrow>
    smoke_step A C K gw n s (s\<lparr>sy_requests := sy_requests s @ [(req, Awaiting)]\<rparr>)"
| smoke_answer: "i < length (sy_requests s) \<Longrightarrow> sy_requests s ! i = (req, Awaiting) \<Longrightarrow>
    route_prepare C gw req = Inr fw \<Longrightarrow>
    mock_router A n (fw_method fw) (url_path (cr_url C) (fw_url fw)) = Some answer \<Longrightarrow>
    R = serve A C gw (sy_audit s) ev now req polls later answer \<Longrightarrow>
    rr_response R = StreamedResponse status hs \<Longrightarrow>
    rs = failure_records C gw ev now req polls answer \<Longrightarrow>
    smoke_step A C K gw n s
      (s\<lparr>sy_audit := rr_audit R,
         sy_requests := (sy_requests s)[i := (req,
           case rr_task R of Some _ \<Rightarrow> Streaming (length (sy_tasks s)) | None \<Rightarrow> Failed rs)],
         sy_tasks := sy_tasks s @ started R, sy_calls := sy_calls s @ map TryRecord rs\<rparr>)"
| smoke_task: "task_moves C i s s' \<Longrightarrow> pm_body_alive (sy_tasks s' ! i) \<or> pm_eof (sy_tasks s' ! i) \<Longrightarrow>
    smoke_step A C K gw n s s'"
| smoke_write: "smoke_step A C K gw n s
    (s\<lparr>sy_audit := write_loop_step K (sy_audit s) WroteAll, sy_calls := sy_calls s @ [WriteStep WroteAll]\<rparr>)"

definition smoke_reach ::
  "axum_lib \<Rightarrow> ('u, 'd, 'v) crates \<Rightarrow> record_codec \<Rightarrow> 'u Gateway \<Rightarrow> u64 \<Rightarrow> 'e system \<Rightarrow> 'e system \<Rightarrow> bool" where
  "smoke_reach A C K gw n = (smoke_step A C K gw n)\<^sup>*\<^sup>*"

lemma smoke_system_step: "smoke_step A C K gw n s s' \<Longrightarrow> system_step A C K gw s s'"
proof (induction rule: smoke_step.induct)
  case (smoke_send req fw s)
  then show ?case by (intro send)
next
  case (smoke_answer i s req fw answer R ev now polls later status hs rs)
  then show ?case by (intro answered)
next
  case (smoke_task i s s')
  then show ?case by (intro settle_system_step) (auto simp: settle_step_def)
qed (rule writer_turn)

lemma smoke_reach_system: "smoke_reach A C K gw n s s' \<Longrightarrow> system_reach A C K gw s s'"
  unfolding smoke_reach_def system_reach_def
  by (rule rtranclp_mono [THEN predicate2D]) (auto intro: smoke_system_step)

section \<open>The tasks of the load\<close>

text \<open>The caller has not left early: its body is alive, or it has seen the end of it.\<close>

definition attended :: "'e pump \<Rightarrow> bool" where
  "attended t \<longleftrightarrow> pm_body_alive t \<or> pm_eof t \<and> \<not> cancelled t \<and> \<not> pm_tx t"

definition smoke_task_ok :: "('u, 'd, 'v) crates \<Rightarrow> 'u Gateway \<Rightarrow> u64 \<Rightarrow> 'e pump \<Rightarrow> bool" where
  "smoke_task_ok C gw n t \<longleftrightarrow>
     attended t \<and>
     (\<exists>w ev now req polls later t0.
        rr_task (route_v1 C gw w ev now req polls later (mock_handler n)) = Some t0 \<and>
        operation_of (rq_path req) \<noteq> None \<and>
        pump_reach (cr_effort C) (cr_json C) (cr_sse C) t0 t)"

lemma smoke_task_of_request: "smoke_task_ok C gw n t \<Longrightarrow> task_of_request C gw t"
  unfolding smoke_task_ok_def task_of_request_def task_for_def by blast

lemma attended_step:
  assumes "attended t" and "caller_inv t" and "pump_step D J E t t'"
    and "pm_body_alive t' \<or> pm_eof t'"
  shows "attended t'"
  using assms(3,1,2,4)
  by (cases rule: pump_step.cases)
    (auto simp: attended_def caller_inv_def cancelled_def pump_record_def Let_def
      split: option.splits prod.splits)

lemma smoke_task_step:
  assumes "smoke_task_ok C gw n t" and "pump_step (cr_effort C) (cr_json C) (cr_sse C) t t'"
    and "pm_body_alive t' \<or> pm_eof t'"
  shows "smoke_task_ok C gw n t'"
proof -
  have "attended t'"
    using assms(1) attended_step [OF _ task_caller_inv [OF smoke_task_of_request [OF assms(1)]] assms(2,3)]
    by (simp add: smoke_task_ok_def)
  moreover have "pump_reach (cr_effort C) (cr_json C) (cr_sse C) t0 t \<Longrightarrow>
      pump_reach (cr_effort C) (cr_json C) (cr_sse C) t0 t'" for t0
    using assms(2) by (simp add: pump_reach_def)
  ultimately show ?thesis using assms(1) unfolding smoke_task_ok_def by blast
qed

section \<open>The records of the load\<close>

text \<open>What the crates do on the texts of the mock response.\<close>

definition mock_crates_read :: "('u, 'd, 'v) crates \<Rightarrow> u64 \<Rightarrow> bool" where
  "mock_crates_read C n \<longleftrightarrow>
     json_lib_ok (cr_json C) \<and> frames_read (cr_sse C) (mock_frames n) \<and>
     list_all (json_reads (cr_json C)) (mock_trees n @ [mock_terminal_tree]) \<and>
     status_is_success (cr_http C) 200 \<and> value_to_str (cr_http C) MOCK_MODEL = Some MOCK_MODEL"

definition smoke_record :: "AuditRecord \<Rightarrow> bool" where
  "smoke_record r \<longleftrightarrow> record_ok r \<and> outcome r = Completed \<and> model r = Some MOCK_MODEL \<and> usage r = Some mock_usage"

lemma smoke_task_record:
  assumes "mock_crates_read C n" and "smoke_task_ok C gw n t"
  shows "list_all smoke_record (pm_recorded t)"
proof (cases "pm_phase t = Finished")
  case False
  then have "length (pm_recorded t) = 0"
    using task_recorded [OF smoke_task_of_request [OF assms(2)]] by simp
  then show ?thesis by simp
next
  case True
  from assms(2) obtain w ev now req polls later t0 where
    t0: "rr_task (route_v1 C gw w ev now req polls later (mock_handler n)) = Some t0"
      "operation_of (rq_path req) \<noteq> None" "pump_reach (cr_effort C) (cr_json C) (cr_sse C) t0 t"
    unfolding smoke_task_ok_def by blast
  have "caller_inv t" by (rule task_caller_inv [OF smoke_task_of_request [OF assms(2)]])
  then have "pm_outcome t \<noteq> ClientCancelled"
    using assms(2) by (auto simp: smoke_task_ok_def attended_def caller_inv_def cancelled_def)
  from smoke_request_metered [OF _ _ _ _ _ t0(2,1,3) True this] assms(1) show ?thesis
    by (auto simp: mock_crates_read_def smoke_record_def record_fits_def)
qed

text \<open>
  The invariant: every request of the load is metered and awaits its answer or has a task, every task is
  one of the load, and every write succeeded.
\<close>

definition smoke_inv :: "('u, 'd, 'v) crates \<Rightarrow> 'u Gateway \<Rightarrow> u64 \<Rightarrow> 'e system \<Rightarrow> bool" where
  "smoke_inv C gw n s \<longleftrightarrow>
     list_all (\<lambda>(req, f). metered_request req \<and> (f = Awaiting \<or> (\<exists>i. f = Streaming i))) (sy_requests s) \<and>
     list_all (smoke_task_ok C gw n) (sy_tasks s) \<and>
     list_all (\<lambda>a. \<exists>r. a = TryRecord r \<or> a = WriteStep WroteAll) (sy_calls s)"

lemma smoke_answer_task:
  assumes R: "R = route_v1 C gw w ev now req polls later (mock_handler n)"
    and metered: "metered_request req" and fw: "route_prepare C gw req = Inr fw"
    and resp: "rr_response R = StreamedResponse status hs"
  obtains t where "rr_task R = Some t" and "smoke_task_ok C gw n t"
proof -
  from fw resp obtain t where t: "rr_task R = Some t" "pm_body_alive t"
    by (auto simp: R route_v1_def mock_handler_def pump_init_def unauthorized_def Let_def split: if_splits)
  then have "smoke_task_ok C gw n t"
    using metered unfolding smoke_task_ok_def attended_def metered_request_def R
    by (blast intro: pump_reach_refl)
  with t(1) that show thesis by blast
qed

lemma smoke_step_inv:
  assumes "smoke_step A C K gw n s s'" and inv: "smoke_inv C gw n s" and sys: "system_inv A C K gw w0 s"
  shows "smoke_inv C gw n s'"
  using assms(1)
proof (cases rule: smoke_step.cases)
  case (smoke_send req fw)
  with inv show ?thesis by (simp add: smoke_inv_def)
next
  case (smoke_answer i req fw answer R ev now polls later status hs rs)
  have "request_ok A C gw (sy_tasks s) (req, Awaiting)" using sys smoke_answer(2,3)
    by (metis list_all_length system_inv_def)
  then have "router A req = RouteV1" by (simp add: request_ok_def)
  moreover have mock: "answer = mock_handler n" using smoke_answer(5) by (simp add: mock_router_def split: if_splits)
  ultimately have R: "R = route_v1 C gw (sy_audit s) ev now req polls later (mock_handler n)"
    using smoke_answer(6) by (simp add: serve_route_v1)
  have metered: "metered_request req" using inv smoke_answer(2,3) by (auto simp: smoke_inv_def list_all_length)
  obtain t where t: "rr_task R = Some t" "smoke_task_ok C gw n t"
    by (rule smoke_answer_task [OF R metered smoke_answer(4,7)])
  have "rs = []" using smoke_answer(4) by (simp add: smoke_answer(8) mock failure_records_def mock_handler_def)
  with inv t metered show ?thesis
    by (simp add: smoke_answer(1) smoke_inv_def started_def list_all_update)
next
  case (smoke_task i)
  then obtain t' where t': "i < length (sy_tasks s)"
      "pump_step (cr_effort C) (cr_json C) (cr_sse C) (sy_tasks s ! i) t'"
      "s' = s\<lparr>sy_audit := foldl try_record (sy_audit s) (handed_over (sy_tasks s ! i) t'),
        sy_tasks := (sy_tasks s)[i := t'],
        sy_calls := sy_calls s @ map TryRecord (handed_over (sy_tasks s ! i) t')\<rparr>"
    by (auto simp: task_moves_def)
  then have "smoke_task_ok C gw n t'"
    using inv smoke_task(2) smoke_task_step [OF _ t'(2)] by (simp add: smoke_inv_def list_all_length)
  with inv t' show ?thesis by (simp add: smoke_inv_def list_all_update) (simp add: list_all_iff)
next
  case smoke_write
  with inv show ?thesis by (simp add: smoke_inv_def)
qed

lemma smoke_reach_inv:
  assumes "smoke_reach A C K gw n (system_init w0) s"
  shows "smoke_inv C gw n s"
  using assms unfolding smoke_reach_def
proof (induction rule: rtranclp_induct)
  case base
  show ?case by (simp add: smoke_inv_def system_init_def)
next
  case (step y z)
  then have "system_inv A C K gw w0 y"
    using smoke_reach_system system_reach_inv unfolding smoke_reach_def by blast
  with step smoke_step_inv show ?case by blast
qed

text \<open>Every write of a record that a smoke load hands to the writer succeeds.\<close>

lemma taken_all_written:
  "list_all (\<lambda>a. \<exists>r. a = TryRecord r \<or> a = WriteStep WroteAll) acts \<Longrightarrow>
     list_all (\<lambda>(r, res). res = WroteAll) (taken K w acts)"
  by (induction K w acts rule: taken.induct) (auto split: option.splits)

lemma smoke_failures:
  "list_all (\<lambda>(req, f). metered_request req \<and> (f = Awaiting \<or> (\<exists>i. f = Streaming i))) qs \<Longrightarrow>
     failures (map snd qs) = []"
  by (induction qs) auto

text \<open>At rest, with nothing dropped, the records of the load are those in the file.\<close>

lemma smoke_load_written:
  assumes reach: "smoke_reach A C K gw n (system_init (spawn [])) s" and lib: "mock_crates_read C n"
    and answered: "list_all (\<lambda>(req, f). f \<noteq> Awaiting) (sy_requests s)"
    and finished: "list_all (\<lambda>t. pm_phase t = Finished) (sy_tasks s)"
    and empty: "ch_queue (w_chan (sy_audit s)) = []" and nodrop: "dropped K (spawn []) (sy_calls s) = []"
  defines "rs \<equiv> map fst (taken K (spawn []) (sy_calls s))"
  shows "mset rs = mset (concat (map pm_recorded (sy_tasks s)))" and "length rs = sy_metered s"
    and "w_file (sy_audit s) = concat (map (line_of K) rs)" and "list_all smoke_record rs"
proof -
  have sys: "system_reach A C K gw (system_init (spawn [])) s" by (rule smoke_reach_system [OF reach])
  note inv = system_reach_inv [OF sys]
  have smoke: "smoke_inv C gw n s" by (rule smoke_reach_inv [OF reach])
  have "mset rs = mset (offered (sy_calls s))"
    using records_accounted [OF inv] records_of_requests [OF inv] empty nodrop by (simp add: rs_def)
  also have "\<dots> = mset (concat (map pm_recorded (sy_tasks s)))"
    using inv smoke smoke_failures [of "sy_requests s"] by (simp add: system_inv_def smoke_inv_def)
  finally show same: "mset rs = mset (concat (map pm_recorded (sy_tasks s)))" .
  have "list_all smoke_record (concat (map pm_recorded (sy_tasks s)))"
    using smoke smoke_task_record [OF lib] by (fastforce simp: smoke_inv_def list_all_iff)
  then show "list_all smoke_record rs"
    unfolding list_all_iff using same by (metis set_mset_mset)
  have "filter unfinished (sy_tasks s) = []"
    using finished by (auto simp: list_all_iff unfinished_def filter_empty_conv)
  moreover have "metered_in {Awaiting} s = 0" "sy_abandoned s = 0"
    using answered smoke
    by (auto simp: metered_in_def sy_abandoned_def list_all_iff filter_empty_conv smoke_inv_def)
  ultimately show "length rs = sy_metered s"
    using metered_account [OF sys] empty nodrop by (simp add: rs_def open_requests_def)
  have "list_all (\<lambda>(r, res). res = WroteAll) (taken K (spawn []) (sy_calls s))"
    using smoke by (simp add: smoke_inv_def taken_all_written)
  then show "w_file (sy_audit s) = concat (map (line_of K) rs)"
    using writer_state(4) [OF inv] all_written [of "taken K (spawn []) (sy_calls s)" K] by (simp add: rs_def)
qed

section \<open>Running one request of the load\<close>

lemma stays_before:
  "pump_step D J E t t' \<Longrightarrow> pm_body_alive t' \<or> pm_eof t' \<Longrightarrow> pm_body_alive t \<or> pm_eof t"
  by (erule pump_stepE) auto

text \<open>A task that runs until its caller has the whole body, as a part of a smoke load.\<close>

lemma smoke_task_runs:
  assumes "pump_reach (cr_effort C) (cr_json C) (cr_sse C) t st" and "pm_body_alive st \<or> pm_eof st"
    and "sy_tasks s = [t]"
  shows "\<exists>rs. pm_recorded st = pm_recorded t @ rs \<and>
    smoke_reach A C K gw n s (s\<lparr>sy_audit := foldl try_record (sy_audit s) rs, sy_tasks := [st],
      sy_calls := sy_calls s @ map TryRecord rs\<rparr>)"
  using assms unfolding pump_reach_def
proof (induction rule: rtranclp_induct)
  case base
  have "s\<lparr>sy_audit := sy_audit s, sy_tasks := [t], sy_calls := sy_calls s\<rparr> = s" using base(2) by (cases s) simp
  then show ?case by (intro exI [of _ "[]"]) (simp add: smoke_reach_def)
next
  case (step u v)
  from step.IH [OF stays_before [OF step(2,4)] step(5)] obtain rs where
    rs: "pm_recorded u = pm_recorded t @ rs"
      "smoke_reach A C K gw n s (s\<lparr>sy_audit := foldl try_record (sy_audit s) rs, sy_tasks := [u],
        sy_calls := sy_calls s @ map TryRecord rs\<rparr>)" by blast
  let ?s = "s\<lparr>sy_audit := foldl try_record (sy_audit s) rs, sy_tasks := [u],
    sy_calls := sy_calls s @ map TryRecord rs\<rparr>"
  let ?s' = "s\<lparr>sy_audit := foldl try_record (sy_audit s) (rs @ handed_over u v), sy_tasks := [v],
    sy_calls := sy_calls s @ map TryRecord (rs @ handed_over u v)\<rparr>"
  have "task_moves C 0 ?s ?s'" using step(2) by (auto simp: task_moves_def)
  moreover have "pm_body_alive (sy_tasks ?s' ! 0) \<or> pm_eof (sy_tasks ?s' ! 0)" using step(4) by simp
  ultimately have "smoke_step A C K gw n ?s ?s'" by (rule smoke_task)
  with rs recorded_grows [OF step(2)] show ?case
    by (intro exI [of _ "rs @ handed_over u v"]) (simp add: smoke_reach_def)
qed

section \<open>The reconciliation\<close>

text \<open>The load generator ran, without errors, and completed so many requests.\<close>

definition load_ran ::
  "'v json_lib \<Rightarrow> ('v \<Rightarrow> rat option) \<Rightarrow> 'v smoke_env \<Rightarrow> SmokeParams \<Rightarrow> u64 \<Rightarrow> bool" where
  "load_ran J F e params completed \<longleftrightarrow>
     wait_ready (env_ready e) \<and>
     (case run_oha_and_sample J F e params (process_rss_kb (env_baseline e)) of
        Inl _ \<Rightarrow> False
      | Inr (result, _) \<Rightarrow> oha_completed result = completed)"

lemma wait_audit_count_finds:
  assumes "content \<in> set reads" and "count_audit J path content = Inr (a, m)" and "expected \<le> a"
  shows "wait_audit_count J path expected reads \<noteq> None"
  using assms(1)
proof (induction reads)
  case (Cons r reads)
  with assms(2,3) show ?case by (cases "count_audit J path r") auto
qed simp

lemma reconciled_load_passes:
  assumes "load_ran J F e params completed" and "content \<in> set (env_audit_reads e)" and "env_audit_final e = content"
    and "count_audit J path content = Inr (completed, completed)"
  shows "\<exists>report. run_load J F e params version path = Inr report"
  using assms wait_audit_count_finds [OF assms(2,4) order.refl]
  by (auto simp: run_load_def load_ran_def Let_def split: sum.splits prod.splits option.splits)

lemma smoke_records_counted:
  assumes "list_all smoke_record rs" and "list_all (line_ok J K) rs"
  shows "count_audit J path (Inr (concat (map (line_of K) rs))) = Inr (of_nat (length rs), of_nat (length rs))"
proof -
  have "filter canonical rs = rs" "filter is_metered rs = rs"
    using assms(1) by (auto simp: list_all_iff smoke_record_def record_ok_def is_metered_def filter_id_conv)
  with lines_record_lines [OF assms(2), of "[]"] count_lines_records [OF assms(2), of 0 0] show ?thesis
    using record_lines_utf8 [OF assms(2), of "[]"]
    by (simp add: count_audit_def read_to_string_def del: filter_filter)
qed

section \<open>Properties\<close>

text \<open>
  (C29) The smoke test passes on a gateway that drops nothing: when every request of the load was
  answered by the mock upstream and received in full, every task has ended, the queue is empty and no
  drop was reported, the usage file holds one completed and fully metered record for each of them, the
  smoke test's counter finds exactly their number as accepted and as metered, and a run whose load
  generator completed that number ends with a report.
\<close>

theorem smoke_load_reconciles:
  assumes "mock_crates_read C n" and "smoke_reach A C K gw n (system_init (spawn [])) s"
    and "list_all (\<lambda>(req, f). f \<noteq> Awaiting) (sy_requests s)"
    and "list_all (\<lambda>t. pm_phase t = Finished) (sy_tasks s)" and "ch_queue (w_chan (sy_audit s)) = []"
    and "AUDIT_DROPPED \<notin> set (w_stderr (sy_audit s))"
  shows "\<exists>rs. mset rs = mset (concat (map pm_recorded (sy_tasks s))) \<and> length rs = sy_metered s \<and>
    w_file (sy_audit s) = concat (map (line_of K) rs) \<and>
    list_all (\<lambda>r. outcome r = Completed \<and> model r = Some MOCK_MODEL \<and> usage r = Some mock_usage) rs \<and>
    (list_all (line_ok J K) rs \<longrightarrow>
      count_audit J path (Inr (w_file (sy_audit s))) = Inr (of_nat (sy_metered s), of_nat (sy_metered s)) \<and>
      (load_ran J F e params (of_nat (sy_metered s)) \<and> Inr (w_file (sy_audit s)) \<in> set (env_audit_reads e) \<and>
       env_audit_final e = Inr (w_file (sy_audit s)) \<longrightarrow>
         (\<exists>report. run_load J F e params version path = Inr report)))"
proof -
  let ?rs = "map fst (taken K (spawn []) (sy_calls s))"
  have "dropped K (spawn []) (sy_calls s) = []"
    using writer_state(5) [OF system_reach_inv [OF smoke_reach_system [OF assms(2)]]] assms(6) by simp
  note written = smoke_load_written [OF assms(2,1,3,4,5) this]
  have counted: "count_audit J path (Inr (w_file (sy_audit s))) = Inr (of_nat (sy_metered s), of_nat (sy_metered s))"
    if "list_all (line_ok J K) ?rs"
    using smoke_records_counted [OF written(4) that] by (simp only: written(2,3))
  moreover have "list_all (\<lambda>r. outcome r = Completed \<and> model r = Some MOCK_MODEL \<and> usage r = Some mock_usage) ?rs"
    using written(4) by (auto simp: list_all_iff smoke_record_def)
  ultimately show ?thesis
    using written(1-3) by (intro exI [of _ ?rs]) (blast intro: reconciled_load_passes)
qed

text \<open>
  The load generator's requests reach the mock's handler: it posts to \<open>/v1/responses\<close>, which the
  gateway forwards to \<open>/responses\<close> below the bare origin of the mock upstream.
\<close>

lemma load_request_reaches_mock:
  assumes "route_prepare C gw req = Inr fw" and "rq_method req = ''POST''" and "rq_path req = ''/v1/responses''"
    and "rq_query req = None" and "url_path (cr_url C) (upstream_base gw) = ''/''"
    and "route_matches A ''/responses'' ''/responses''" and "post_accepts A ''POST''"
  shows "mock_router A n (fw_method fw) (url_path (cr_url C) (fw_url fw)) = Some (mock_handler n)"
proof -
  have "trim_end_matches (CHR ''/'') ''/'' = []" "path_suffix ''/v1/responses'' = ''/responses''" by code_simp+
  then show ?thesis
    using assms
    by (auto simp: route_prepare_def upstream_url_def candidate_path_def mock_router_def Let_def
        split: option.splits if_splits)
qed

text \<open>One request, for the witness.\<close>

definition mock_gateway :: "string Gateway" where
  "mock_gateway = \<lparr>upstream_base = ''/'', machine_keys = [(''k'', ''m1'')]\<rparr>"

definition passing_report :: jvalue where
  "passing_report =
     JObj [(''successRate'', JNum 1), (''statusCodeDistribution'', JObj [(''200'', JNum 1)])]"

definition passing_env :: "string \<Rightarrow> jvalue smoke_env" where
  "passing_env content =
     \<lparr>env_is_file = (\<lambda>_. True), env_oha_bin = None, env_path = None, env_version = Inr ''oha 1.0'',
      env_temp_dir = ''/tmp'', env_pid = 1, env_uuid = ''u'', env_create_dir = Inr (),
      env_mock_bind = Inr (), env_mock_addr = Inr ''127.0.0.1:1'', env_port_bind = Inr (),
      env_port_addr = Inr 2, env_exe = Inr ''debitmetre'', env_config_write = Inr (), env_spawn = Inr (),
      env_ready = [None, Some 200], env_baseline = None, env_samples = [], env_oha_join = None,
      env_oha = OhaExit True ''0'' ''report'' [], env_sample_join = None,
      env_json = (\<lambda>_. Inr passing_report), env_settle = [], env_end = None,
      env_audit_reads = [Inl ''missing'', Inr content], env_audit_final = Inr content,
      env_kill = Inr (), env_wait = Inr (), env_remove_dir = Inr ()\<rparr>"

definition passing_params :: SmokeParams where
  "passing_params = SmokeParams_default\<lparr>sm_count := 1\<rparr>"

definition number_f64 :: "jvalue \<Rightarrow> rat option" where
  "number_f64 v = (case v of JNum n \<Rightarrow> Some (rat_of_nat (unat n)) | _ \<Rightarrow> None)"

text \<open>The tolerance of the success rate, 1e-9 as a double, is positive.\<close>

lemma round_half_even_pos: "1 \<le> \<lfloor>y\<rfloor> \<Longrightarrow> 0 < round_half_even y"
  by (auto simp: round_half_even_def Let_def)

lemma tolerance_pos: "0 < f64_of (1 / 1000000000)"
proof -
  have "(1 / 1000000000 :: rat) = Fract 1 1000000000" by (simp add: Fract_of_int_quotient)
  then have q: "quotient_of (1 / 1000000000) = (1, 1000000000)"
    by (simp only: quotient_of_Fract Rat.normalize_def) simp
  have "floor_log2 1000000000 = 29" by (simp add: floor_log2.simps)
  then have b: "binade (Suc 0) 1000000000 = - 30" by (simp add: binade_def pow2_def Let_def)
  show ?thesis
    using round_half_even_pos [of "(1 / 1000000000) / pow2 (- 82)"]
    by (simp add: f64_of_def q b pow2_def Let_def)
qed

lemma passing_load_ran: "load_ran (tree_json p) number_f64 (passing_env content) passing_params 1"
proof -
  have "is_one (Finite 1)" using tolerance_pos by (simp add: is_one_def, simp add: f64_of_def)
  moreover have "show_nat 200 = ''200''" by code_simp
  then have "parse_unsigned 16 ''200'' = Some 200" using parse_port_number [of 200] by simp
  ultimately show ?thesis
    by (simp add: load_ran_def passing_env_def wait_ready_def run_oha_and_sample_def run_oha_process_def
        parse_oha_def passing_report_def tree_json_def tree_get_def success_rate_def success_of_def
        number_f64_def count_status_def check_load_def passing_params_def saturating_add_def Let_def)
qed

lemma mock_crates_read_ok: "mock_crates_read mock_crates 0"
  using mock_crates_ok by (simp add: mock_crates_read_def, simp add: mock_crates_def plain_http_def)

lemma smoke_one_request:
  "\<exists>(s :: unit system) st r.
     (\<forall>K. smoke_reach plain_axum mock_crates K mock_gateway 0 (system_init (spawn [])) s) \<and>
     sy_requests s = [(empty_request, Streaming 0)] \<and> sy_metered s = 1 \<and>
     sy_tasks s = [st] \<and> pm_phase st = Finished \<and> pm_recorded st = [r] \<and>
     sy_audit s = try_record (spawn []) r"
proof -
  let ?R = "serve plain_axum mock_crates mock_gateway (spawn []) [] [] empty_request ([] :: unit poll list) []
    (mock_handler 0)"
  have "authenticate mock_crates mock_gateway (rq_headers empty_request) = Some ''m1''"
    by (simp add: mock_crates_def empty_request_def, code_simp)
  moreover have "upstream_url plain_url ''/'' (path_suffix ''/v1/responses'') None \<noteq> None" by code_simp
  ultimately obtain fw where fw: "route_prepare mock_crates mock_gateway empty_request = Inr fw"
    by (auto simp: route_prepare_def Let_def mock_gateway_def mock_crates_def empty_request_def)
  have R: "?R = route_v1 mock_crates mock_gateway (spawn []) [] [] empty_request [] [] (mock_handler 0)"
    by (simp add: serve_def empty_request_sent(1))
  obtain hs where resp: "rr_response ?R = StreamedResponse 200 hs"
    using fw unfolding R by (simp add: route_v1_def mock_handler_def mock_crates_def plain_http_def Let_def)
  let ?t = "pump_init (fw_machine fw) (fw_operation fw) 200 True (Some MOCK_MODEL)
      (fst (mirror_polls (fw_effort fw) ([] :: unit poll list))) [] (mock_chunks 0) True :: unit pump"
  have task: "rr_task ?R = Some ?t" and audit: "rr_audit ?R = spawn []"
    using fw unfolding R by (simp_all add: route_v1_def mock_handler_def header_get_def get_all_def mock_crates_def
        plain_http_def Let_def)
  let ?init = "system_init (spawn []) :: unit system"
  let ?sent = "?init\<lparr>sy_requests := [(empty_request, Awaiting)]\<rparr>"
  let ?a = "?init\<lparr>sy_requests := [(empty_request, Streaming 0)], sy_tasks := [?t]\<rparr>"
  have sent: "smoke_step plain_axum mock_crates K mock_gateway 0 ?init ?sent" for K
    using smoke_send [OF empty_request_sent(1) fw empty_request_sent(2), of K 0 ?init] by (simp add: system_init_def)
  have "mock_router plain_axum 0 (fw_method fw) (url_path (cr_url mock_crates) (fw_url fw)) = Some (mock_handler 0)"
    by (rule load_request_reaches_mock [OF fw])
      (simp_all add: empty_request_def mock_crates_def plain_url_def mock_gateway_def plain_axum_def)
  then have answered: "smoke_step plain_axum mock_crates K mock_gateway 0 ?sent ?a" for K
    using smoke_answer [of 0 ?sent empty_request mock_crates mock_gateway fw plain_axum 0 "mock_handler 0" ?R "[]" "[]"
        "[]" "[]" 200 hs "[]" K] fw resp task audit
    by (simp add: system_init_def started_def failure_records_def mock_handler_def)
  obtain st where st: "pump_reach (cr_effort mock_crates) (cr_json mock_crates) (cr_sse mock_crates) ?t st"
      "pm_eof st" "pm_phase st = Finished"
    using full_delivery by blast
  have "task_for mock_crates mock_gateway empty_request st"
    using st(1) task unfolding task_for_def R by blast
  from task_records(2) [OF this] have "length (pm_recorded st) = Suc 0"
    using st(3) empty_request_sent(2) by simp
  then obtain r where r: "pm_recorded st = [r]" by (auto simp: length_Suc_conv)
  have empty: "pm_recorded ?t = []" by (simp add: pump_init_def)
  let ?s = "?a\<lparr>sy_audit := try_record (spawn []) r, sy_tasks := [st], sy_calls := [TryRecord r]\<rparr>"
  have "smoke_reach plain_axum mock_crates K mock_gateway 0 ?a ?s" for K
    using smoke_task_runs [OF st(1), of ?a plain_axum K mock_gateway 0] st(2) r empty
    by (auto simp: system_init_def)
  with sent answered have "smoke_reach plain_axum mock_crates K mock_gateway 0 ?init ?s" for K
    unfolding smoke_reach_def by (meson converse_rtranclp_into_rtranclp)
  then show ?thesis using st(3) r empty_request_sent(2)
    by (intro exI [of _ ?s] exI [of _ st] exI [of _ r]) (simp add: sy_metered_def metered_in_def)
qed

theorem smoke_load_reconciles_witness:
  "\<exists>(s :: unit system) r report.
     smoke_reach plain_axum mock_crates (one_line_codec r) mock_gateway 0 (system_init (spawn [])) s \<and>
     sy_metered s = 1 \<and> usage r = Some mock_usage \<and> w_file (sy_audit s) = line_of (one_line_codec r) r \<and>
     count_audit (one_line_json r) ''f'' (Inr (w_file (sy_audit s))) = Inr (1, 1) \<and>
     run_load (one_line_json r) number_f64 (passing_env (w_file (sy_audit s))) passing_params ''1.0'' ''f'' =
       Inr report"
proof -
  from smoke_one_request obtain s :: "unit system" and t r where
    s: "\<forall>K. smoke_reach plain_axum mock_crates K mock_gateway 0 (system_init (spawn [])) s"
      "sy_requests s = [(empty_request, Streaming 0)]" "sy_metered s = 1"
      "sy_tasks s = [t]" "pm_phase t = Finished" "pm_recorded t = [r]"
      "sy_audit s = try_record (spawn []) r" by blast
  let ?K = "one_line_codec r" and ?J = "one_line_json r"
  let ?s = "s\<lparr>sy_audit := write_loop_step ?K (sy_audit s) WroteAll,
    sy_calls := sy_calls s @ [WriteStep WroteAll]\<rparr>"
  have reach: "smoke_reach plain_axum mock_crates ?K mock_gateway 0 (system_init (spawn [])) ?s"
    using s(1) smoke_write [of plain_axum mock_crates ?K mock_gateway 0 s]
    unfolding smoke_reach_def by (meson rtranclp.rtrancl_into_rtrancl)
  have w: "ch_queue (w_chan (sy_audit ?s)) = []" "AUDIT_DROPPED \<notin> set (w_stderr (sy_audit ?s))"
      "w_file (sy_audit ?s) = line_of ?K r"
    by (simp_all add: s(7) try_record_def spawn_def ch_try_send_def channel_new_def write_loop_step_def
        ch_try_recv_def write_line_def one_line_codec_def line_of_def AUDIT_QUEUE_CAPACITY_def)
  have fin: "list_all (\<lambda>t. pm_phase t = Finished) (sy_tasks ?s)"
      "list_all (\<lambda>(req, f). f \<noteq> Awaiting) (sy_requests ?s)" "sy_metered ?s = 1"
    using s(2-5) by (simp_all add: sy_metered_def metered_in_def)
  let ?e = "passing_env (w_file (sy_audit ?s))"
  from smoke_load_reconciles [OF mock_crates_read_ok reach fin(2,1) w(1,2), of ?J "''f''" number_f64 ?e
      passing_params "''1.0''"]
  obtain rs where rs0: "mset rs = mset (concat (map pm_recorded (sy_tasks ?s)))"
      "list_all (\<lambda>r. outcome r = Completed \<and> model r = Some MOCK_MODEL \<and> usage r = Some mock_usage) rs"
      and counted: "list_all (line_ok ?J ?K) rs \<longrightarrow>
        count_audit ?J ''f'' (Inr (w_file (sy_audit ?s))) = Inr (of_nat (sy_metered ?s), of_nat (sy_metered ?s)) \<and>
        (load_ran ?J number_f64 ?e passing_params (of_nat (sy_metered ?s)) \<and>
         Inr (w_file (sy_audit ?s)) \<in> set (env_audit_reads ?e) \<and> env_audit_final ?e = Inr (w_file (sy_audit ?s)) \<longrightarrow>
           (\<exists>report. run_load ?J number_f64 ?e passing_params ''1.0'' ''f'' = Inr report))"
    by blast
  then have rs: "rs = [r]" "usage r = Some mock_usage" using s(4,6) by simp_all
  have "load_ran ?J number_f64 ?e passing_params 1" unfolding one_line_json_def by (rule passing_load_ran)
  moreover have "Inr (w_file (sy_audit ?s)) \<in> set (env_audit_reads ?e)" "env_audit_final ?e = Inr (w_file (sy_audit ?s))"
    by (simp_all add: passing_env_def)
  ultimately have "count_audit ?J ''f'' (Inr (w_file (sy_audit ?s))) = Inr (1, 1) \<and>
      (\<exists>report. run_load ?J number_f64 ?e passing_params ''1.0'' ''f'' = Inr report)"
    using counted one_line_ok [of r] rs(1) fin(3) by simp
  with reach rs(2) fin(3) w(3) show ?thesis by (intro exI [of _ ?s] exI [of _ r]) simp
qed

end
