(* ===== verification/Smoke_Gateway.thy ===== *)
theory Smoke_Gateway
  imports Smoke_Setup Cli
begin

text \<open>
  The gateway the smoke test starts and the requests it sends to it. What the TOML crate, the http crate
  and the load generator \<open>oha\<close> do is documented for every text of a plain form: the reader of that part
  of TOML and the reading of the command line are written down here, and the hypotheses say that the
  crate and the program agree with them. The configuration text and the arguments of
  \<^verbatim>\<open>src/src/smoke.rs\<close> are then read by these, character by character.
\<close>

section \<open>Plain TOML\<close>











section \<open>The load generator\<close>







section \<open>The configuration is read\<close>









section \<open>The request that is sent\<close>






section \<open>Properties\<close>






end
