(* ===== verification/Shutdown.thy ===== *)
theory Shutdown
  imports Drain
begin

text \<open>
  What a graceful shutdown leaves behind. \<open>run_gateway\<close> in \<^verbatim>\<open>src/src/main.rs\<close> stops the server, which
  waits for its connections, and returns; the runtime then drops the response tasks that still run, and
  \<open>AuditWriter::drop\<close> detaches the writer thread, which ends with the process. Records that are not in
  the file by then are gone.
\<close>

section \<open>The end of the process\<close>

text \<open>
  The server has ended: no handler waits for an answer, and every response was received to its end or
  abandoned by its caller.
\<close>

definition connections_closed :: "'e system \<Rightarrow> bool" where
  "connections_closed s \<longleftrightarrow>
     list_all (\<lambda>(req, f). f \<noteq> Awaiting) (sy_requests s) \<and>
     list_all (\<lambda>t. pm_eof t \<or> \<not> pm_body_alive t) (sy_tasks s)"

text \<open>
  The usage file and the lines on stderr that are left when the process ends, and the records that
  vanish with it: one for every metered request that has not ended, and those still queued.
\<close>

record process_end =
  left_file :: bytes
  left_stderr :: "string list"
  lost_records :: nat

definition exit_gateway :: "'e system \<Rightarrow> process_end" where
  "exit_gateway s =
     \<lparr>left_file = w_file (sy_audit s), left_stderr = w_stderr (sy_audit s),
      lost_records = open_requests s + length (ch_queue (w_chan (sy_audit s)))\<rparr>"

text \<open>A task whose caller saw the end of the body has nothing left to do but to write its record.\<close>

lemma eof_task_closed:
  assumes "task_of_request C gw t" and "pm_eof t"
  shows "pm_phase t \<in> {Closed, Finished}"
  using task_caller_inv [OF assms(1)] assms(2) by (auto simp: caller_inv_def)

lemma closed_open_requests:
  assumes "system_inv A C K gw w0 s" and "connections_closed s"
  shows "open_requests s \<le> length (filter (\<lambda>t. pm_phase t = Closed \<or> \<not> pm_body_alive t) (sy_tasks s))"
proof -
  have "list_all (task_of_request C gw) (sy_tasks s)" using assms(1) by (simp add: system_inv_def)
  then have "\<forall>t \<in> set (sy_tasks s). unfinished t \<longrightarrow> pm_phase t = Closed \<or> \<not> pm_body_alive t"
    using assms(2) eof_task_closed [of C gw]
    by (fastforce simp: connections_closed_def list_all_iff unfinished_def)
  moreover have "metered_in {Awaiting} s = 0"
    using assms(2) by (auto simp: metered_in_def connections_closed_def list_all_iff filter_empty_conv)
  ultimately show ?thesis by (simp add: open_requests_def length_filter_mono)
qed

section \<open>Properties\<close>

text \<open>
  (C19) The account of a graceful shutdown: when the server has ended, every metered request was left by
  its caller before the upstream answered, or its record was taken by the writer, or dropped, or is lost
  with the process; what was taken and dropped is that of the actual calls on the writer. The file has
  the bytes of every taken record, the whole line unless stderr reports a failed write, and stderr
  reports a drop exactly when one was dropped. At most 2048 of the lost ones were waiting for the writer,
  and every other one belongs to a task whose caller left or that had only its record to write.
\<close>

theorem graceful_exit_account:
  assumes "system_reach A C K gw (system_init (spawn content)) s" and "connections_closed s"
  shows "let e = exit_gateway s; ts = taken K (spawn content) (sy_calls s);
      ds = dropped K (spawn content) (sy_calls s) in
    sy_metered s = length ts + length ds + sy_abandoned s + lost_records e \<and>
    left_file e = content @ concat (map (bytes_of K) ts) \<and>
    (AUDIT_WRITE_FAILED \<in> set (left_stderr e) \<longleftrightarrow> list_ex (write_failed K) ts) \<and>
    (AUDIT_DROPPED \<in> set (left_stderr e) \<longleftrightarrow> ds \<noteq> []) \<and>
    lost_records e \<le> 2048 + length (filter (\<lambda>t. pm_phase t = Closed \<or> \<not> pm_body_alive t) (sy_tasks s))"
proof -
  have inv: "system_inv A C K gw (spawn content) s" by (rule system_reach_inv [OF assms(1)])
  show ?thesis
    unfolding Let_def
    using metered_account [OF assms(1)] writer_state(3-6) [OF inv] closed_open_requests [OF inv assms(2)]
    by (simp add: exit_gateway_def)
qed

text \<open>
  The loss is real: the caller of a metered request has received the whole response, the server ends,
  and neither the file nor stderr shows the request.
\<close>

definition closing_system :: "unit system" where
  "closing_system = (rest_run 2)\<lparr>sy_tasks := [(empty_tasks ! 2)\<lparr>pm_eof := True\<rparr>]\<rparr>"

lemma closing_system_reached:
  "system_reach plain_axum plain_crates blank_codec plain_gateway (system_init (spawn [])) closing_system"
proof -
  let ?t = "empty_tasks ! 2"
  have t: "pm_body_alive ?t" "ch_try_recv (pm_chan ?t) = (pm_chan ?t, None)" "\<not> pm_tx ?t" "\<not> pm_eof ?t"
    by code_simp+
  have "pump_step inert_effort inert_json inert_sse ?t (?t\<lparr>pm_eof := True\<rparr>)" by (rule caller_eof [OF t])
  then have "task_moves plain_crates 0 (rest_run 2) closing_system"
    by (auto simp: task_moves_def closing_system_def rest_run_def plain_crates_def handed_over_def Let_def)
  then have "system_step plain_axum plain_crates blank_codec plain_gateway (rest_run 2) closing_system"
    by (intro settle_system_step) (auto simp: settle_step_def)
  moreover have "system_reach plain_axum plain_crates blank_codec plain_gateway (system_init (spawn [])) (rest_run 2)"
    by (rule quiet_run_reach [OF rest_run_ok(1) rest_run_start])
  ultimately show ?thesis by (simp add: system_reach_def)
qed

theorem graceful_exit_account_witness:
  "connections_closed closing_system \<and>
   exit_gateway closing_system = \<lparr>left_file = [], left_stderr = [], lost_records = 1\<rparr> \<and>
   sy_metered closing_system = 1 \<and> taken blank_codec (spawn []) (sy_calls closing_system) = [] \<and>
   dropped blank_codec (spawn []) (sy_calls closing_system) = []"
proof -
  have c: "connections_closed closing_system" "sy_metered closing_system = 1"
    "exit_gateway closing_system = \<lparr>left_file = [], left_stderr = [], lost_records = 1\<rparr>"
    by code_simp+
  with graceful_exit_account [OF closing_system_reached c(1)] show ?thesis by (simp add: Let_def)
qed

end
