(* ===== verification/Summary_Table.thy ===== *)
theory Summary_Table
  imports Summary
begin

text \<open>
  The printed summary can be read back. A reader of the two tables that \<open>render\<close> writes is defined
  here, as a script over the output would do it: lines, columns separated by spaces, and numbers. It
  gets back exactly the grouped totals when the names fit their columns. The first two columns have no
  separator of their own, so a name as wide as its column runs into the next one.
\<close>

section \<open>Reading a table\<close>

definition columns :: "string \<Rightarrow> string list" where
  "columns l = filter (\<lambda>w. w \<noteq> []) (split_on (CHR '' '') l)"

definition read_cell :: "string \<Rightarrow> u64 option" where
  "read_cell c = map_option of_nat (parse_unsigned 64 c)"

definition read_label :: "string \<Rightarrow> string option" where
  "read_label c = (if c = ''-'' then None else Some c)"

definition read_totals :: "string list \<Rightarrow> GroupTotals" where
  "read_totals cs =
     \<lparr>tot_records = (case read_cell (cs ! 0) of Some n \<Rightarrow> n | None \<Rightarrow> 0),
      tot_input_total = read_cell (cs ! 1), tot_uncached = read_cell (cs ! 2),
      tot_cache_read = read_cell (cs ! 3), tot_cache_write = read_cell (cs ! 4),
      tot_output_total = read_cell (cs ! 5), tot_reasoning = read_cell (cs ! 6),
      tot_total = read_cell (cs ! 7)\<rparr>"

definition read_group :: "string \<Rightarrow> GroupKey \<times> GroupTotals" where
  "read_group l = (let cs = columns l in ((cs ! 0, read_label (cs ! 1)), read_totals (drop 2 cs)))"

definition read_effort :: "string \<Rightarrow> EffortKey \<times> GroupTotals" where
  "read_effort l = (let cs = columns l in (read_label (cs ! 0), read_totals (drop 1 cs)))"

definition LEGEND :: string where
  "LEGEND = ''- = not recorded in any record; totals sum only recorded values''"

text \<open>The rows up to the empty line, and those between the second heading and the legend.\<close>

definition read_tables ::
  "string \<Rightarrow> (GroupKey \<times> GroupTotals) list \<times> (EffortKey \<times> GroupTotals) list" where
  "read_tables out =
     (let body = tl (split_on (CHR 0x0A) out)
      in (map read_group (takeWhile (\<lambda>l. l \<noteq> []) body),
          map read_effort (takeWhile (\<lambda>l. l \<noteq> LEGEND) (tl (tl (dropWhile (\<lambda>l. l \<noteq> []) body))))))"

section \<open>Columns\<close>

text \<open>A word: what can stand in a column.\<close>

definition word :: "string \<Rightarrow> bool" where
  "word w \<longleftrightarrow> w \<noteq> [] \<and> CHR '' '' \<notin> set w \<and> CHR 0x0A \<notin> set w"

lemma columns_spaces [simp]: "columns (replicate n (CHR '' '') @ s) = columns s"
  by (induction n) (simp_all add: columns_def)

lemma columns_space [simp]: "columns (CHR '' '' # s) = columns s"
  by (simp add: columns_def)

lemma columns_word [simp]: "word w \<Longrightarrow> columns w = [w]"
  by (simp add: columns_def word_def)

lemma columns_word_space: "word w \<Longrightarrow> columns (w @ CHR '' '' # s) = w # columns s"
  by (simp add: columns_def word_def)

lemma columns_pad_right:
  assumes "word w" and "char_count w < n"
  shows "columns (pad_right n w @ s) = w # columns s"
proof -
  obtain k where "n - char_count w = Suc k" using assms(2) by (metis Suc_diff_Suc)
  then show ?thesis using columns_word_space [OF assms(1)] by (simp add: pad_right_def)
qed

lemma columns_counter_cells:
  "word w \<Longrightarrow> list_all word cs \<Longrightarrow> columns (w @ counter_cells cs) = w # cs"
proof (induction cs arbitrary: w)
  case Nil
  then show ?case by (simp add: counter_cells_def)
next
  case (Cons c cs)
  have "counter_cells (c # cs) = CHR '' '' # pad_left COUNTER_W c @ counter_cells cs"
    by (simp add: counter_cells_def)
  with Cons show ?case by (simp add: columns_word_space pad_left_def)
qed

section \<open>Numbers\<close>

lemma word_show_nat [simp]: "word (show_nat n)"
proof -
  have "digit_value (CHR '' '') = None" "digit_value (CHR 0x0A) = None" by (simp_all add: digit_value_def)
  then show ?thesis
    using digit_value_set_show_nat [of "CHR '' ''" n] digit_value_set_show_nat [of "CHR 0x0A" n]
    by (auto simp: word_def)
qed

lemma word_cell [simp]: "word (cell v)"
  by (simp add: cell_def show_u64_def split: option.splits) (simp add: word_def)

lemma read_cell_show [simp]: "read_cell (show_u64 n) = Some n"
  using unat_u64_less [of n] by (simp add: read_cell_def show_u64_def parse_unsigned_show_nat)

lemma read_cell_cell [simp]: "read_cell (cell v) = v"
  by (cases v) (simp_all add: cell_def, simp add: read_cell_def parse_unsigned_def digit_value_def)

lemma columns_totals: "columns (totals_cells t) =
    show_u64 (tot_records t) # map cell [tot_input_total t, tot_uncached t, tot_cache_read t,
      tot_cache_write t, tot_output_total t, tot_reasoning t, tot_total t]"
  unfolding totals_cells_def pad_left_def append_assoc columns_spaces
  by (rule columns_counter_cells) (simp_all add: show_u64_def)

lemma read_totals_columns: "read_totals (columns (totals_cells t)) = t"
  by (simp add: columns_totals read_totals_def)

section \<open>Rows\<close>

text \<open>A name that fits its column of width \<open>n\<close> and is not the placeholder of a missing name.\<close>

definition fits :: "nat \<Rightarrow> string \<Rightarrow> bool" where
  "fits n w \<longleftrightarrow> word w \<and> w \<noteq> ''-'' \<and> char_count w < n"

definition label_text :: "string option \<Rightarrow> string" where
  "label_text x = (case x of Some m \<Rightarrow> m | None \<Rightarrow> ''-'')"

definition group_row :: "GroupKey \<times> GroupTotals \<Rightarrow> string" where
  "group_row r =
     pad_right MACHINE_W (fst (fst r)) @ pad_right MODEL_W (label_text (snd (fst r))) @ totals_cells (snd r)"

definition effort_row :: "EffortKey \<times> GroupTotals \<Rightarrow> string" where
  "effort_row r = pad_right MACHINE_W (label_text (fst r)) @ totals_cells (snd r)"

lemma render_lines_rows:
  "render_lines gs egs cov =
     [pad_right MACHINE_W ''machine'' @ pad_right MODEL_W ''model'' @ heading_cells] @ map group_row gs @
     [[], pad_right MACHINE_W ''effort'' @ heading_cells] @ map effort_row egs @ [LEGEND, last (render_lines gs egs cov)]"
  by (auto simp: render_lines_def group_row_def effort_row_def label_text_def LEGEND_def)

definition group_fits :: "GroupKey \<times> GroupTotals \<Rightarrow> bool" where
  "group_fits r \<longleftrightarrow> fits MACHINE_W (fst (fst r)) \<and> pred_option (fits MODEL_W) (snd (fst r))"

definition effort_fits :: "EffortKey \<times> GroupTotals \<Rightarrow> bool" where
  "effort_fits r \<longleftrightarrow> pred_option (fits MACHINE_W) (fst r)"

lemma label_fits:
  assumes "pred_option (fits n) x" and "1 < n"
  shows "word (label_text x)" and "char_count (label_text x) < n" and "read_label (label_text x) = x"
proof -
  have "char_count ''-'' = 1" "word ''-''" by (simp_all add: char_count_def word_def)
  then show "word (label_text x)" "char_count (label_text x) < n" "read_label (label_text x) = x"
    using assms by (cases x; simp add: label_text_def fits_def read_label_def)+
qed

lemma columns_group_row:
  assumes "group_fits r"
  shows "columns (group_row r) = fst (fst r) # label_text (snd (fst r)) # columns (totals_cells (snd r))"
  using assms label_fits [of MODEL_W "snd (fst r)"]
  by (simp add: group_row_def group_fits_def fits_def columns_pad_right MODEL_W_def)

lemma columns_effort_row:
  assumes "effort_fits r"
  shows "columns (effort_row r) = label_text (fst r) # columns (totals_cells (snd r))"
  using assms label_fits [of MACHINE_W "fst r"]
  by (simp add: effort_row_def effort_fits_def columns_pad_right MACHINE_W_def)

lemma read_group_row: "group_fits r \<Longrightarrow> read_group (group_row r) = r"
  using label_fits [of MODEL_W "snd (fst r)"]
  by (simp add: read_group_def columns_group_row Let_def read_totals_columns group_fits_def MODEL_W_def)

lemma read_effort_row: "effort_fits r \<Longrightarrow> read_effort (effort_row r) = r"
  using label_fits [of MACHINE_W "fst r"]
  by (simp add: read_effort_def columns_effort_row Let_def read_totals_columns effort_fits_def MACHINE_W_def)

lemma effort_row_not_legend: "effort_fits r \<Longrightarrow> effort_row r \<noteq> LEGEND"
proof
  assume r: "effort_fits r" "effort_row r = LEGEND"
  have "columns LEGEND ! 1 = ''=''" by code_simp
  with r columns_effort_row [OF r(1)] have "show_u64 (tot_records (snd r)) = ''=''"
    by (simp add: columns_totals)
  then have "read_cell ''='' = Some (tot_records (snd r))" using read_cell_show by metis
  then show False by (simp add: read_cell_def parse_unsigned_def digit_value_def)
qed

text \<open>No row contains a line feed, so the lines of the output are the rows.\<close>

lemma no_newline_cells: "CHR 0x0A \<notin> set (totals_cells t)" "CHR 0x0A \<notin> set heading_cells"
proof -
  have "CHR 0x0A \<notin> set (cell v)" "CHR 0x0A \<notin> set (show_u64 n)" for v n
    using word_cell [of v] by (simp_all add: word_def show_u64_def word_show_nat [unfolded word_def])
  then show "CHR 0x0A \<notin> set (totals_cells t)" "CHR 0x0A \<notin> set heading_cells"
    by (simp_all add: totals_cells_def heading_cells_def counter_cells_def pad_left_def)
qed

lemma no_newline_rows:
  "group_fits g \<Longrightarrow> CHR 0x0A \<notin> set (group_row g)" "effort_fits e \<Longrightarrow> CHR 0x0A \<notin> set (effort_row e)"
  using label_fits(1) [of MODEL_W "snd (fst g)"] label_fits(1) [of MACHINE_W "fst e"]
  by (simp_all add: group_row_def effort_row_def pad_right_def no_newline_cells group_fits_def effort_fits_def
      fits_def word_def MODEL_W_def MACHINE_W_def)

lemma split_lines:
  "list_all (\<lambda>l. CHR 0x0A \<notin> set l) ls \<Longrightarrow>
     split_on (CHR 0x0A) (concat (map (\<lambda>l. l @ [CHR 0x0A]) ls) @ s) = ls @ split_on (CHR 0x0A) s"
  by (induction ls) simp_all

lemma read_tables_render:
  assumes "list_all group_fits gs" and "list_all effort_fits egs"
  shows "read_tables (render gs egs cov) = (gs, egs)"
proof -
  let ?h = "pad_right MACHINE_W ''machine'' @ pad_right MODEL_W ''model'' @ heading_cells"
  let ?e = "pad_right MACHINE_W ''effort'' @ heading_cells"
  let ?top = "[?h] @ map group_row gs @ [[], ?e] @ map effort_row egs @ [LEGEND]"
  let ?rest = "last (render_lines gs egs cov) @ [CHR 0x0A]"
  have "list_all (\<lambda>l. CHR 0x0A \<notin> set l) ?top"
    using assms no_newline_rows by (auto simp: list_all_iff pad_right_def no_newline_cells LEGEND_def)
  moreover have "render gs egs cov = concat (map (\<lambda>l. l @ [CHR 0x0A]) ?top) @ ?rest"
    unfolding render_def by (subst render_lines_rows) simp
  ultimately have lines: "split_on (CHR 0x0A) (render gs egs cov) = ?top @ split_on (CHR 0x0A) ?rest"
    using split_lines by metis
  have rows: "\<forall>l \<in> set (map group_row gs). l \<noteq> []"
    using assms(1) columns_group_row by (fastforce simp: list_all_iff columns_def)
  have efforts: "\<forall>l \<in> set (map effort_row egs). l \<noteq> LEGEND"
    using assms(2) effort_row_not_legend by (auto simp: list_all_iff)
  have "takeWhile (\<lambda>l. l \<noteq> []) (map group_row gs @ [] # r) = map group_row gs"
    "dropWhile (\<lambda>l. l \<noteq> []) (map group_row gs @ [] # r) = [] # r"
    "takeWhile (\<lambda>l. l \<noteq> LEGEND) (map effort_row egs @ LEGEND # r) = map effort_row egs" for r
    using rows efforts by (auto simp: takeWhile_append2 dropWhile_append2 takeWhile_append dropWhile_append)
  moreover have "map (read_group \<circ> group_row) gs = gs" "map (read_effort \<circ> effort_row) egs = egs"
    using assms by (simp_all add: list_all_iff read_group_row read_effort_row map_idI)
  ultimately show ?thesis by (simp add: read_tables_def lines)
qed

section \<open>Properties\<close>

text \<open>
  (C30) The printed summary loses nothing: when every machine id, model and effort of the tables is
  not empty, has no space and no line feed, is not \<open>-\<close> (which stands for a missing one) and is
  shorter than its column, reading the printed tables back gives exactly the grouped totals, every
  counter with its value and every missing one as missing.
\<close>

theorem summary_tables_readable:
  assumes "read_usage_file C path opened = Inr st"
    and "list_all group_fits (groups st)" and "list_all effort_fits (effort_groups st)"
  shows "\<exists>out warns. print_summary C path opened None = (out, Inr warns) \<and>
    read_tables out = (groups st, effort_groups st)"
  using read_tables_render [OF assms(2,3)]
  by (simp add: print_summary_def assms(1) write_lines_unlimited flip: render_def)

definition table_record :: AuditRecord where
  "table_record = (AuditRecord_new ''e'' ''t'' ''m1'' Response)
     \<lparr>model := Some ''gpt-5'', usage := Some \<lparr>input_total = Some 20, uncached = None, cache_read = Some 5,
        cache_write = None, output_total = Some 15, reasoning = Some 0, total = Some 35\<rparr>\<rparr>"

definition table_codec :: record_codec where
  "table_codec = \<lparr>record_to_vec = (\<lambda>_. None),
     record_from_slice = (\<lambda>l. if l = ''r'' then Some table_record else None)\<rparr>"

theorem summary_tables_readable_witness:
  "\<exists>out warns. print_summary table_codec ''f'' (Inr (''r'' @ [CHR 0x0A], None)) None = (out, Inr warns) \<and>
     map fst (fst (read_tables out)) = [(''m1'', Some ''gpt-5'')] \<and>
     map (tot_total \<circ> snd) (snd (read_tables out)) = [Some 35]"
proof -
  let ?st = "count_record summary_init table_record"
  have r: "read_usage_file table_codec ''f'' (Inr (''r'' @ [CHR 0x0A], None)) = Inr ?st"
  proof -
    have "record_from_slice table_codec (record_bytes (''r'' @ [CHR 0x0A])) = Some table_record" by code_simp
    moreover have "canonical table_record" by (simp add: table_record_def)
    ultimately have "process_line table_codec summary_init (''r'' @ [CHR 0x0A]) = ?st"
      by (simp add: process_line_def canonical_def)
    then show ?thesis
      by (simp add: read_usage_file_def read_loop.simps [of _ _ "CHR ''r'' # _"] read_loop.simps [of _ _ "[]"]
          read_until_def terminated_def)
  qed
  let ?t = "accumulate_usage GroupTotals_default (the (usage table_record))"
  have st: "groups ?st = [((''m1'', Some ''gpt-5''), ?t)]" "effort_groups ?st = [(None, ?t)]"
    by (simp_all add: count_record_def summary_init_def table_record_def AuditRecord_new_def)
  have "saturating_add 0 35 = (35 :: u64)" by (simp add: saturating_add_def)
  then have "tot_total ?t = Some 35"
    by (simp add: accumulate_usage_def GroupTotals_default_def add_def table_record_def)
  then have g: "list_all group_fits (groups ?st)" "list_all effort_fits (effort_groups ?st)"
    "map fst (groups ?st) = [(''m1'', Some ''gpt-5'')]"
    "map (tot_total \<circ> snd) (effort_groups ?st) = [Some 35]"
    by (simp_all add: st group_fits_def effort_fits_def fits_def word_def char_count_def MACHINE_W_def MODEL_W_def)
  from summary_tables_readable [OF r g(1,2)] g(3,4) show ?thesis by force
qed

text \<open>
  The limits of it: a machine id that fills its column is printed without a gap before the model, so
  two different groups can print the same row, and a model or effort named \<open>-\<close> prints like a missing
  one.
\<close>

lemma dash_prints_as_missing:
  "group_row ((m, Some ''-''), t) = group_row ((m, None), t)"
  "effort_row (Some ''-'', t) = effort_row (None, t)"
  by (simp_all add: group_row_def effort_row_def label_text_def)

lemma long_names_run_together:
  "group_row ((''machine-000001'', Some ''0-gpt-codex-model''), t) =
   group_row ((''machine-0000010'', Some ''-gpt-codex-model''), t)"
  by (simp add: group_row_def label_text_def pad_right_def char_count_def MACHINE_W_def MODEL_W_def)

end
