(* ===== verification/Spec2Isabelle.thy ===== *)
theory Spec2Isabelle
  imports Unit_Tests Smoke_System Smoke_Gateway Shutdown Summary_Table
begin

text \<open>
  Verification of debitmetre, a transparent proxy gateway that meters the token usage of Codex
  clients. The program is \<^verbatim>\<open>src/src/*.rs\<close>; this development models all of its components and proves
  the properties that make them correct.

  \<^bold>\<open>The program.\<close> A caller's request reaches \<open>route_v1\<close> (\<^verbatim>\<open>lib.rs\<close>), which authenticates one meter key,
  builds the upstream URL below a fixed base, filters the headers and sends the request while a private
  observer mirrors its body. The response is streamed back by a background task through a bounded
  channel, mirrored for a second observer. When the response ends, the observers are read
  (\<^verbatim>\<open>usage.rs\<close>) and on the two Responses endpoints one audit record is offered to a writer thread that
  appends JSON lines to the usage file. The \<open>summary\<close> command (\<^verbatim>\<open>summary.rs\<close>) reads that file back,
  \<^verbatim>\<open>config.rs\<close> validates the startup configuration, \<^verbatim>\<open>main.rs\<close> is the command line, and \<^verbatim>\<open>smoke.rs\<close> an
  operator's load test that drives the gateway against a mock upstream.

  \<^bold>\<open>Theories, in the order of their dependencies.\<close>
  \<^item> \<open>Prelude\<close>: names of the machine types (\<open>u8\<close>, \<open>u16\<close>, \<open>u64\<close> are words), the theorem collections and
    generic list lemmas. \<open>Rust_Std\<close>: the standard library's checked and saturating arithmetic, string
    operations, decimal printing and parsing, the UTF-8 check of \<open>read_to_string\<close>, and writing to a stream
    that may fail after some bytes. \<open>BTree\<close>: the interface \<open>ordered_map\<close>, interpreted on
    sorted association lists, with the lemma on grouping folds that the summary uses. \<open>Float64\<close>: double
    arithmetic as rounding of rationals. \<open>Net_Addr\<close>: the standard library's socket address parser and
    printer.
  \<^item> \<open>Audit_Record\<close>: the record types and \<open>AuditRecord::new\<close>. \<open>Libraries\<close>: the third-party crates as
    records of functions that the definitions take as arguments, and the documented behaviour that
    some properties assume of them. \<open>Audit_Json\<close>: the JSON value that the derived serialisation of
    \<^verbatim>\<open>usage.rs\<close> makes of a record, and the documented schema.
  \<^item> \<open>Token_Accounting\<close>: \<open>extract_raw_usage\<close>, \<open>canonicalize\<close>. \<open>Mirror_Observer\<close>: the contract of both
    body observers, interpreted by \<open>Metering\<close> (\<open>parse_mirror\<close>, \<open>parse_json_body\<close>, \<open>StreamUsageParser\<close>)
    and by \<open>Effort\<close> (\<open>declared_effort_from\<close>, \<open>RequestEffort\<close>, \<open>RequestMirrorStream\<close>).
  \<^item> \<open>Channel\<close>: the interface \<open>bounded_fifo\<close> and bounded channels. \<open>Audit_Writer\<close>: \<open>start\<close>, \<open>try_record\<close>,
    \<open>write_loop\<close>, \<open>warn_once\<close>, and runs of proxy threads and writer thread in any interleaving.
  \<^item> \<open>Headers\<close>: the interface \<open>header_policy\<close>, interpreted on the request and the response policy, and
    the copying loops. \<open>Lifecycle\<close>: \<open>record_audit\<close>. \<open>Pump\<close>: the response task as a step relation with the
    caller, the request body and the notification as concurrent partners. \<open>Gateway\<close>: \<open>route_v1\<close>, the
    routes and the constructors. \<open>System\<close>: any number of requests, their response tasks and the one
    writer they share, as a step relation; a request is sent in one step and answered, failed or left by
    its caller in a later one, and the state keeps every request that was sent with what became of it.
    The calls on the writer are kept as a history variable, so what was offered, taken and dropped is
    computed from the run and not chosen. \<open>Ledger\<close>: an abstract ledger of the metered requests, the
    function that computes it from a state (\<open>ledger_of\<close>), and the proof that every step of the gateway is
    one of the ledger. \<open>Drain\<close>: in every fair run the gateway comes to rest.
    \<open>Shutdown\<close>: what a graceful shutdown leaves in the file and what is lost with the process.
    \<open>Diagnostics\<close>: the events of \<^verbatim>\<open>lib.rs\<close> and \<^verbatim>\<open>usage.rs\<close>, with level, fields and message, and the
    subscriber of \<^verbatim>\<open>main.rs\<close>.
  \<^item> \<open>Summary\<close>: all of \<^verbatim>\<open>summary.rs\<close>; \<open>Summary_Table\<close> reads its output back. \<open>Usage_File\<close>: the records of a file made of audit lines, shared
    by the summary and the smoke test. \<open>Config\<close>: all of \<^verbatim>\<open>config.rs\<close>. \<open>Smoke_Cli\<close> and \<open>Smoke_Run\<close>:
    \<^verbatim>\<open>smoke.rs\<close>; \<open>Smoke_Audit\<close> compares its audit counter with the summary, \<open>Smoke_Setup\<close> its mock
    upstream with the observer that meters it, \<open>Smoke_Gateway\<close> its configuration text and the arguments
    of the load generator with the gateway it starts; \<open>Smoke_System\<close> runs the whole gateway under the
    mock's load. \<open>Cli\<close>: \<^verbatim>\<open>main.rs\<close> with its events, its exit codes and what reaches its output when
    writing fails half-way. \<open>Unit_Tests\<close>: the unit
    tests of \<^verbatim>\<open>config.rs\<close> and \<^verbatim>\<open>main.rs\<close>, which hold of the model. This theory: the properties that span
    components.

  \<^bold>\<open>How code became definitions.\<close> Structs are records and enums datatypes; a method that changes its
  object returns the changed record; \<open>Result\<close> is a sum with the error on the left and \<open>Option\<close> is
  \<open>option\<close>; byte strings and UTF-8 strings are lists of characters with codes below 256; maps with
  ordered iteration are sorted association lists; a header map is the list of its entries. Answers of
  the operating system, of the upstream, of timers and of child processes are arguments or fields of
  an environment record, so each property holds for all of them. Concurrency is a list of actions
  (writer) or a step relation (pump, system), and the invariants hold for every order.

  \<^bold>\<open>What is shown.\<close> Security of forwarding: no request leaves without exactly one known key, a forwarded
  URL keeps scheme and host and is the base path followed by the caller's bytes without dot segments,
  and private headers never leave. Transparency: in every interleaving the caller receives the
  upstream's chunks in order and unchanged with bounded buffering, the response does not depend on the
  audit, the task always ends and stops promptly when the caller leaves. Metering: the event scan
  computes a declarative reading of the body, token counters obey the accounting equation without
  wrap-around, and each metered request offers exactly one well-formed record with the documented
  outcome. Storage: the file grows by the accepted records in order, at most 2048 wait in memory, the
  summary is exact for the records of the file, and end to end it counts exactly what was written; an
  audit line has exactly the documented fields and types. Accounting: the whole gateway refines a ledger
  in which every metered request is open, was left by its caller before the upstream answered, or has one
  record that is pending, taken by the writer or dropped; the records are those of the requests that were
  sent, drops and failed writes are reported exactly when there were any; every fair run without new
  requests comes to rest, and the account of a graceful shutdown names exactly what is lost with the
  process. Privacy: the log of a
  request is a function of a short list of facts, and the log of a run does not depend on the keys.
  Startup: configurations are accepted exactly under the documented rules and nothing is served
  otherwise. Summary: its printed tables can be read back. Load test: it passes only on a clean and fully
  audited load, its counter agrees with the summary on UTF-8 files, the gateway it starts accepts its
  configuration and its requests, and under
  its load a gateway that drops nothing reconciles, so the test passes.

  \<^bold>\<open>Bounds and termination.\<close> No definition uses fuel. Loops over input are structural or have a measure
  (the length of the rest, the remaining padding); the polling loops of the smoke test run over the
  list of answers they get before their deadline; the response task is shown to end by a measure on its
  state. Counters keep their 64 bits, and properties about them either state the saturation or bound
  the file by \<open>2 ^ 64\<close> bytes. The exponent range of doubles is unbounded in \<open>Float64\<close>, which is harmless
  for ratios of 64-bit counts.

  \<^bold>\<open>Not modelled.\<close> How the log subscriber formats a line, the allocator, the HTTP client's and the server's own behaviour (TLS, framing, redirects, connection
  handling), which signal arrives and when, timing, random event ids and clocks (arguments), the content
  of the crates listed in \<open>Libraries\<close>, the integration tests, the scripts and the CI.
\<close>

section \<open>From the writer to the summary\<close>

definition sample_record :: AuditRecord where
  "sample_record = AuditRecord_new ''e'' ''t'' ''m1'' Response"

definition sample_codec :: record_codec where
  "sample_codec =
     \<lparr>record_to_vec = \<lambda>_. Some ''{}'',
      record_from_slice = \<lambda>l. if l = ''{}'' then Some sample_record else None\<rparr>"

lemma sample_codec_ok: "codec_ok sample_codec {sample_record}"
  by (simp add: codec_ok_def sample_codec_def)

text \<open>
  (C9) The audit trail end to end: when the usage file was empty or ended in a complete line and the
  writes succeeded, then after any interleaving of proxy and writer the file holds its old records
  followed by exactly the records the writer took, in order, and the summary counts exactly those.
\<close>

theorem written_records_are_counted:
  assumes "content = [] \<or> last content = CHR 0x0A"
    and "taken C (spawn content) acts = ts" and "list_all (\<lambda>(r, res). res = WroteAll) ts"
    and "list_all canonical (map fst ts)" and "codec_ok C (set (map fst ts))"
  shows "let file = w_file (writer_run C (spawn content) acts) in
    file_records C file = file_records C content @ map fst ts \<and>
    (\<exists>st. read_usage_file C path (Inr (file, None)) = Inr st \<and>
       cov_accepted (coverage st) = of_nat (length (file_records C content) + length ts))"
proof -
  have "filter canonical (map fst ts) = map fst ts"
    using assms(4) by (simp add: list_all_iff filter_id_conv)
  moreover have "w_file (writer_run C (spawn content) acts) = content @ concat (map (line_of C) (map fst ts))"
    using writer_file [of C "spawn content" acts] assms(2) all_written [OF assms(3), of C]
    by (simp add: spawn_def)
  ultimately have "file_records C (w_file (writer_run C (spawn content) acts)) =
      file_records C content @ map fst ts"
    using file_records_lines [OF assms(1,5)] by simp
  moreover have "\<exists>st. read_usage_file C path (Inr (bs, None)) = Inr st \<and>
      cov_accepted (coverage st) = of_nat (length (file_records C bs))" for bs
    by (rule read_usage_file_ok [of C path bs]) blast
  ultimately show ?thesis unfolding Let_def by (metis length_append length_map)
qed

theorem written_records_are_counted_witness:
  "file_records sample_codec
     (w_file (writer_run sample_codec (spawn []) [TryRecord sample_record, WriteStep WroteAll])) =
   [sample_record]"
proof -
  have t: "taken sample_codec (spawn []) [TryRecord sample_record, WriteStep WroteAll] =
      [(sample_record, WroteAll)]"
    by (simp add: spawn_def channel_new_def try_record_def ch_try_send_def ch_try_recv_def
        AUDIT_QUEUE_CAPACITY_def)
  have "file_records sample_codec [] = []"
    by (simp add: file_records_def pieces_def List.map_filter_def)
  then show ?thesis
    using written_records_are_counted [OF _ t, of "[]"] sample_codec_ok
    by (simp add: Let_def sample_record_def)
qed

text \<open>
  (C39) A torn line costs two records: when the usage file ends in an unfinished line at startup, the
  first record written afterwards is appended to that line. If the joined bytes do not parse, the
  summary counts neither, although the new record was accepted and written without an error.
\<close>

theorem torn_line_swallows_next_record:
  assumes "good = [] \<or> last good = CHR 0x0A" and "CHR 0x0A \<notin> set torn"
    and "record_to_vec C r = Some line" and "CHR 0x0A \<notin> set line"
    and "record_from_slice C (strip_cr (torn @ line)) = None"
  shows "let w = writer_run C (spawn (good @ torn)) [TryRecord r, WriteStep WroteAll] in
    w_file w = good @ torn @ line @ [CHR 0x0A] \<and> w_stderr w = [] \<and>
    file_records C (w_file w) = file_records C good"
proof -
  have "file_records C (good @ (torn @ line) @ [CHR 0x0A]) = file_records C good"
    using file_records_terminated [OF assms(1), of "torn @ line" C] assms(2,4,5)
    by (simp add: List.map_filter_def)
  then show ?thesis
    using assms(3)
    by (simp add: Let_def spawn_def channel_new_def try_record_def ch_try_send_def ch_try_recv_def
        write_loop_step_def write_line_def AUDIT_QUEUE_CAPACITY_def)
qed

theorem torn_line_swallows_next_record_witness:
  "file_records sample_codec
     (w_file (writer_run sample_codec (spawn ([] @ ''{'')) [TryRecord sample_record, WriteStep WroteAll])) = []"
proof -
  have "file_records sample_codec [] = []"
    by (simp add: file_records_def pieces_def List.map_filter_def)
  moreover have "record_to_vec sample_codec sample_record = Some ''{}''"
    "record_from_slice sample_codec (strip_cr (''{'' @ ''{}'')) = None"
    by (simp_all add: sample_codec_def strip_cr_def strip_suffix_def)
  ultimately show ?thesis
    using torn_line_swallows_next_record [of "[]" "''{''" sample_codec sample_record "''{}''"]
    unfolding Let_def by fastforce
qed

section \<open>From the configuration to authentication\<close>

text \<open>
  (C20) Configured keys and presented keys meet: in a gateway started from an accepted configuration, a
  request is authenticated as machine \<open>m\<close> exactly when it carries one readable meter key whose digest
  the configuration maps to \<open>m\<close>; that machine id is not blank, and every digest the gateway can ever
  compute has the shape the configuration insists on, so no well-formed entry is unreachable and no
  rejected entry could have matched.
\<close>

theorem configured_keys_authenticate:
  assumes "toml_ok T" and "digest_ok (cr_digest C)"
    and "load T path read = Inr cfg"
    and "production (cr_url C) (cfg_machine_keys cfg) opened = Inr (gw, audit)"
  shows "authenticate C gw hs = Some m \<longleftrightarrow>
    (\<exists>v k. get_all hs ''x-meter-key'' = [v] \<and> value_to_str (cr_http C) v = Some k \<and>
       is_digest_hex (digest_hex (cr_digest C) k) \<and> trim m \<noteq> [] \<and>
       (digest_hex (cr_digest C) k, m) \<in> set (cfg_machine_keys cfg))"
proof -
  from assms(3) obtain contents raw where raw: "toml_from_str T contents = Inr raw"
      "try_from raw path = (Inr cfg :: 'a ConfigError + Config)"
    unfolding load_Inr_iff by blast
  have inv: "bt_invar (raw_machine_keys raw)" by (rule toml_okD [OF assms(1) raw(1)])
  note cfg = raw(2) [unfolded try_from_Inr_iff [OF inv]]
  have keys: "machine_keys gw = cfg_machine_keys cfg"
    using assms(4) by (auto simp: production_def split: sum.splits option.splits)
  have "bt_get (cfg_machine_keys cfg) d = Some m \<longleftrightarrow> (d, m) \<in> set (cfg_machine_keys cfg)" for d
    using cfg inv bt.entries_distinct [of "cfg_machine_keys cfg"]
    by (simp add: bt_get_eq_map_of map_of_eq_Some_iff)
  moreover have "trim m \<noteq> []" if "(d, m) \<in> set (cfg_machine_keys cfg)" for d
    using that cfg by (auto simp: list_all_iff entry_ok_def)
  ultimately show ?thesis
    using digest_shape [OF assms(2)] by (auto simp: authenticate_Some_iff keys)
qed

definition sample_crates :: "(string, unit, unit) crates" where
  "sample_crates = plain_crates\<lparr>cr_digest := sample_digest, cr_url := plain_url\<lparr>url_parse := Some\<rparr>\<rparr>"

theorem configured_keys_authenticate_witness:
  "\<exists>cfg gw audit. load sample_toml ''c'' (Inr ''x'') = Inr cfg \<and>
     production (cr_url sample_crates) (cfg_machine_keys cfg) (Inr [] :: unit + bytes) = Inr (gw, audit) \<and>
     authenticate sample_crates gw [(''x-meter-key'', ''secret'')] = Some ''m1''"
proof -
  define gw where "gw = \<lparr>upstream_base = PRODUCTION_UPSTREAM_BASE,
    machine_keys = cfg_machine_keys sample_config\<rparr>"
  have l: "load sample_toml ''c'' (Inr ''x'') = Inr sample_config" by (rule load_sample)
  have p: "production (cr_url sample_crates) (cfg_machine_keys sample_config) (Inr [] :: unit + bytes) =
      Inr (gw, spawn [])"
    by (simp add: production_def start_def gw_def sample_crates_def)
  have d: "digest_ok (cr_digest sample_crates)"
    by (simp add: sample_crates_def sample_digest_ok)
  have dg: "digest_hex (cr_digest sample_crates) ''secret'' = replicate 64 (CHR ''a'')"
    "is_digest_hex (replicate 64 (CHR ''a''))" "trim ''m1'' \<noteq> []"
    by code_simp+
  have v: "value_to_str (cr_http sample_crates) ''secret'' = Some ''secret''"
    by (simp add: sample_crates_def plain_crates_def plain_http_def)
  have "authenticate sample_crates gw [(''x-meter-key'', ''secret'')] = Some ''m1''"
    unfolding configured_keys_authenticate [OF sample_toml_ok d l p]
    using dg v by (intro exI [of _ "''secret''"]) (simp add: get_all_def sample_config_def sample_raw_def)
  with l p show ?thesis by blast
qed

end
